(* ===== verification/Prelude.thy ===== *)
theory Prelude
  imports "HOL-Library.Word"
begin

unbundle bit_operations_syntax

text \<open>
  The vocabulary every component of the framework shares.

  \<^item> the unsigned C++ integer types as words of their width, and \<open>bytes\<close> for
    raw memory (\<open>char*\<close> ranges and the contents of a binary \<open>std::string\<close>);
  \<^item> \<open>le_bytes\<close> and \<open>le_word\<close>: what \<open>std::memcpy\<close> of an integer to and from
    memory does on the little-endian targets the framework is built for;
  \<^item> \<open>blit\<close> and \<open>mem_slice\<close>: \<open>std::memcpy\<close> into, and a read of a range of, an array;
  \<^item> \<open>to_string\<close>: \<open>std::to_string\<close> of an unsigned number.

  The collections \<open>memory_simps\<close> and \<open>codec_simps\<close> gather the rewrite rules the
  component proofs use.
\<close>

named_theorems memory_simps \<open>rewrite rules for ranges of memory\<close>
named_theorems codec_simps \<open>rewrite rules for integer encodings\<close>

type_synonym u8 = "8 word"
type_synonym u16 = "16 word"
type_synonym u32 = "32 word"
type_synonym u64 = "64 word"
type_synonym bytes = "u8 list"


subsection \<open>Definitions\<close>

primrec le_bytes :: "nat \<Rightarrow> 'a::len word \<Rightarrow> bytes" where
  "le_bytes 0 w = []"
| "le_bytes (Suc n) w = ucast w # le_bytes n (drop_bit 8 w)"

primrec le_word :: "bytes \<Rightarrow> 'a::len word" where
  "le_word [] = 0"
| "le_word (b # bs) = ucast b OR push_bit 8 (le_word bs)"

definition mem_slice :: "nat \<Rightarrow> nat \<Rightarrow> 'a list \<Rightarrow> 'a list" where
  "mem_slice off n xs = take n (drop off xs)"

definition blit :: "nat \<Rightarrow> 'a list \<Rightarrow> 'a list \<Rightarrow> 'a list" where
  "blit off src dst = take off dst @ src @ drop (off + length src) dst"

definition byte_of_char :: "char \<Rightarrow> u8" where
  "byte_of_char c = of_nat (of_char c)"

definition char_of_byte :: "u8 \<Rightarrow> char" where
  "char_of_byte b = char_of (unat b)"

definition bytes_of_string :: "string \<Rightarrow> bytes" where
  "bytes_of_string s = map byte_of_char s"

definition string_of_bytes :: "bytes \<Rightarrow> string" where
  "string_of_bytes bs = map char_of_byte bs"

definition digit_char :: "nat \<Rightarrow> char" where
  "digit_char d = char_of (48 + d)"

fun to_string :: "nat \<Rightarrow> string" where
  "to_string n = (if n < 10 then [digit_char n] else to_string (n div 10) @ [digit_char (n mod 10)])"

declare to_string.simps [simp del]

definition digit_value :: "char \<Rightarrow> nat" where
  "digit_value c = of_char c - 48"

definition string_value :: "string \<Rightarrow> nat" where
  "string_value s = foldl (\<lambda>n c. 10 * n + digit_value c) 0 s"


subsection \<open>Integers in memory\<close>

lemma bit_byte_beyond [simp]: "8 \<le> n \<Longrightarrow> \<not> bit (x :: u8) n"
  using bit_imp_le_length [of x n] by auto

lemma length_le_bytes [simp, codec_simps]: "length (le_bytes n w) = n"
  by (induction n arbitrary: w) auto

lemma take_bit_Suc_byte:
  fixes w :: "'a::len word"
  shows "ucast (ucast w :: u8) OR push_bit 8 (take_bit n (drop_bit 8 w)) = take_bit (8 + n) w"
  by (rule bit_word_eqI) (auto simp: bit_simps)

lemma le_word_le_bytes [codec_simps]:
  fixes w :: "'a::len word"
  shows "le_word (le_bytes n w) = take_bit (8 * n) w"
proof (induction n arbitrary: w)
  case 0
  show ?case by simp
next
  case (Suc n)
  have "le_word (le_bytes (Suc n) w)
      = ucast (ucast w :: u8) OR push_bit 8 (take_bit (8 * n) (drop_bit 8 w))"
    using Suc [of "drop_bit 8 w"] by simp
  also have "\<dots> = take_bit (8 + 8 * n) w" by (rule take_bit_Suc_byte)
  finally show ?case by (simp add: algebra_simps)
qed

lemma take_bit_word_full [simp]:
  fixes w :: "'a::len word"
  shows "LENGTH('a) \<le> n \<Longrightarrow> take_bit n w = w"
  by (rule bit_word_eqI) (auto simp: bit_simps dest: bit_imp_le_length)

lemma le_word_le_bytes_full [simp, codec_simps]:
  "le_word (le_bytes 1 (w8 :: u8)) = w8"
  "le_word (le_bytes 2 (w16 :: u16)) = w16"
  "le_word (le_bytes 4 (w32 :: u32)) = w32"
  "le_word (le_bytes 8 (w64 :: u64)) = w64"
  by (simp_all only: le_word_le_bytes) simp_all

lemma le_bytes_inj:
  fixes v w :: "'a::len word"
  assumes "LENGTH('a) \<le> 8 * n" and "le_bytes n v = le_bytes n w"
  shows "v = w"
proof -
  have "take_bit (8 * n) v = take_bit (8 * n) w"
    using assms(2) by (metis le_word_le_bytes)
  with assms(1) show ?thesis by simp
qed


subsection \<open>Ranges of memory\<close>

lemma length_blit [simp, memory_simps]:
  "off + length src \<le> length dst \<Longrightarrow> length (blit off src dst) = length dst"
  by (simp add: blit_def)

lemma take_blit [memory_simps]:
  "off \<le> length dst \<Longrightarrow> take (off + length src) (blit off src dst) = take off dst @ src"
  by (simp add: blit_def)

lemma take_blit_before [memory_simps]:
  "n \<le> off \<Longrightarrow> off \<le> length dst \<Longrightarrow> take n (blit off src dst) = take n dst"
  by (simp add: blit_def)

lemma drop_blit_after [memory_simps]:
  "off + length src \<le> n \<Longrightarrow> off \<le> length dst \<Longrightarrow> drop n (blit off src dst) = drop n dst"
  by (simp add: blit_def add.commute)

lemma mem_slice_blit [memory_simps]:
  "off \<le> length dst \<Longrightarrow> mem_slice off (length src) (blit off src dst) = src"
  by (simp add: blit_def mem_slice_def)

lemma length_mem_slice [simp, memory_simps]:
  "length (mem_slice off n xs) = min n (length xs - off)"
  by (simp add: mem_slice_def)

lemma mem_slice_append_mid [memory_simps]:
  "length xs = off \<Longrightarrow> length ys = n \<Longrightarrow> mem_slice off n (xs @ ys @ zs) = ys"
  by (simp add: mem_slice_def)

lemma mem_slice_0 [simp, memory_simps]: "mem_slice 0 n xs = take n xs"
  by (simp add: mem_slice_def)


subsection \<open>Characters and bytes\<close>

lemma char_byte_inverse [simp]: "char_of_byte (byte_of_char c) = c"
proof -
  have "of_char c < (256 :: nat)" by simp
  hence "unat (of_nat (of_char c) :: u8) = of_char c"
    by (simp add: unat_of_nat)
  thus ?thesis by (simp add: char_of_byte_def byte_of_char_def)
qed

lemma byte_char_inverse [simp]: "byte_of_char (char_of_byte b) = b"
proof -
  have "unat b < 256" using unsigned_less [of b, where ?'a=nat] by simp
  hence "of_char (char_of (unat b) :: char) = unat b" by simp
  thus ?thesis by (simp add: char_of_byte_def byte_of_char_def)
qed

lemma string_bytes_inverse [simp]: "string_of_bytes (bytes_of_string s) = s"
  by (simp add: string_of_bytes_def bytes_of_string_def o_def)

lemma bytes_string_inverse [simp]: "bytes_of_string (string_of_bytes bs) = bs"
  by (simp add: string_of_bytes_def bytes_of_string_def o_def)

lemma length_bytes_of_string [simp]: "length (bytes_of_string s) = length s"
  by (simp add: bytes_of_string_def)

lemma length_string_of_bytes [simp]: "length (string_of_bytes bs) = length bs"
  by (simp add: string_of_bytes_def)


subsection \<open>Decimal numbers\<close>

lemma digit_value_digit_char [simp]: "d < 10 \<Longrightarrow> digit_value (digit_char d) = d"
  by (simp add: digit_value_def digit_char_def)

lemma string_value_snoc [simp]: "string_value (s @ [c]) = 10 * string_value s + digit_value c"
  by (simp add: string_value_def)

lemma string_value_to_string [simp]: "string_value (to_string n) = n"
proof (induction n rule: to_string.induct)
  case (1 n)
  show ?case
  proof (cases "n < 10")
    case True
    thus ?thesis by (simp add: to_string.simps [of n] string_value_def)
  next
    case False
    with 1 show ?thesis by (simp add: to_string.simps [of n])
  qed
qed

lemma to_string_inject [simp]: "to_string m = to_string n \<longleftrightarrow> m = n"
  by (metis string_value_to_string)

lemma to_string_digits: "c \<in> set (to_string n) \<Longrightarrow> 48 \<le> (of_char c :: nat) \<and> (of_char c :: nat) \<le> 57"
proof (induction n rule: to_string.induct)
  case (1 n)
  have *: "of_char (digit_char d) = 48 + d" if "d < 10" for d
    using that by (simp add: digit_char_def)
  from 1 show ?case
    by (subst (asm) (2) to_string.simps) (auto split: if_splits simp: *)
qed

lemma to_string_not_Nil [simp]: "to_string n \<noteq> []"
  by (subst to_string.simps) simp

end
