(* ===== verification/Session_Buffer.thy ===== *)
theory Session_Buffer
  imports Prelude
begin

text \<open>
  \<open>CSessionBuffer\<close> is the receive buffer every TCP, UDP, KCP and TTY session
  owns: asio writes at \<open>get_curr_write_ptr()\<close>, \<open>set_write_data\<close> commits the
  received length, the packet parser reads from \<open>read()\<close> and \<open>move\<close> drops what
  it consumed.  The model keeps the whole allocated array, the uncommitted tail
  included, and the \<open>size_t\<close> addition of \<open>set_write_data\<close> wraps at 64 bits.

  The locale \<open>byte_fifo\<close> is what a session relies on: a bounded queue of bytes.
  Its interpretation \<open>session_fifo\<close> shows that the array implementation keeps it.
\<close>


section \<open>The receive buffer of a session (Common/SessionBuffer.hpp)\<close>


subsection \<open>Definitions\<close>

record CSessionBuffer =
  sb_buffer :: bytes
  sb_write_size :: nat
  sb_max_buff_size :: nat

text \<open>\<open>new char[_size]\<close> is memory of unknown contents; it is the argument \<open>mem\<close>.\<close>

definition Init :: "bytes \<Rightarrow> CSessionBuffer" where
  "Init mem = \<lparr> sb_buffer = mem, sb_write_size = 0, sb_max_buff_size = length mem \<rparr>"

definition set_write_data :: "nat \<Rightarrow> CSessionBuffer \<Rightarrow> bool \<times> CSessionBuffer" where
  "set_write_data len sb =
    (if (sb_write_size sb + len) mod 2 ^ 64 > sb_max_buff_size sb then (False, sb)
     else (True, sb \<lparr> sb_write_size := (sb_write_size sb + len) mod 2 ^ 64 \<rparr>))"

text \<open>Pointers into the buffer are offsets from its start.\<close>

definition get_curr_write_ptr :: "CSessionBuffer \<Rightarrow> nat" where
  "get_curr_write_ptr sb = sb_write_size sb"

definition get_buffer_size :: "CSessionBuffer \<Rightarrow> nat" where
  "get_buffer_size sb = sb_max_buff_size sb - sb_write_size sb"

definition read_ptr :: "CSessionBuffer \<Rightarrow> nat" where
  "read_ptr sb = 0"

definition get_write_size :: "CSessionBuffer \<Rightarrow> nat" where
  "get_write_size sb = sb_write_size sb"

definition move_buffer :: "nat \<Rightarrow> CSessionBuffer \<Rightarrow> CSessionBuffer" where
  "move_buffer len sb =
    (if len \<ge> sb_write_size sb then sb \<lparr> sb_write_size := 0 \<rparr>
     else let move_length = sb_write_size sb - len in
       sb \<lparr> sb_buffer := blit 0 (mem_slice len move_length (sb_buffer sb)) (sb_buffer sb),
            sb_write_size := move_length \<rparr>)"

text \<open>
  A write of \<open>data\<close> through a pointer at offset \<open>off\<close>, as asio's receive or
  \<open>std::memcpy\<close> performs it; \<open>None\<close> when it would leave the allocated array.
\<close>

definition write_memory :: "nat \<Rightarrow> bytes \<Rightarrow> CSessionBuffer \<Rightarrow> CSessionBuffer option" where
  "write_memory off data sb =
    (if off + length data \<le> length (sb_buffer sb)
     then Some (sb \<lparr> sb_buffer := blit off data (sb_buffer sb) \<rparr>) else None)"

text \<open>
  A completed receive: the bytes go to \<open>get_curr_write_ptr()\<close> and the session
  commits their number.  \<open>None\<close> is a write outside the array, \<open>Some (False, _)\<close>
  a refused commit.
\<close>

definition receive_into :: "bytes \<Rightarrow> CSessionBuffer \<Rightarrow> (bool \<times> CSessionBuffer) option" where
  "receive_into data sb =
    (case write_memory (get_curr_write_ptr sb) data sb of
       None \<Rightarrow> None
     | Some sb' \<Rightarrow> Some (set_write_data (length data) sb'))"

text \<open>The well-formed buffers, and the bytes a buffer holds for the parser.\<close>

definition sb_inv :: "CSessionBuffer \<Rightarrow> bool" where
  "sb_inv sb \<longleftrightarrow> sb_write_size sb \<le> sb_max_buff_size sb \<and> sb_max_buff_size sb = length (sb_buffer sb)
     \<and> sb_max_buff_size sb < 2 ^ 64"

definition contents :: "CSessionBuffer \<Rightarrow> bytes" where
  "contents sb = take (sb_write_size sb) (sb_buffer sb)"

text \<open>One use of the buffer by a session, and what it means for a queue of bytes.\<close>

datatype buffer_op = Receive bytes | Consume nat

fun buffer_step :: "buffer_op \<Rightarrow> CSessionBuffer \<Rightarrow> CSessionBuffer option" where
  "buffer_step (Receive data) sb =
     (case receive_into data sb of Some (True, sb') \<Rightarrow> Some sb' | _ \<Rightarrow> None)"
| "buffer_step (Consume n) sb = Some (move_buffer n sb)"

fun fifo_step :: "nat \<Rightarrow> buffer_op \<Rightarrow> bytes \<Rightarrow> bytes option" where
  "fifo_step cap (Receive data) q =
     (if length q + length data \<le> cap then Some (q @ data) else None)"
| "fifo_step cap (Consume n) q = Some (drop n q)"

fun run_steps :: "('op \<Rightarrow> 's \<Rightarrow> 's option) \<Rightarrow> 'op list \<Rightarrow> 's \<Rightarrow> 's option" where
  "run_steps step [] s = Some s"
| "run_steps step (x # xs) s = (case step x s of None \<Rightarrow> None | Some s' \<Rightarrow> run_steps step xs s')"


subsection \<open>The contract of a bounded byte queue\<close>

locale byte_fifo =
  fixes invar :: "'s \<Rightarrow> bool"
    and queue :: "'s \<Rightarrow> bytes"
    and capacity :: "'s \<Rightarrow> nat"
    and step :: "buffer_op \<Rightarrow> 's \<Rightarrow> 's option"
  assumes step_invar: "invar s \<Longrightarrow> step x s = Some s' \<Longrightarrow> invar s'"
    and step_capacity: "invar s \<Longrightarrow> step x s = Some s' \<Longrightarrow> capacity s' = capacity s"
    and step_queue: "invar s \<Longrightarrow> map_option queue (step x s) = fifo_step (capacity s) x (queue s)"
    and queue_bound: "invar s \<Longrightarrow> length (queue s) \<le> capacity s"
begin

lemma run_queue:
  "invar s \<Longrightarrow>
   map_option queue (run_steps step xs s) = run_steps (fifo_step (capacity s)) xs (queue s)"
proof (induction xs arbitrary: s)
  case Nil
  show ?case by simp
next
  case (Cons x xs)
  show ?case
  proof (cases "step x s")
    case None
    with step_queue [OF Cons.prems, of x] show ?thesis by simp
  next
    case (Some s')
    with step_queue [OF Cons.prems, of x]
    have "fifo_step (capacity s) x (queue s) = Some (queue s')" by simp
    with Some Cons.IH [OF step_invar [OF Cons.prems Some]] step_capacity [OF Cons.prems Some]
    show ?thesis by simp
  qed
qed

lemma run_invar: "invar s \<Longrightarrow> run_steps step xs s = Some s' \<Longrightarrow> invar s'"
  by (induction xs arbitrary: s) (auto split: option.splits dest: step_invar)

lemma run_bound:
  "invar s \<Longrightarrow> run_steps step xs s = Some s' \<Longrightarrow> length (queue s') \<le> capacity s'"
  using run_invar queue_bound by blast

end


subsection \<open>The array implements the queue\<close>

lemma Init_inv [simp]: "length mem < 2 ^ 64 \<Longrightarrow> sb_inv (Init mem)"
  by (simp add: sb_inv_def Init_def)

lemma contents_Init [simp]: "contents (Init mem) = []"
  by (simp add: contents_def Init_def)

lemma length_contents [simp]: "sb_inv sb \<Longrightarrow> length (contents sb) = sb_write_size sb"
  by (simp add: sb_inv_def contents_def)

lemma get_write_size_contents: "sb_inv sb \<Longrightarrow> get_write_size sb = length (contents sb)"
  by (simp add: get_write_size_def)

lemma get_buffer_size_contents:
  "sb_inv sb \<Longrightarrow> get_buffer_size sb = sb_max_buff_size sb - length (contents sb)"
  by (simp add: get_buffer_size_def)

lemma receive_into_fits:
  assumes "sb_inv sb" "length data \<le> get_buffer_size sb"
  shows "\<exists>sb'. receive_into data sb = Some (True, sb') \<and> sb_inv sb' \<and>
           contents sb' = contents sb @ data \<and> sb_max_buff_size sb' = sb_max_buff_size sb"
proof -
  from assms have fits: "sb_write_size sb + length data \<le> length (sb_buffer sb)"
    "sb_write_size sb + length data < 2 ^ 64"
    by (auto simp: sb_inv_def get_buffer_size_def)
  let ?sb = "sb \<lparr> sb_buffer := blit (sb_write_size sb) data (sb_buffer sb),
                  sb_write_size := sb_write_size sb + length data \<rparr>"
  from fits assms have "receive_into data sb = Some (True, ?sb)"
    by (auto simp: receive_into_def write_memory_def get_curr_write_ptr_def set_write_data_def sb_inv_def)
  moreover from fits assms have "sb_inv ?sb" by (simp add: sb_inv_def)
  moreover from fits have "contents ?sb = contents sb @ data"
    by (simp add: contents_def memory_simps)
  ultimately show ?thesis by auto
qed

lemma receive_into_too_long:
  assumes "sb_inv sb" "get_buffer_size sb < length data"
  shows "receive_into data sb = None"
  using assms
  by (simp add: receive_into_def write_memory_def get_curr_write_ptr_def get_buffer_size_def sb_inv_def)

lemma move_buffer_inv [simp]: "sb_inv sb \<Longrightarrow> sb_inv (move_buffer n sb)"
  by (auto simp: sb_inv_def move_buffer_def Let_def)

lemma contents_move_buffer: "sb_inv sb \<Longrightarrow> contents (move_buffer n sb) = drop n (contents sb)"
  by (auto simp: sb_inv_def move_buffer_def Let_def contents_def blit_def mem_slice_def drop_take)

lemma max_move_buffer [simp]: "sb_max_buff_size (move_buffer n sb) = sb_max_buff_size sb"
  by (simp add: move_buffer_def Let_def)

lemma buffer_step_Receive:
  assumes "sb_inv s"
  shows "if length (contents s) + length data \<le> sb_max_buff_size s
    then \<exists>s'. buffer_step (Receive data) s = Some s' \<and> sb_inv s' \<and>
        contents s' = contents s @ data \<and> sb_max_buff_size s' = sb_max_buff_size s
    else buffer_step (Receive data) s = None"
  using assms receive_into_fits [OF assms, of data] receive_into_too_long [OF assms, of data]
  by (cases "length data \<le> get_buffer_size s") (auto simp: get_buffer_size_def sb_inv_def)

lemma buffer_step_cases:
  assumes "sb_inv s" "buffer_step x s = Some s'"
  shows "sb_inv s' \<and> sb_max_buff_size s' = sb_max_buff_size s"
proof (cases x)
  case (Receive data)
  with assms buffer_step_Receive [OF assms(1), of data] show ?thesis
    by (auto simp del: buffer_step.simps split: if_splits)
qed (use assms in auto)

interpretation session_fifo: byte_fifo sb_inv contents sb_max_buff_size buffer_step
proof
  fix s :: CSessionBuffer and x
  assume inv: "sb_inv s"
  show "length (contents s) \<le> sb_max_buff_size s" using inv by (simp add: sb_inv_def)
  show "map_option contents (buffer_step x s) = fifo_step (sb_max_buff_size s) x (contents s)"
  proof (cases x)
    case (Receive data)
    with buffer_step_Receive [OF inv, of data] show ?thesis
      by (auto simp del: buffer_step.simps split: if_splits)
  qed (simp add: inv contents_move_buffer)
qed (auto dest: buffer_step_cases)


subsection \<open>Properties\<close>

text \<open>
  C1.  The receive buffer is a bounded FIFO of bytes: for every sequence of
  receives and consumptions on a well-formed buffer, the committed contents are
  those of the abstract queue of bytes, and the array run fails (a write outside
  the allocation) exactly when the abstract queue overflows its capacity.
\<close>

theorem session_buffer_refines_fifo:
  assumes "sb_inv sb"
  shows "map_option contents (run_steps buffer_step ops sb)
       = run_steps (fifo_step (sb_max_buff_size sb)) ops (contents sb)"
  using assms by (rule session_fifo.run_queue)

theorem session_buffer_refines_fifo_witness:
  "sb_inv (Init [0, 0, 0, 0]) \<and>
   map_option contents (run_steps buffer_step [Receive [1, 2, 3], Consume 2, Receive [4, 5]]
     (Init [0, 0, 0, 0])) = Some [3, 4, 5]"
  using session_buffer_refines_fifo
    [of "Init [0, 0, 0, 0]" "[Receive [1, 2, 3], Consume 2, Receive [4, 5]]"]
  by (simp add: sb_inv_def Init_def contents_def)

end
