(* ===== verification/Data_Stream.thy ===== *)
theory Data_Stream
  imports Prelude "HOL-Library.Sublist"
begin

text \<open>
  \<open>CWriteBuffer\<close> appends integers, floats and strings to a \<open>std::string\<close>;
  \<open>CReadBuffer\<close> reads them back.  Both are built with the byte-order switch off,
  so an integer is its little-endian memory image.  A signed or a floating-point
  value is the word with its bit pattern: the operators copy memory only.

  \<open>CReadBuffer\<close> keeps 32-bit cursors, and their difference wraps.  A read
  through \<open>read_ptr()\<close> that leaves the string (its terminating NUL included) is
  undefined behaviour and is the result \<open>None\<close>.
\<close>


section \<open>Binary data streams (Common/ReadBuffer.hpp, Common/WriteBuffer.hpp)\<close>


subsection \<open>Definitions: the reader\<close>

record CReadBuffer =
  rb_buffer :: bytes
  rb_read_ptr :: u32
  rb_write_ptr :: u32
  rb_is_net_sort :: bool

definition CReadBuffer_ctor :: "bytes \<Rightarrow> CReadBuffer" where
  "CReadBuffer_ctor buf = \<lparr> rb_buffer = buf, rb_read_ptr = 0,
     rb_write_ptr = of_nat (length buf), rb_is_net_sort = False \<rparr>"

definition rb_append :: "bytes \<Rightarrow> CReadBuffer \<Rightarrow> CReadBuffer" where
  "rb_append buf rb = rb \<lparr> rb_buffer := buf, rb_write_ptr := of_nat (length buf) \<rparr>"

definition rb_left :: "CReadBuffer \<Rightarrow> u32" where
  "rb_left rb = rb_write_ptr rb - rb_read_ptr rb"

text \<open>The memory behind \<open>read_ptr()\<close>: \<open>c_str()\<close> ends in a NUL byte.\<close>

definition rb_fetch :: "nat \<Rightarrow> CReadBuffer \<Rightarrow> bytes option" where
  "rb_fetch n rb =
    (let mem = rb_buffer rb @ [0]; off = unat (rb_read_ptr rb) in
     if off + n \<le> length mem then Some (mem_slice off n mem) else None)"

definition rb_advance :: "u32 \<Rightarrow> CReadBuffer \<Rightarrow> CReadBuffer" where
  "rb_advance n rb = rb \<lparr> rb_read_ptr := rb_read_ptr rb + n \<rparr>"

text \<open>The body the numeric \<open>operator >>\<close> share, for a type of \<open>n\<close> bytes.\<close>

definition rb_read_num :: "nat \<Rightarrow> CReadBuffer \<Rightarrow> ('a::len word \<times> CReadBuffer) option" where
  "rb_read_num n rb =
    (if rb_left rb \<ge> of_nat n
     then case rb_fetch n rb of
            None \<Rightarrow> None
          | Some bs \<Rightarrow> Some (le_word bs, rb_advance (of_nat n) rb)
     else Some (0, rb))"

definition read_uint8 :: "CReadBuffer \<Rightarrow> (u8 \<times> CReadBuffer) option" where
  "read_uint8 rb = rb_read_num 1 rb"

definition read_uint16 :: "CReadBuffer \<Rightarrow> (u16 \<times> CReadBuffer) option" where
  "read_uint16 rb = rb_read_num 2 rb"

definition read_uint32 :: "CReadBuffer \<Rightarrow> (u32 \<times> CReadBuffer) option" where
  "read_uint32 rb = rb_read_num 4 rb"

definition read_uint64 :: "CReadBuffer \<Rightarrow> (u64 \<times> CReadBuffer) option" where
  "read_uint64 rb = rb_read_num 8 rb"

definition read_int8 :: "CReadBuffer \<Rightarrow> (u8 \<times> CReadBuffer) option" where
  "read_int8 rb = rb_read_num 1 rb"

definition read_int16 :: "CReadBuffer \<Rightarrow> (u16 \<times> CReadBuffer) option" where
  "read_int16 rb = rb_read_num 2 rb"

definition read_int32 :: "CReadBuffer \<Rightarrow> (u32 \<times> CReadBuffer) option" where
  "read_int32 rb = rb_read_num 4 rb"

definition read_int64 :: "CReadBuffer \<Rightarrow> (u64 \<times> CReadBuffer) option" where
  "read_int64 rb = rb_read_num 8 rb"

definition read_float32 :: "CReadBuffer \<Rightarrow> (u32 \<times> CReadBuffer) option" where
  "read_float32 rb = rb_read_num 4 rb"

definition read_float64 :: "CReadBuffer \<Rightarrow> (u64 \<times> CReadBuffer) option" where
  "read_float64 rb = rb_read_num 8 rb"

text \<open>\<open>operator >> (std::string&)\<close>: \<open>str\<close> is the value the variable had before.\<close>

definition read_string :: "bytes \<Rightarrow> CReadBuffer \<Rightarrow> (bytes \<times> CReadBuffer) option" where
  "read_string str rb =
    (case read_uint32 rb of
       None \<Rightarrow> None
     | Some (u4Len, rb') \<Rightarrow>
         if u4Len \<noteq> 0 \<and> rb_left rb' \<ge> u4Len
         then case rb_fetch (unat u4Len) rb' of
                None \<Rightarrow> None
              | Some bs \<Rightarrow> Some (bs, rb_advance u4Len rb')
         else Some (str, rb'))"

text \<open>\<open>read_data\<close>: the result is the destination array \<open>data\<close> after the copy.\<close>

definition read_data :: "bytes \<Rightarrow> u32 \<Rightarrow> u32 \<Rightarrow> CReadBuffer \<Rightarrow> (bytes \<times> CReadBuffer) option" where
  "read_data data sz len rb =
    (if sz < len then Some (data, rb)
     else let len' = (if len > rb_left rb then rb_left rb else len) in
       case rb_fetch (unat len') rb of
         None \<Rightarrow> None
       | Some bs \<Rightarrow> Some (blit 0 bs data, rb_advance len' rb))"

text \<open>
  \<open>read_data_to_string\<close>: \<open>length\<close> is a signed \<open>int\<close>.  \<open>std::string::append\<close> of a
  negative count (converted to \<open>size_t\<close>) throws; it is \<open>None\<close> as well.
\<close>

definition read_data_to_string :: "bytes \<Rightarrow> 32 word \<Rightarrow> CReadBuffer \<Rightarrow> (bytes \<times> CReadBuffer) option" where
  "read_data_to_string data len rb =
    (let len1 = (if len = - 1 then rb_left rb else len);
         len2 = (if sint len1 > sint (rb_left rb) then rb_left rb else len1) in
     if sint len2 < 0 then None
     else case rb_fetch (unat len2) rb of
         None \<Rightarrow> None
       | Some bs \<Rightarrow> Some (data @ bs, rb_advance len2 rb))"

text \<open>\<open>read_offset\<close>: the sum with a signed offset is taken in unsigned arithmetic.\<close>

definition read_offset :: "32 word \<Rightarrow> CReadBuffer \<Rightarrow> bool \<times> CReadBuffer" where
  "read_offset offset rb =
    (if sint offset \<le> sint (rb_left rb) \<and> sint offset > 0
     then (True, rb \<lparr> rb_read_ptr := rb_read_ptr rb + offset \<rparr>)
     else if sint offset < 0
     then (if rb_read_ptr rb + offset > 0
           then (True, rb \<lparr> rb_read_ptr := rb_read_ptr rb - offset \<rparr>)
           else (True, rb \<lparr> rb_read_ptr := 0 \<rparr>))
     else (False, rb))"

definition rb_set_net_sort :: "bool \<Rightarrow> CReadBuffer \<Rightarrow> CReadBuffer" where
  "rb_set_net_sort b rb = rb \<lparr> rb_is_net_sort := b \<rparr>"


subsection \<open>Definitions: the writer\<close>

record CWriteBuffer =
  wb_buffer :: bytes
  wb_write_ptr :: u32
  wb_is_net_sort :: bool

definition CWriteBuffer_ctor :: "bytes \<Rightarrow> CWriteBuffer" where
  "CWriteBuffer_ctor buf = \<lparr> wb_buffer = buf, wb_write_ptr = of_nat (length buf), wb_is_net_sort = False \<rparr>"

definition wb_append :: "bytes \<Rightarrow> CWriteBuffer \<Rightarrow> CWriteBuffer" where
  "wb_append buf wb = wb \<lparr> wb_buffer := buf, wb_write_ptr := of_nat (length buf) \<rparr>"

definition wb_write_num :: "nat \<Rightarrow> 'a::len word \<Rightarrow> CWriteBuffer \<Rightarrow> CWriteBuffer" where
  "wb_write_num n w wb = wb \<lparr> wb_buffer := wb_buffer wb @ le_bytes n w,
     wb_write_ptr := wb_write_ptr wb + of_nat n \<rparr>"

definition write_uint8 :: "u8 \<Rightarrow> CWriteBuffer \<Rightarrow> CWriteBuffer" where
  "write_uint8 w wb = wb_write_num 1 w wb"

definition write_uint16 :: "u16 \<Rightarrow> CWriteBuffer \<Rightarrow> CWriteBuffer" where
  "write_uint16 w wb = wb_write_num 2 w wb"

definition write_uint32 :: "u32 \<Rightarrow> CWriteBuffer \<Rightarrow> CWriteBuffer" where
  "write_uint32 w wb = wb_write_num 4 w wb"

definition write_uint64 :: "u64 \<Rightarrow> CWriteBuffer \<Rightarrow> CWriteBuffer" where
  "write_uint64 w wb = wb_write_num 8 w wb"

definition write_int8 :: "u8 \<Rightarrow> CWriteBuffer \<Rightarrow> CWriteBuffer" where
  "write_int8 w wb = wb_write_num 1 w wb"

definition write_int16 :: "u16 \<Rightarrow> CWriteBuffer \<Rightarrow> CWriteBuffer" where
  "write_int16 w wb = wb_write_num 2 w wb"

definition write_int32 :: "u32 \<Rightarrow> CWriteBuffer \<Rightarrow> CWriteBuffer" where
  "write_int32 w wb = wb_write_num 4 w wb"

definition write_int64 :: "u64 \<Rightarrow> CWriteBuffer \<Rightarrow> CWriteBuffer" where
  "write_int64 w wb = wb_write_num 8 w wb"

definition write_float32 :: "u32 \<Rightarrow> CWriteBuffer \<Rightarrow> CWriteBuffer" where
  "write_float32 w wb = wb_write_num 4 w wb"

definition write_float64 :: "u64 \<Rightarrow> CWriteBuffer \<Rightarrow> CWriteBuffer" where
  "write_float64 w wb = wb_write_num 8 w wb"

text \<open>\<open>operator << (std::string&)\<close>: the cursor grows by \<open>sizeof (size_t)\<close>, not by the length.\<close>

definition write_string :: "bytes \<Rightarrow> CWriteBuffer \<Rightarrow> CWriteBuffer" where
  "write_string str wb =
    (let wb' = write_uint32 (of_nat (length str)) wb in
     wb' \<lparr> wb_buffer := wb_buffer wb' @ str, wb_write_ptr := wb_write_ptr wb' + 8 \<rparr>)"

text \<open>\<open>write_data\<close> appends \<open>size\<close> bytes read from \<open>data\<close>; \<open>None\<close> is a read past the array.\<close>

definition write_data :: "bytes \<Rightarrow> u32 \<Rightarrow> CWriteBuffer \<Rightarrow> CWriteBuffer option" where
  "write_data data sz wb =
    (if unat sz \<le> length data
     then Some (wb \<lparr> wb_buffer := wb_buffer wb @ take (unat sz) data,
                     wb_write_ptr := wb_write_ptr wb + sz \<rparr>)
     else None)"

definition write_data_from_string :: "bytes \<Rightarrow> CWriteBuffer \<Rightarrow> CWriteBuffer" where
  "write_data_from_string data wb = wb \<lparr> wb_buffer := wb_buffer wb @ data,
     wb_write_ptr := wb_write_ptr wb + of_nat (length data) \<rparr>"

definition wb_set_net_sort :: "bool \<Rightarrow> CWriteBuffer \<Rightarrow> CWriteBuffer" where
  "wb_set_net_sort b wb = wb \<lparr> wb_is_net_sort := b \<rparr>"


subsection \<open>Definitions: streams of typed values\<close>

text \<open>A value of each type the operators exist for, and one write or read of it.\<close>

datatype stream_value =
    UInt8 u8 | UInt16 u16 | UInt32 u32 | UInt64 u64
  | Int8 u8 | Int16 u16 | Int32 u32 | Int64 u64
  | Float32 u32 | Float64 u64 | Str bytes

fun write_value :: "stream_value \<Rightarrow> CWriteBuffer \<Rightarrow> CWriteBuffer" where
  "write_value (UInt8 w) wb = write_uint8 w wb"
| "write_value (UInt16 w) wb = write_uint16 w wb"
| "write_value (UInt32 w) wb = write_uint32 w wb"
| "write_value (UInt64 w) wb = write_uint64 w wb"
| "write_value (Int8 w) wb = write_int8 w wb"
| "write_value (Int16 w) wb = write_int16 w wb"
| "write_value (Int32 w) wb = write_int32 w wb"
| "write_value (Int64 w) wb = write_int64 w wb"
| "write_value (Float32 w) wb = write_float32 w wb"
| "write_value (Float64 w) wb = write_float64 w wb"
| "write_value (Str s) wb = write_string s wb"

text \<open>\<open>read_value v\<close> reads into a variable of the type of \<open>v\<close>; a string variable starts empty.\<close>

fun read_value :: "stream_value \<Rightarrow> CReadBuffer \<Rightarrow> (stream_value \<times> CReadBuffer) option" where
  "read_value (UInt8 _) rb = map_option (apfst UInt8) (read_uint8 rb)"
| "read_value (UInt16 _) rb = map_option (apfst UInt16) (read_uint16 rb)"
| "read_value (UInt32 _) rb = map_option (apfst UInt32) (read_uint32 rb)"
| "read_value (UInt64 _) rb = map_option (apfst UInt64) (read_uint64 rb)"
| "read_value (Int8 _) rb = map_option (apfst Int8) (read_int8 rb)"
| "read_value (Int16 _) rb = map_option (apfst Int16) (read_int16 rb)"
| "read_value (Int32 _) rb = map_option (apfst Int32) (read_int32 rb)"
| "read_value (Int64 _) rb = map_option (apfst Int64) (read_int64 rb)"
| "read_value (Float32 _) rb = map_option (apfst Float32) (read_float32 rb)"
| "read_value (Float64 _) rb = map_option (apfst Float64) (read_float64 rb)"
| "read_value (Str _) rb = map_option (apfst Str) (read_string [] rb)"

fun read_values :: "stream_value list \<Rightarrow> CReadBuffer \<Rightarrow> (stream_value list \<times> CReadBuffer) option" where
  "read_values [] rb = Some ([], rb)"
| "read_values (v # vs) rb =
     (case read_value v rb of
        None \<Rightarrow> None
      | Some (x, rb') \<Rightarrow> map_option (apfst ((#) x)) (read_values vs rb'))"

text \<open>The wire image of a value: what the reader expects and the writer produces.\<close>

fun value_image :: "stream_value \<Rightarrow> bytes" where
  "value_image (UInt8 w) = le_bytes 1 w"
| "value_image (UInt16 w) = le_bytes 2 w"
| "value_image (UInt32 w) = le_bytes 4 w"
| "value_image (UInt64 w) = le_bytes 8 w"
| "value_image (Int8 w) = le_bytes 1 w"
| "value_image (Int16 w) = le_bytes 2 w"
| "value_image (Int32 w) = le_bytes 4 w"
| "value_image (Int64 w) = le_bytes 8 w"
| "value_image (Float32 w) = le_bytes 4 w"
| "value_image (Float64 w) = le_bytes 8 w"
| "value_image (Str s) = le_bytes 4 (of_nat (length s) :: u32) @ s"

definition rb_inv :: "CReadBuffer \<Rightarrow> bool" where
  "rb_inv rb \<longleftrightarrow> length (rb_buffer rb) < 2 ^ 32 \<and> rb_write_ptr rb = of_nat (length (rb_buffer rb))
     \<and> unat (rb_read_ptr rb) \<le> length (rb_buffer rb)"

text \<open>The bytes not read yet.\<close>

definition rb_rest :: "CReadBuffer \<Rightarrow> bytes" where
  "rb_rest rb = drop (unat (rb_read_ptr rb)) (rb_buffer rb)"


subsection \<open>The contract of a sequential codec\<close>

locale stream_codec =
  fixes image :: "'v \<Rightarrow> bytes"
    and wf :: "'v \<Rightarrow> bool"
    and wr :: "'v \<Rightarrow> 'w \<Rightarrow> 'w"
    and written :: "'w \<Rightarrow> bytes"
    and rd :: "'v \<Rightarrow> 'r \<Rightarrow> ('v \<times> 'r) option"
    and rinv :: "'r \<Rightarrow> bool"
    and rest :: "'r \<Rightarrow> bytes"
  assumes written_wr: "written (wr v w) = written w @ image v"
    and rd_image: "rinv r \<Longrightarrow> wf v \<Longrightarrow> rest r = image v @ tail \<Longrightarrow>
      \<exists>r'. rd v r = Some (v, r') \<and> rinv r' \<and> rest r' = tail"
begin

lemma written_fold: "written (fold wr vs w) = written w @ concat (map image vs)"
  by (induction vs arbitrary: w) (simp_all add: written_wr)

primrec rds :: "'v list \<Rightarrow> 'r \<Rightarrow> ('v list \<times> 'r) option" where
  "rds [] r = Some ([], r)"
| "rds (v # vs) r = (case rd v r of None \<Rightarrow> None
     | Some (x, r') \<Rightarrow> map_option (apfst ((#) x)) (rds vs r'))"

lemma rds_images:
  assumes "rinv r" "\<forall>v \<in> set vs. wf v" "rest r = concat (map image vs) @ tail"
  shows "\<exists>r'. rds vs r = Some (vs, r') \<and> rinv r' \<and> rest r' = tail"
  using assms
proof (induction vs arbitrary: r)
  case Nil
  thus ?case by simp
next
  case (Cons v vs)
  hence "rest r = image v @ concat (map image vs) @ tail" by simp
  with Cons.prems obtain r1 where r1: "rd v r = Some (v, r1)" "rinv r1"
    "rest r1 = concat (map image vs) @ tail"
    using rd_image [of r v] by force
  with Cons.IH [of r1] Cons.prems obtain r2 where "rds vs r1 = Some (vs, r2)" "rinv r2" "rest r2 = tail"
    by auto
  with r1 show ?case by auto
qed

end


subsection \<open>The reader\<close>

lemma rb_inv_ctor [simp]: "length buf < 2 ^ 32 \<Longrightarrow> rb_inv (CReadBuffer_ctor buf)"
  by (simp add: rb_inv_def CReadBuffer_ctor_def)

lemma rb_rest_ctor [simp]: "rb_rest (CReadBuffer_ctor buf) = buf"
  by (simp add: rb_rest_def CReadBuffer_ctor_def)

lemma unat_rb_left: "rb_inv rb \<Longrightarrow> unat (rb_left rb) = length (rb_rest rb)"
proof -
  assume inv: "rb_inv rb"
  hence "unat (rb_write_ptr rb) = length (rb_buffer rb)"
    by (simp add: rb_inv_def unat_of_nat)
  moreover from this inv have "rb_read_ptr rb \<le> rb_write_ptr rb"
    by (simp add: rb_inv_def word_le_nat_alt)
  ultimately show ?thesis
    by (simp add: rb_left_def rb_rest_def unat_sub)
qed

lemma rb_fetch_rest:
  "n \<le> length (rb_rest rb) \<Longrightarrow> unat (rb_read_ptr rb) \<le> length (rb_buffer rb) \<Longrightarrow>
   rb_fetch n rb = Some (take n (rb_rest rb))"
  by (auto simp: rb_fetch_def rb_rest_def mem_slice_def Let_def)

lemma rb_advance_rest:
  assumes "rb_inv rb" "unat n \<le> length (rb_rest rb)"
  shows "rb_inv (rb_advance n rb)" "rb_rest (rb_advance n rb) = drop (unat n) (rb_rest rb)"
proof -
  from assms have le: "unat (rb_read_ptr rb) + unat n \<le> length (rb_buffer rb)"
    by (auto simp: rb_inv_def rb_rest_def)
  with assms have "unat (rb_read_ptr rb + n) = unat (rb_read_ptr rb) + unat n"
    by (simp add: rb_inv_def unat_word_ariths)
  with assms le show "rb_inv (rb_advance n rb)" "rb_rest (rb_advance n rb) = drop (unat n) (rb_rest rb)"
    by (simp_all add: rb_inv_def rb_advance_def rb_rest_def add.commute)
qed

lemma rb_read_num_spec:
  assumes "rb_inv rb" "n < 2 ^ 32"
  shows "rb_read_num n rb =
    (if n \<le> length (rb_rest rb) then Some (le_word (take n (rb_rest rb)), rb_advance (of_nat n) rb)
     else Some (0, rb))"
proof -
  from assms have "rb_left rb \<ge> of_nat n \<longleftrightarrow> n \<le> length (rb_rest rb)"
    by (simp add: word_le_nat_alt unat_rb_left unat_of_nat)
  with assms show ?thesis by (simp add: rb_read_num_def rb_fetch_rest rb_inv_def)
qed

lemma rb_read_num_image:
  assumes "rb_inv rb" "rb_rest rb = le_bytes n (w :: 'a::len word) @ tail" "LENGTH('a) \<le> 8 * n" "n < 2 ^ 32"
  shows "\<exists>rb'. rb_read_num n rb = Some (w, rb') \<and> rb_inv rb' \<and> rb_rest rb' = tail"
  using assms rb_advance_rest [OF assms(1), of "of_nat n"]
  by (simp add: rb_read_num_spec le_word_le_bytes unat_of_nat)

lemma read_num_map:
  assumes "rb_inv rb" "rb_rest rb = le_bytes n (w :: 'a::len word) @ tail" "LENGTH('a) \<le> 8 * n" "n < 2 ^ 32"
  shows "\<exists>rb'. map_option (apfst C) (rb_read_num n rb) = Some (C w, rb') \<and> rb_inv rb' \<and> rb_rest rb' = tail"
  using rb_read_num_image [OF assms] by auto

lemmas read_num_defs = read_uint8_def read_uint16_def read_uint32_def read_uint64_def
  read_int8_def read_int16_def read_int32_def read_int64_def read_float32_def read_float64_def

lemmas write_num_defs = write_uint8_def write_uint16_def write_uint32_def write_uint64_def
  write_int8_def write_int16_def write_int32_def write_int64_def write_float32_def write_float64_def

lemma read_string_image:
  assumes "rb_inv rb" "rb_rest rb = le_bytes 4 (of_nat (length s) :: u32) @ s @ tail" "length s < 2 ^ 32"
  shows "\<exists>rb'. read_string str rb = Some (if s = [] then str else s, rb') \<and> rb_inv rb' \<and> rb_rest rb' = tail"
proof -
  obtain rb1 where rb1: "read_uint32 rb = Some (of_nat (length s), rb1)" "rb_inv rb1" "rb_rest rb1 = s @ tail"
    using rb_read_num_image [OF assms(1,2)] by (auto simp: read_uint32_def)
  have len: "unat (of_nat (length s) :: u32) = length s" using assms(3) by (simp add: unat_of_nat)
  hence zero: "(of_nat (length s) :: u32) \<noteq> 0 \<longleftrightarrow> s \<noteq> []"
    by (metis length_0_conv unat_eq_zero)
  have "rb_left rb1 \<ge> of_nat (length s)" using rb1 len by (simp add: word_le_nat_alt unat_rb_left)
  moreover have "rb_fetch (length s) rb1 = Some s"
    using rb1 by (simp add: rb_fetch_rest rb_inv_def)
  ultimately show ?thesis
    using rb1 len zero rb_advance_rest [OF rb1(2), of "of_nat (length s)"]
    by (auto simp: read_string_def)
qed

lemma read_value_image:
  assumes "rb_inv rb" "length (value_image v) < 2 ^ 32" "rb_rest rb = value_image v @ tail"
  shows "\<exists>rb'. read_value v rb = Some (v, rb') \<and> rb_inv rb' \<and> rb_rest rb' = tail"
proof (cases v)
  case (Str s)
  with assms read_string_image [OF assms(1), of s tail "[]"] show ?thesis
    by (auto split: if_splits)
qed (simp only: read_value.simps read_num_defs, (rule read_num_map; use assms in simp))+

lemma written_write_value: "wb_buffer (write_value v wb) = wb_buffer wb @ value_image v"
  by (cases v) (simp_all add: write_num_defs wb_write_num_def write_string_def)

interpretation stream: stream_codec value_image "\<lambda>v. length (value_image v) < 2 ^ 32"
  write_value wb_buffer read_value rb_inv rb_rest
  by unfold_locales (auto simp: written_write_value dest: read_value_image)

lemma read_values_rds: "read_values vs rb = stream.rds vs rb"
  by (induction vs arbitrary: rb) (simp_all split: option.splits)


subsection \<open>Reading arbitrary bytes\<close>

lemma rb_read_num_safe:
  assumes "rb_inv rb" "n < 2 ^ 32"
  shows "\<exists>x rb'. rb_read_num n rb = Some (x :: 'a::len word, rb') \<and> rb_inv rb' \<and>
           suffix (rb_rest rb') (rb_rest rb)"
  using assms rb_advance_rest [OF assms(1), of "of_nat n"]
  by (simp add: rb_read_num_spec unat_of_nat suffix_drop)

lemma read_num_map_safe:
  assumes "rb_inv rb" "n < 2 ^ 32"
  shows "\<exists>x rb'. map_option (apfst C) (rb_read_num n rb :: ('a::len word \<times> CReadBuffer) option) = Some (x, rb')
           \<and> rb_inv rb' \<and> suffix (rb_rest rb') (rb_rest rb)"
  using rb_read_num_safe [OF assms, where ?'a = 'a] by auto

lemma read_string_safe:
  assumes "rb_inv rb"
  shows "\<exists>x rb'. read_string str rb = Some (x, rb') \<and> rb_inv rb' \<and> suffix (rb_rest rb') (rb_rest rb)"
proof -
  obtain l rb1 where rb1: "read_uint32 rb = Some (l, rb1)" "rb_inv rb1" "suffix (rb_rest rb1) (rb_rest rb)"
    using rb_read_num_safe [OF assms, of 4, where ?'a = 32] by (auto simp: read_uint32_def)
  show ?thesis
  proof (cases "l \<noteq> 0 \<and> l \<le> rb_left rb1")
    case True
    hence le: "unat l \<le> length (rb_rest rb1)"
      using rb1 by (simp add: word_le_nat_alt unat_rb_left)
    with rb1 have "rb_fetch (unat l) rb1 = Some (take (unat l) (rb_rest rb1))"
      by (simp add: rb_fetch_rest rb_inv_def)
    with True rb1 le rb_advance_rest [OF rb1(2) le] show ?thesis
      by (auto simp: read_string_def intro: suffix_order.trans suffix_drop)
  next
    case False
    with rb1 show ?thesis by (auto simp: read_string_def)
  qed
qed

lemma read_value_safe:
  assumes "rb_inv rb"
  shows "\<exists>x rb'. read_value v rb = Some (x, rb') \<and> rb_inv rb' \<and> suffix (rb_rest rb') (rb_rest rb)"
proof (cases v)
  case (Str s)
  with read_string_safe [OF assms, of "[]"] show ?thesis by auto
qed (simp only: read_value.simps read_num_defs, (rule read_num_map_safe; use assms in simp))+

lemma read_values_safe:
  assumes "rb_inv rb"
  shows "\<exists>xs rb'. read_values vs rb = Some (xs, rb') \<and> rb_inv rb' \<and> length xs = length vs \<and>
           suffix (rb_rest rb') (rb_rest rb)"
  using assms
proof (induction vs arbitrary: rb)
  case (Cons v vs)
  obtain x rb1 where 1: "read_value v rb = Some (x, rb1)" "rb_inv rb1" "suffix (rb_rest rb1) (rb_rest rb)"
    using read_value_safe [OF Cons.prems] by blast
  obtain xs rb2 where 2: "read_values vs rb1 = Some (xs, rb2)" "rb_inv rb2" "length xs = length vs"
    "suffix (rb_rest rb2) (rb_rest rb1)"
    using Cons.IH [OF 1(2)] by blast
  from 1 2 show ?case by (auto intro: suffix_order.trans)
qed simp


subsection \<open>Properties\<close>

text \<open>
  C5.  Whatever sequence of integers, floats and strings is streamed into an
  empty \<open>CWriteBuffer\<close>, a \<open>CReadBuffer\<close> on the result reads back exactly these
  values in order and ends at the end of the data, as long as the data fits the
  32-bit cursors.
\<close>

theorem stream_roundtrip:
  assumes "length (concat (map value_image vs)) < 2 ^ 32"
  shows "\<exists>rb. read_values vs (CReadBuffer_ctor (wb_buffer (fold write_value vs (CWriteBuffer_ctor []))))
           = Some (vs, rb) \<and> rb_rest rb = []"
proof -
  let ?buf = "wb_buffer (fold write_value vs (CWriteBuffer_ctor []))"
  have buf: "?buf = concat (map value_image vs)"
    by (simp add: stream.written_fold CWriteBuffer_ctor_def)
  have "length (value_image v) \<le> length (concat (map value_image vs))" if "v \<in> set vs" for v
    using that by (induction vs) auto
  with assms have "\<forall>v \<in> set vs. length (value_image v) < 2 ^ 32" by fastforce
  with assms buf show ?thesis
    using stream.rds_images [of "CReadBuffer_ctor ?buf" vs "[]"] by (auto simp: read_values_rds)
qed

theorem stream_roundtrip_witness:
  "length (concat (map value_image [UInt16 513, Str [7, 8, 9], Int64 (- 1)])) < 2 ^ 32 \<and>
   (\<exists>rb. read_values [UInt16 513, Str [7, 8, 9], Int64 (- 1)]
       (CReadBuffer_ctor (wb_buffer (fold write_value [UInt16 513, Str [7, 8, 9], Int64 (- 1)] (CWriteBuffer_ctor []))))
     = Some ([UInt16 513, Str [7, 8, 9], Int64 (- 1)], rb))"
  using stream_roundtrip [of "[UInt16 513, Str [7, 8, 9], Int64 (- 1)]"] by auto

text \<open>
  C37.  Memory safety of the reader on arbitrary, also malformed, input: reading
  any sequence of values from a well-formed \<open>CReadBuffer\<close> never touches memory
  outside the string, returns one value per read and only moves forward.
\<close>

theorem reader_memory_safe:
  assumes "rb_inv rb"
  shows "\<exists>xs rb'. read_values vs rb = Some (xs, rb') \<and> rb_inv rb' \<and> length xs = length vs \<and>
           suffix (rb_rest rb') (rb_rest rb)"
  using assms by (rule read_values_safe)

theorem reader_memory_safe_witness:
  "rb_inv (CReadBuffer_ctor [255, 255, 255, 255, 1]) \<and>
   (\<exists>xs rb'. read_values [Str [], UInt32 0] (CReadBuffer_ctor [255, 255, 255, 255, 1]) = Some (xs, rb') \<and>
      length xs = 2)"
  using reader_memory_safe [of "CReadBuffer_ctor [255, 255, 255, 255, 1]" "[Str [], UInt32 0]"] by auto

text \<open>
  \<open>read_offset\<close> with a negative offset does not step back: unless the
  cursor stands at exactly the distance asked for, it moves forward by that
  distance, even beyond the end of the data.
\<close>

theorem read_offset_negative_moves_forward:
  assumes "sint offset < 0" "rb_read_ptr rb + offset \<noteq> 0"
  shows "read_offset offset rb = (True, rb \<lparr> rb_read_ptr := rb_read_ptr rb + (- offset) \<rparr>)"
  using assms by (simp add: read_offset_def word_gt_0)

theorem read_offset_negative_moves_forward_witness:
  "read_offset (- 2) ((CReadBuffer_ctor [1, 2, 3, 4]) \<lparr> rb_read_ptr := 3 \<rparr>)
   = (True, (CReadBuffer_ctor [1, 2, 3, 4]) \<lparr> rb_read_ptr := 5 \<rparr>)"
  using read_offset_negative_moves_forward
    [of "- 2" "(CReadBuffer_ctor [1, 2, 3, 4]) \<lparr> rb_read_ptr := 3 \<rparr>"]
  by (simp add: CReadBuffer_ctor_def)

end
