(* ===== verification/Frame_Types.thy ===== *)
theory Frame_Types
  imports Prelude "HOL-Library.List_Lexorder" "HOL-Library.Char_ord"
begin

text \<open>
  The enumerations, message and address structures every component exchanges,
  the reserved command numbers, and \<open>string_split\<close>.  Addresses are ordered by
  \<open>_ClientIPInfo::operator <\<close>, the key order of the maps of the UDP servers; the
  \<open>linorder\<close> instance shows it is a strict weak (indeed total) order.
\<close>


section \<open>The data types of the framework (Common/define.h)\<close>


subsection \<open>Definitions\<close>

datatype ENUM_IO_BRIDGE_TYPE = IO_BRIDGE_BATH | IO_BRIDGE_FROM | IO_BRIDGE_TO | IO_BRIDGE_NONE

datatype ENUM_WHILE_STATE = WHILE_STATE_CONTINUE | WHILE_STATE_BREAK

datatype EM_CONNECT_IO_TYPE =
    CONNECT_IO_TCP | CONNECT_IO_UDP | CONNECT_IO_KCP | CONNECT_IO_TTY | CONNECT_IO_SSL
  | CONNECT_IO_SERVER_TCP | CONNECT_IO_SERVER_UDP | CONNECT_IO_FRAME | COMMAND_UPDATE
  | WORKTHREAD_CLOSE

datatype EM_NET_TYPE = NET_TYPE_POINT_TO_POINT | NET_TYPE_BROADCAST

datatype EM_SESSION_STATE = SESSION_IO_LOGIC | SESSION_IO_BRIDGE

record CConfigNetIO =
  io_ip :: string
  io_port :: u16
  io_protocol_type :: EM_CONNECT_IO_TYPE
  io_packet_parse_id :: u32
  io_recv_buff_size :: u32
  io_send_buff_size :: u32
  io_ssl_server_password :: string
  io_ssl_server_pem_file :: string
  io_ssl_dh_pem_file :: string
  io_em_net_type :: EM_NET_TYPE

datatype ClientIPInfo = ClientIPInfo (m_strClientIP: string) (m_u2Port: u16)

definition ClientIPInfo_default :: ClientIPInfo where
  "ClientIPInfo_default = ClientIPInfo ''unset ip'' 0"

definition ip_equal :: "ClientIPInfo \<Rightarrow> ClientIPInfo \<Rightarrow> bool" where
  "ip_equal a b \<longleftrightarrow> m_strClientIP a = m_strClientIP b \<and> m_u2Port a = m_u2Port b"

definition ip_less :: "ClientIPInfo \<Rightarrow> ClientIPInfo \<Rightarrow> bool" where
  "ip_less a b =
    (if m_strClientIP a < m_strClientIP b then True
     else if m_strClientIP a > m_strClientIP b then False
     else if m_u2Port a < m_u2Port b then True
     else False)"

definition ip_greater :: "ClientIPInfo \<Rightarrow> ClientIPInfo \<Rightarrow> bool" where
  "ip_greater a b =
    (if m_strClientIP a > m_strClientIP b then True
     else if m_strClientIP a < m_strClientIP b then False
     else if m_u2Port a > m_u2Port b then True
     else False)"

record CMessage_Source =
  src_work_thread_id :: u16
  src_connect_id :: u32
  src_connect_mark_id :: u32
  src_type :: EM_CONNECT_IO_TYPE
  src_local_ip :: ClientIPInfo
  src_remote_ip :: ClientIPInfo

definition CMessage_Source_default :: CMessage_Source where
  "CMessage_Source_default = \<lparr> src_work_thread_id = 0, src_connect_id = 0, src_connect_mark_id = 0,
     src_type = CONNECT_IO_SERVER_TCP, src_local_ip = ClientIPInfo_default,
     src_remote_ip = ClientIPInfo_default \<rparr>"

record CMessage_Packet =
  msg_param_arg :: "string list"
  msg_buffer :: bytes
  msg_command_id :: u16

record CFrame_Message_Delay =
  delay_seconds :: nat
  delay_timer_id :: u64

record CConnect_IO_Info =
  ci_server_id :: u32
  ci_server_ip :: string
  ci_server_port :: u16
  ci_client_ip :: string
  ci_client_port :: u16
  ci_packet_parse_id :: u32
  ci_recv_size :: u32
  ci_send_size :: u32
  ci_client_pem_file :: string
  ci_is_need_reconnect :: bool

definition CConnect_IO_Info_default :: CConnect_IO_Info where
  "CConnect_IO_Info_default = \<lparr> ci_server_id = 0, ci_server_ip = [], ci_server_port = 0,
     ci_client_ip = [], ci_client_port = 0, ci_packet_parse_id = 1, ci_recv_size = 1024,
     ci_send_size = 1024, ci_client_pem_file = [], ci_is_need_reconnect = False \<rparr>"

definition LOGIC_COMMAND_CONNECT :: u16 where "LOGIC_COMMAND_CONNECT = 0x0001"
definition LOGIC_COMMAND_DISCONNECT :: u16 where "LOGIC_COMMAND_DISCONNECT = 0x0002"
definition LOGIC_CONNECT_SERVER_ERROR :: u16 where "LOGIC_CONNECT_SERVER_ERROR = 0x0003"
definition LOGIC_LISTEN_SERVER_ERROR :: u16 where "LOGIC_LISTEN_SERVER_ERROR = 0x0004"
definition LOGIC_THREAD_DEAD_LOCK :: u16 where "LOGIC_THREAD_DEAD_LOCK = 0x0005"
definition LOGIC_THREAD_WRITE_IO_ERROR :: u16 where "LOGIC_THREAD_WRITE_IO_ERROR = 0x0006"
definition LOGIC_IOTOIO_CONNECT_NO_EXIST :: u16 where "LOGIC_IOTOIO_CONNECT_NO_EXIST = 0x0007"
definition LOGIC_IOTOIO_DATA_ERROR :: u16 where "LOGIC_IOTOIO_DATA_ERROR = 0x0008"
definition LOGIC_MAX_FRAME_COMMAND :: u16 where "LOGIC_MAX_FRAME_COMMAND = 0x0010"

lemmas logic_command_defs = LOGIC_COMMAND_CONNECT_def LOGIC_COMMAND_DISCONNECT_def
  LOGIC_CONNECT_SERVER_ERROR_def LOGIC_LISTEN_SERVER_ERROR_def LOGIC_THREAD_DEAD_LOCK_def
  LOGIC_THREAD_WRITE_IO_ERROR_def LOGIC_IOTOIO_CONNECT_NO_EXIST_def LOGIC_IOTOIO_DATA_ERROR_def
  LOGIC_MAX_FRAME_COMMAND_def

text \<open>\<open>std::string::find\<close>: the first position where \<open>pat\<close> occurs, also for an empty \<open>pat\<close>.\<close>

fun is_prefix :: "string \<Rightarrow> string \<Rightarrow> bool" where
  "is_prefix [] ys = True"
| "is_prefix (x # xs) [] = False"
| "is_prefix (x # xs) (y # ys) = (x = y \<and> is_prefix xs ys)"

fun str_find :: "string \<Rightarrow> string \<Rightarrow> nat option" where
  "str_find pat [] = (if pat = [] then Some 0 else None)"
| "str_find pat (y # ys) =
     (if is_prefix pat (y # ys) then Some 0 else map_option Suc (str_find pat ys))"

text \<open>
  \<open>string_split\<close>: after a hit at \<open>nPos\<close> the loop goes on at \<open>nPos + 1\<close>, whatever
  the length of the delimiter; \<open>delim.c_str()\<close> ends at the first NUL.
  \<open>std::string::substr\<close> beyond the end throws: \<open>None\<close>.
\<close>

function string_split_loop :: "string \<Rightarrow> string \<Rightarrow> string list \<Rightarrow> string list option" where
  "string_split_loop delim strtmp vec =
    (case str_find delim strtmp of
       None \<Rightarrow> Some (vec @ [strtmp])
     | Some nPos \<Rightarrow>
         if nPos + 1 \<le> length strtmp
         then string_split_loop delim (drop (nPos + 1) strtmp) (vec @ [take nPos strtmp])
         else None)"
  by pat_completeness auto
termination by (relation "measure (\<lambda>(_, s, _). length s)") auto

declare string_split_loop.simps [simp del]

definition string_split :: "string \<Rightarrow> string \<Rightarrow> string list option" where
  "string_split srcStr delim = string_split_loop (takeWhile (\<lambda>c. c \<noteq> CHR 0x00) delim) srcStr []"

text \<open>The text that pieces separated by \<open>c\<close> came from.\<close>

fun join_with :: "char \<Rightarrow> string list \<Rightarrow> string" where
  "join_with c [] = []"
| "join_with c [x] = x"
| "join_with c (x # y # xs) = x @ c # join_with c (y # xs)"


subsection \<open>Addresses are linearly ordered\<close>

instantiation ClientIPInfo :: linorder
begin

definition less_ClientIPInfo_def: "a < b = ip_less a b" for a b :: ClientIPInfo

definition less_eq_ClientIPInfo_def: "a \<le> b = (ip_less a b \<or> a = b)" for a b :: ClientIPInfo

instance
proof
  fix a b c :: ClientIPInfo
  show "(a < b) = (a \<le> b \<and> \<not> b \<le> a)"
    by (cases a; cases b) (auto simp: less_ClientIPInfo_def less_eq_ClientIPInfo_def ip_less_def)
  show "a \<le> a" by (simp add: less_eq_ClientIPInfo_def)
  show "a \<le> b \<Longrightarrow> b \<le> c \<Longrightarrow> a \<le> c"
    by (cases a; cases b; cases c) (auto simp: less_eq_ClientIPInfo_def ip_less_def split: if_splits)
  show "a \<le> b \<Longrightarrow> b \<le> a \<Longrightarrow> a = b"
    by (cases a; cases b) (auto simp: less_eq_ClientIPInfo_def ip_less_def split: if_splits)
  show "a \<le> b \<or> b \<le> a"
    by (cases a; cases b) (auto simp: less_eq_ClientIPInfo_def ip_less_def)
qed

end

lemma ip_equal_eq [simp]: "ip_equal a b \<longleftrightarrow> a = b"
  by (cases a; cases b) (simp add: ip_equal_def)


subsection \<open>Splitting\<close>

lemma str_find_char:
  "str_find [c] s = (if c \<in> set s then Some (length (takeWhile (\<lambda>x. x \<noteq> c) s)) else None)"
  by (induction s) auto

lemma string_split_loop_char:
  "\<exists>ys. string_split_loop [c] s vec = Some (vec @ ys) \<and> ys \<noteq> [] \<and> join_with c ys = s \<and>
     (\<forall>y \<in> set ys. c \<notin> set y)"
proof (induction "length s" arbitrary: s vec rule: less_induct)
  case less
  show ?case
  proof (cases "c \<in> set s")
    case False
    thus ?thesis by (subst string_split_loop.simps) (simp add: str_find_char)
  next
    case True
    let ?n = "length (takeWhile (\<lambda>x. x \<noteq> c) s)"
    from True obtain pre post where s: "s = pre @ c # post" "c \<notin> set pre"
      by (meson split_list_first)
    hence n: "takeWhile (\<lambda>x. x \<noteq> c) s = pre" by (auto simp: takeWhile_tail)
    obtain ys where ys: "string_split_loop [c] post (vec @ [pre]) = Some ((vec @ [pre]) @ ys)"
      "ys \<noteq> []" "join_with c ys = post" "\<forall>y \<in> set ys. c \<notin> set y"
      using less [of post "vec @ [pre]"] s by auto
    have "string_split_loop [c] s vec = Some (vec @ pre # ys)"
      using ys(1) s n by (subst string_split_loop.simps) (simp add: str_find_char)
    moreover have "join_with c (pre # ys) = s" using ys s by (cases ys) auto
    ultimately show ?thesis using ys s(2) by (intro exI [of _ "pre # ys"]) auto
  qed
qed


subsection \<open>Properties\<close>

text \<open>
  Splitting at a one-character delimiter loses nothing: \<open>string_split\<close>
  always returns, no piece contains the delimiter, and joining the pieces with it
  gives the original text back.
\<close>

theorem string_split_join:
  assumes "c \<noteq> CHR 0x00"
  shows "\<exists>ys. string_split s [c] = Some ys \<and> join_with c ys = s \<and> (\<forall>y \<in> set ys. c \<notin> set y)"
  using assms string_split_loop_char [of c s "[]"] by (auto simp: string_split_def)

theorem string_split_join_witness:
  "\<exists>ys. string_split ''a,b,,c'' '','' = Some ys \<and> join_with CHR '','' ys = ''a,b,,c''"
  using string_split_join [of "CHR '',''" "''a,b,,c''"] by auto

text \<open>
  A longer delimiter is not removed: splitting at a two-character delimiter
  leaves its second character at the head of the next piece.
\<close>

theorem string_split_keeps_delimiter_tail:
  "string_split ''key::value'' ''::'' = Some [''key'', '':value'']"
  by code_simp

end
