(* ===== verification/Message_Queue.thy ===== *)
theory Message_Queue
  imports Prelude "HOL-Library.Multiset"
begin

text \<open>
  \<open>CMessageQueue\<close> is the mailbox of every work thread and of every task of the
  timer service.  Its methods run under \<open>_mutex\<close>, so an execution of several
  threads is a sequence of the atomic steps below.  Besides the \<open>std::queue\<close> the
  state counts the consumers blocked in \<open>_condition.wait\<close> and those that were
  woken and have to take the mutex again; \<open>notify_one\<close> moves one from the first
  group to the second, and so may a spurious wake-up.

  The locale \<open>fifo_channel\<close> is the contract the threads rely on.
\<close>


section \<open>The blocking message queue (Common/ThreadQueue.h)\<close>


subsection \<open>Definitions\<close>

record 'm CMessageQueue =
  mq_queue :: "'m list"
  mq_waiting :: nat
  mq_woken :: nat

definition mq_empty :: "'m CMessageQueue" where
  "mq_empty = \<lparr> mq_queue = [], mq_waiting = 0, mq_woken = 0 \<rparr>"

definition notify_one :: "'m CMessageQueue \<Rightarrow> 'm CMessageQueue" where
  "notify_one q =
    (if mq_waiting q > 0 then q \<lparr> mq_waiting := mq_waiting q - 1, mq_woken := mq_woken q + 1 \<rparr> else q)"

definition Push :: "'m \<Rightarrow> 'm CMessageQueue \<Rightarrow> 'm CMessageQueue" where
  "Push msg q = notify_one (q \<lparr> mq_queue := mq_queue q @ [msg] \<rparr>)"

text \<open>
  The front is moved out.  \<open>Pop\<close> in blocking mode either takes it or goes to sleep
  (\<open>None\<close>); it tests the queue again after every wake-up.
\<close>

definition take_front :: "'m CMessageQueue \<Rightarrow> ('m \<times> 'm CMessageQueue) option" where
  "take_front q = (case mq_queue q of [] \<Rightarrow> None | m # ms \<Rightarrow> Some (m, q \<lparr> mq_queue := ms \<rparr>))"

definition Pop_blocked :: "'m CMessageQueue \<Rightarrow> 'm option \<times> 'm CMessageQueue" where
  "Pop_blocked q =
    (case take_front q of
       Some (m, q') \<Rightarrow> (Some m, q')
     | None \<Rightarrow> (None, q \<lparr> mq_waiting := mq_waiting q + 1 \<rparr>))"

definition Pop_resume :: "'m CMessageQueue \<Rightarrow> 'm option \<times> 'm CMessageQueue" where
  "Pop_resume q = Pop_blocked (q \<lparr> mq_woken := mq_woken q - 1 \<rparr>)"

definition Pop_nonblocked :: "'m CMessageQueue \<Rightarrow> 'm option \<times> 'm CMessageQueue" where
  "Pop_nonblocked q =
    (case take_front q of Some (m, q') \<Rightarrow> (Some m, q') | None \<Rightarrow> (None, q))"

text \<open>\<open>Size\<close> narrows the count to \<open>int32_t\<close>.\<close>

definition Size :: "'m CMessageQueue \<Rightarrow> int" where
  "Size q = sint (of_nat (length (mq_queue q)) :: u32)"

definition Empty :: "'m CMessageQueue \<Rightarrow> bool" where
  "Empty q \<longleftrightarrow> mq_queue q = []"

text \<open>The atomic steps of producers and consumers, labelled by what they exchange.\<close>

datatype 'm mq_event = Pushed 'm | Popped 'm | Silent

inductive mq_step :: "'m CMessageQueue \<Rightarrow> 'm mq_event \<Rightarrow> 'm CMessageQueue \<Rightarrow> bool" where
  step_push: "mq_step q (Pushed m) (Push m q)"
| step_pop: "Pop_blocked q = (Some m, q') \<Longrightarrow> mq_step q (Popped m) q'"
| step_sleep: "Pop_blocked q = (None, q') \<Longrightarrow> mq_step q Silent q'"
| step_resume: "mq_woken q > 0 \<Longrightarrow> Pop_resume q = (Some m, q') \<Longrightarrow> mq_step q (Popped m) q'"
| step_resume_sleep: "mq_woken q > 0 \<Longrightarrow> Pop_resume q = (None, q') \<Longrightarrow> mq_step q Silent q'"
| step_poll: "Pop_nonblocked q = (Some m, q') \<Longrightarrow> mq_step q (Popped m) q'"
| step_poll_empty: "Pop_nonblocked q = (None, q') \<Longrightarrow> mq_step q Silent q'"
| step_spurious: "mq_waiting q > 0 \<Longrightarrow>
    mq_step q Silent (q \<lparr> mq_waiting := mq_waiting q - 1, mq_woken := mq_woken q + 1 \<rparr>)"

inductive mq_run :: "'m CMessageQueue \<Rightarrow> 'm mq_event list \<Rightarrow> 'm CMessageQueue \<Rightarrow> bool" where
  run_refl: "mq_run q [] q"
| run_step: "mq_run q es q' \<Longrightarrow> mq_step q' e q'' \<Longrightarrow> mq_run q (es @ [e]) q''"

fun pushed_of :: "'m mq_event list \<Rightarrow> 'm list" where
  "pushed_of [] = []"
| "pushed_of (Pushed m # es) = m # pushed_of es"
| "pushed_of (_ # es) = pushed_of es"

fun popped_of :: "'m mq_event list \<Rightarrow> 'm list" where
  "popped_of [] = []"
| "popped_of (Popped m # es) = m # popped_of es"
| "popped_of (_ # es) = popped_of es"

text \<open>A consumer sleeps only while the woken consumers suffice for the queued messages.\<close>

definition mq_inv :: "'m CMessageQueue \<Rightarrow> bool" where
  "mq_inv q \<longleftrightarrow> (mq_waiting q > 0 \<longrightarrow> length (mq_queue q) \<le> mq_woken q)"


subsection \<open>The contract of a channel\<close>

locale fifo_channel =
  fixes trans :: "'s \<Rightarrow> 'm mq_event \<Rightarrow> 's \<Rightarrow> bool"
    and msgs :: "'s \<Rightarrow> 'm list"
  assumes trans_pushed: "trans s (Pushed m) s' \<Longrightarrow> msgs s' = msgs s @ [m]"
    and trans_popped: "trans s (Popped m) s' \<Longrightarrow> msgs s = m # msgs s'"
    and trans_silent: "trans s Silent s' \<Longrightarrow> msgs s' = msgs s"
begin

inductive run :: "'s \<Rightarrow> 'm mq_event list \<Rightarrow> 's \<Rightarrow> bool" where
  refl: "run s [] s"
| step: "run s es s' \<Longrightarrow> trans s' e s'' \<Longrightarrow> run s (es @ [e]) s''"

lemma pushed_snoc: "pushed_of (es @ [e]) = pushed_of es @ pushed_of [e]"
  by (induction es rule: pushed_of.induct) auto

lemma popped_snoc: "popped_of (es @ [e]) = popped_of es @ popped_of [e]"
  by (induction es rule: popped_of.induct) auto

lemma run_fifo: "run s es s' \<Longrightarrow> msgs s @ pushed_of es = popped_of es @ msgs s'"
proof (induction rule: run.induct)
  case (refl s)
  show ?case by simp
next
  case (step s es s' e s'')
  from step.hyps(2) show ?case
    using step.IH
    by (cases e) (auto simp: pushed_snoc popped_snoc dest: trans_pushed trans_popped trans_silent)
qed

lemma run_multiset: "run s es s' \<Longrightarrow> mset (msgs s) + mset (pushed_of es) = mset (popped_of es) + mset (msgs s')"
  by (drule run_fifo) (metis mset_append)

end


subsection \<open>The queue is such a channel\<close>

lemmas mq_defs = Push_def notify_one_def take_front_def Pop_blocked_def Pop_resume_def Pop_nonblocked_def

inductive_cases mq_step_PushedE: "mq_step q (Pushed m) q'"
inductive_cases mq_step_PoppedE: "mq_step q (Popped m) q'"
inductive_cases mq_step_SilentE: "mq_step q Silent q'"

interpretation mailbox: fifo_channel mq_step mq_queue
proof
  fix q q' :: "'m CMessageQueue" and m
  show "mq_step q (Pushed m) q' \<Longrightarrow> mq_queue q' = mq_queue q @ [m]"
    by (erule mq_step_PushedE) (simp add: mq_defs)
  show "mq_step q (Popped m) q' \<Longrightarrow> mq_queue q = m # mq_queue q'"
    by (erule mq_step_PoppedE) (auto simp: mq_defs split: list.splits)
  show "mq_step q Silent q' \<Longrightarrow> mq_queue q' = mq_queue q"
    by (erule mq_step_SilentE) (auto simp: mq_defs split: list.splits)
qed

lemma mq_run_run: "mq_run q es q' \<Longrightarrow> mailbox.run q es q'"
  by (induction rule: mq_run.induct) (auto intro: mailbox.run.intros)

lemma mq_step_inv: "mq_step q e q' \<Longrightarrow> mq_inv q \<Longrightarrow> mq_inv q'"
  by (induction rule: mq_step.induct) (auto simp: mq_defs mq_inv_def split: list.splits if_splits)

lemma mq_run_inv: "mq_run q es q' \<Longrightarrow> mq_inv q \<Longrightarrow> mq_inv q'"
  by (induction rule: mq_run.induct) (auto intro: mq_step_inv)

lemma mq_empty_inv [simp]: "mq_inv mq_empty"
  by (simp add: mq_inv_def mq_empty_def)


subsection \<open>Properties\<close>

text \<open>
  C24.  No message is lost, duplicated or reordered: in every interleaving of
  producers and consumers (blocking, woken, polling) the messages taken out,
  followed by those still queued, are exactly the messages put in, in that order.
\<close>

theorem message_queue_fifo:
  assumes "mq_run mq_empty es q"
  shows "pushed_of es = popped_of es @ mq_queue q"
  using mailbox.run_fifo [OF mq_run_run [OF assms]] by (simp add: mq_empty_def)

theorem message_queue_fifo_witness:
  "\<exists>q. mq_run mq_empty [Pushed (1 :: nat), Pushed 2, Popped 1] q \<and>
     pushed_of [Pushed (1 :: nat), Pushed 2, Popped 1] = popped_of [Pushed (1 :: nat), Pushed 2, Popped 1] @ mq_queue q"
proof -
  let ?q = "Push 2 (Push (1 :: nat) mq_empty)"
  have "mq_run mq_empty ([] @ [Pushed 1]) (Push (1 :: nat) mq_empty)"
    by (rule run_step [OF run_refl step_push])
  hence "mq_run mq_empty (([] @ [Pushed 1]) @ [Pushed 2]) ?q" by (rule run_step [OF _ step_push])
  moreover have "mq_step ?q (Popped 1) (snd (Pop_nonblocked ?q))"
    by (rule step_poll) (simp add: mq_defs mq_empty_def)
  ultimately have "mq_run mq_empty ((([] @ [Pushed 1]) @ [Pushed 2]) @ [Popped 1]) (snd (Pop_nonblocked ?q))"
    by (rule run_step)
  from message_queue_fifo [OF this] this show ?thesis by auto
qed

text \<open>
  C25.  No lost wake-up: in every reachable state of the mailbox, when a consumer
  sleeps in \<open>Pop\<close>, every queued message already has a woken consumer of its own.
  In particular a consumer never sleeps on a non-empty queue that nobody serves.
\<close>

theorem message_queue_no_lost_wakeup:
  assumes "mq_run mq_empty es q" "mq_waiting q > 0"
  shows "length (mq_queue q) \<le> mq_woken q"
  using mq_run_inv [OF assms(1) mq_empty_inv] assms(2) by (simp add: mq_inv_def)

theorem message_queue_no_lost_wakeup_witness:
  "\<exists>(q :: nat CMessageQueue). mq_run mq_empty [Silent, Silent, Pushed 7] q \<and> mq_waiting q = 1
     \<and> length (mq_queue q) \<le> mq_woken q"
proof -
  let ?q1 = "snd (Pop_blocked (mq_empty :: nat CMessageQueue))"
  let ?q2 = "snd (Pop_blocked ?q1)"
  have "mq_step mq_empty Silent ?q1" "mq_step ?q1 Silent ?q2"
    by (rule step_sleep, simp add: mq_defs mq_empty_def)+
  hence "mq_run mq_empty (([] @ [Silent]) @ [Silent]) ?q2" by (blast intro: run_step run_refl)
  hence run: "mq_run mq_empty ((([] @ [Silent]) @ [Silent]) @ [Pushed 7]) (Push 7 ?q2)"
    by (rule run_step [OF _ step_push])
  have wait: "mq_waiting (Push 7 ?q2) = 1" by (simp add: mq_defs mq_empty_def)
  from message_queue_no_lost_wakeup [OF run] wait run show ?thesis by auto
qed

end
