(* ===== verification/Timer_Manager.thy ===== *)
theory Timer_Manager
  imports Prelude "HOL-Library.Multiset"
begin

text \<open>
  \<open>brynet::Timer\<close> and \<open>brynet::TimerMgr\<close>.  Timers are shared objects: the manager
  keeps an object store and the priority queue \<open>mTimers\<close> holds references to it.
  Times are nanoseconds; the steady clock is a field of the state that only grows.

  \<open>timer_run\<close> is one iteration of the timer thread.  It releases its hold on the
  queue between looking at the top, waiting and popping, and \<open>addTimer\<close> and
  \<open>cancel\<close> run in other threads in between; the model gives the thread a program
  counter and makes every critical section one step.  \<open>mTimers.top()\<close> is some
  element with the least expiry, as the standard promises.
\<close>


section \<open>The timer service (Common/TimerManager.hpp)\<close>


subsection \<open>Definitions: a timer\<close>

datatype ENUM_TIMER_TYPE = TIMER_TYPE_ONCE | TIMER_TYPE_LOOP

datatype EM_TIMER_STATE = TIMER_STATE_ADD_TIMER | TIMER_STATE_EXECUTE_TIMER

record 'c Timer =
  mExecuteOnceFlag :: bool
  mCallback :: "'c option"
  mStartTime :: int
  mLastTime :: int
  mDelayTime :: int
  mTimerType :: ENUM_TIMER_TYPE

definition Timer_ctor :: "int \<Rightarrow> int \<Rightarrow> int \<Rightarrow> ENUM_TIMER_TYPE \<Rightarrow> 'c \<Rightarrow> 'c Timer" where
  "Timer_ctor startTime lastTime delayTime timertype callback =
    \<lparr> mExecuteOnceFlag = False, mCallback = Some callback, mStartTime = startTime,
      mLastTime = lastTime, mDelayTime = delayTime, mTimerType = timertype \<rparr>"

text \<open>\<open>getLeftTime\<close> also clears the delay (seconds), so that it counts once only.\<close>

definition getLeftTime :: "int \<Rightarrow> 'c Timer \<Rightarrow> int \<times> 'c Timer" where
  "getLeftTime now t =
    (mLastTime t - (now - mStartTime t) + 10 ^ 9 * mDelayTime t, t \<lparr> mDelayTime := 0 \<rparr>)"

definition cancel :: "'c Timer \<Rightarrow> 'c Timer" where
  "cancel t = (if mExecuteOnceFlag t then t else t \<lparr> mExecuteOnceFlag := True, mCallback := None \<rparr>)"

text \<open>\<open>Timer::operator()\<close>: the callback that runs, if any, and the timer afterwards.\<close>

definition timer_call :: "int \<Rightarrow> 'c Timer \<Rightarrow> 'c option \<times> 'c Timer" where
  "timer_call now t =
    (if mTimerType t = TIMER_TYPE_ONCE
     then (if mExecuteOnceFlag t then (None, t)
           else (mCallback t, t \<lparr> mExecuteOnceFlag := True, mCallback := None \<rparr>))
     else (mCallback t, t \<lparr> mStartTime := now \<rparr>))"

text \<open>The key of \<open>CompareTimer\<close>: \<open>left\<close> comes after \<open>right\<close> when its key is greater.\<close>

definition CompareTimer :: "'c Timer \<Rightarrow> 'c Timer \<Rightarrow> bool" where
  "CompareTimer left right =
    ((mStartTime left - mStartTime right) + (mLastTime left - mLastTime right) > 0)"


subsection \<open>Definitions: the manager\<close>

text \<open>Where the timer thread stands in \<open>timer_run\<close>; \<open>Waiting i w\<close> has the wake-up time \<open>w\<close>.\<close>

datatype timer_pc = Run_Start | Waiting_Empty | Have_Lock | Waiting nat int | Checked nat | Popping nat | Ended

record 'c TimerMgr =
  tm_store :: "'c Timer list"
  mTimers :: "nat list"
  timer_run_flag :: bool
  timer_wakeup_state :: EM_TIMER_STATE
  tm_now :: int
  tm_pc :: timer_pc

definition TimerMgr_init :: "'c TimerMgr" where
  "TimerMgr_init = \<lparr> tm_store = [], mTimers = [], timer_run_flag = False,
     timer_wakeup_state = TIMER_STATE_EXECUTE_TIMER, tm_now = 0, tm_pc = Ended \<rparr>"

definition is_top :: "'c TimerMgr \<Rightarrow> nat \<Rightarrow> bool" where
  "is_top s i \<longleftrightarrow> i \<in> set (mTimers s) \<and>
     (\<forall>j \<in> set (mTimers s). \<not> CompareTimer (tm_store s ! i) (tm_store s ! j))"

definition push_timer :: "'c Timer \<Rightarrow> 'c TimerMgr \<Rightarrow> 'c TimerMgr" where
  "push_timer t s = s \<lparr> tm_store := tm_store s @ [t], mTimers := length (tm_store s) # mTimers s,
     timer_wakeup_state := TIMER_STATE_ADD_TIMER \<rparr>"

definition addTimer_loop :: "int \<Rightarrow> int \<Rightarrow> 'c \<Rightarrow> 'c TimerMgr \<Rightarrow> 'c TimerMgr" where
  "addTimer_loop delayseconds timeout callback s =
     push_timer (Timer_ctor (tm_now s) timeout delayseconds TIMER_TYPE_LOOP callback) s"

definition addTimer :: "int \<Rightarrow> 'c \<Rightarrow> 'c TimerMgr \<Rightarrow> 'c TimerMgr" where
  "addTimer timeout callback s =
     push_timer (Timer_ctor (tm_now s) timeout 0 TIMER_TYPE_ONCE callback) s"

text \<open>\<open>addTimer(const Timer::Ptr&)\<close>: a reference to an existing timer.\<close>

definition addTimer_ptr :: "nat \<Rightarrow> 'c TimerMgr \<Rightarrow> 'c TimerMgr" where
  "addTimer_ptr i s = s \<lparr> mTimers := i # mTimers s, timer_wakeup_state := TIMER_STATE_ADD_TIMER \<rparr>"

definition cancel_timer :: "nat \<Rightarrow> 'c TimerMgr \<Rightarrow> 'c TimerMgr" where
  "cancel_timer i s = s \<lparr> tm_store := (tm_store s)[i := cancel (tm_store s ! i)] \<rparr>"

definition Close_timers :: "'c TimerMgr \<Rightarrow> 'c TimerMgr" where
  "Close_timers s = s \<lparr> timer_run_flag := False, timer_wakeup_state := TIMER_STATE_ADD_TIMER \<rparr>"

definition schedule_begin :: "'c TimerMgr \<Rightarrow> 'c TimerMgr" where
  "schedule_begin s = s \<lparr> timer_run_flag := True, tm_pc := Run_Start \<rparr>"

definition isEmpty :: "'c TimerMgr \<Rightarrow> bool" where
  "isEmpty s \<longleftrightarrow> mTimers s = []"

text \<open>\<open>nearLeftTime\<close> at a top element \<open>i\<close>.\<close>

definition nearLeftTime :: "nat \<Rightarrow> 'c TimerMgr \<Rightarrow> int \<times> 'c TimerMgr" where
  "nearLeftTime i s =
    (if mTimers s = [] then (0, s)
     else let (result, t) = getLeftTime (tm_now s) (tm_store s ! i);
              s' = s \<lparr> tm_store := (tm_store s)[i := t] \<rparr> in
          if result < 0 then (0, s') else (result, s'))"

definition clear_timers :: "'c TimerMgr \<Rightarrow> 'c TimerMgr" where
  "clear_timers s = s \<lparr> mTimers := [] \<rparr>"

text \<open>The critical sections of \<open>timer_run\<close>, in the order of the code.\<close>

definition run_enter :: "'c TimerMgr \<Rightarrow> 'c TimerMgr" where
  "run_enter s = s \<lparr> tm_pc := (if mTimers s = [] then Waiting_Empty else Have_Lock) \<rparr>"

definition run_peek :: "nat \<Rightarrow> 'c TimerMgr \<Rightarrow> 'c TimerMgr" where
  "run_peek i s =
    (if \<not> timer_run_flag s then s \<lparr> tm_pc := Ended \<rparr>
     else if mTimers s = [] then s \<lparr> tm_pc := Run_Start \<rparr>
     else let (timer_wait, t) = getLeftTime (tm_now s) (tm_store s ! i);
              s' = s \<lparr> tm_store := (tm_store s)[i := t] \<rparr> in
          if timer_wait > 0 then s' \<lparr> tm_pc := Waiting i (tm_now s + timer_wait) \<rparr>
          else s' \<lparr> tm_pc := Checked i \<rparr>)"

definition run_awake :: "nat \<Rightarrow> 'c TimerMgr \<Rightarrow> 'c TimerMgr" where
  "run_awake i s =
    (if timer_wakeup_state s = TIMER_STATE_ADD_TIMER then s \<lparr> tm_pc := Run_Start \<rparr>
     else s \<lparr> tm_pc := Checked i \<rparr>)"

definition run_check :: "nat \<Rightarrow> 'c TimerMgr \<Rightarrow> 'c TimerMgr" where
  "run_check i s =
    (if \<not> timer_run_flag s then s \<lparr> tm_pc := Ended \<rparr> else s \<lparr> tm_pc := Popping i \<rparr>)"

text \<open>
  \<open>mTimers.pop()\<close> removes the element \<open>j\<close> that is on top now; the timer that runs
  is \<open>i\<close>, the one that was on top when the thread looked.
\<close>

definition run_fire :: "nat \<Rightarrow> nat \<Rightarrow> 'c TimerMgr \<Rightarrow> 'c option \<times> 'c TimerMgr" where
  "run_fire i j s =
    (let (fired, t) = timer_call (tm_now s) (tm_store s ! i);
         rest = remove1 j (mTimers s);
         queue = (if mTimerType t = TIMER_TYPE_LOOP \<and> mCallback t \<noteq> None then i # rest else rest) in
     (fired, s \<lparr> tm_store := (tm_store s)[i := t], mTimers := queue,
        timer_wakeup_state := TIMER_STATE_EXECUTE_TIMER, tm_pc := Run_Start \<rparr>))"

text \<open>
  One step of the system; the label is the timer that ran and the callback it
  executed.  \<open>spurious\<close> says whether \<open>wait_for\<close> may return without a reason.
  Durations passed to \<open>addTimer\<close> are not negative.
\<close>

datatype 'c tm_event = Quiet | Cancelled nat | Fired nat 'c

inductive tm_step :: "bool \<Rightarrow> 'c TimerMgr \<Rightarrow> 'c tm_event \<Rightarrow> 'c TimerMgr \<Rightarrow> bool" for spurious where
  tick: "d \<ge> 0 \<Longrightarrow> tm_step spurious s Quiet (s \<lparr> tm_now := tm_now s + d \<rparr>)"
| add_loop: "delay \<ge> 0 \<Longrightarrow> timeout \<ge> 0 \<Longrightarrow> tm_step spurious s Quiet (addTimer_loop delay timeout c s)"
| add_once: "timeout \<ge> 0 \<Longrightarrow> tm_step spurious s Quiet (addTimer timeout c s)"
| cancels: "i < length (tm_store s) \<Longrightarrow> tm_step spurious s (Cancelled i) (cancel_timer i s)"
| closes: "tm_step spurious s Quiet (Close_timers s)"
| enter: "tm_pc s = Run_Start \<Longrightarrow> tm_step spurious s Quiet (run_enter s)"
| wake_empty: "tm_pc s = Waiting_Empty \<Longrightarrow> tm_step spurious s Quiet (s \<lparr> tm_pc := Have_Lock \<rparr>)"
| peek: "tm_pc s = Have_Lock \<Longrightarrow> mTimers s \<noteq> [] \<longrightarrow> is_top s i \<Longrightarrow> tm_step spurious s Quiet (run_peek i s)"
| awake: "tm_pc s = Waiting i w \<Longrightarrow>
    tm_now s \<ge> w \<or> timer_wakeup_state s = TIMER_STATE_ADD_TIMER \<or> spurious \<Longrightarrow>
    tm_step spurious s Quiet (run_awake i s)"
| check: "tm_pc s = Checked i \<Longrightarrow> tm_step spurious s Quiet (run_check i s)"
| fire: "tm_pc s = Popping i \<Longrightarrow> is_top s j \<Longrightarrow> run_fire i j s = (Some c, s') \<Longrightarrow>
    tm_step spurious s (Fired i c) s'"
| fire_nothing: "tm_pc s = Popping i \<Longrightarrow> is_top s j \<Longrightarrow> run_fire i j s = (None, s') \<Longrightarrow>
    tm_step spurious s Quiet s'"

inductive tm_run :: "bool \<Rightarrow> 'c TimerMgr \<Rightarrow> 'c tm_event list \<Rightarrow> 'c TimerMgr \<Rightarrow> bool" for spurious where
  tm_refl: "tm_run spurious s [] s"
| tm_snoc: "tm_run spurious s es s' \<Longrightarrow> tm_step spurious s' e s'' \<Longrightarrow> tm_run spurious s (es @ [e]) s''"

text \<open>
  A scheduler for the same steps: the actions of the other threads, or one step of
  the timer thread, which finds \<open>i\<close> on top of the queue.
\<close>

datatype 'c tm_action = Tick int | Add_Loop int int 'c | Add_Once int 'c | Cancel nat | Thread nat

definition thread_step :: "nat \<Rightarrow> 'c TimerMgr \<Rightarrow> ('c tm_event \<times> 'c TimerMgr) option" where
  "thread_step i s =
    (case tm_pc s of
       Run_Start \<Rightarrow> Some (Quiet, run_enter s)
     | Waiting_Empty \<Rightarrow> Some (Quiet, s \<lparr> tm_pc := Have_Lock \<rparr>)
     | Have_Lock \<Rightarrow> if mTimers s \<noteq> [] \<longrightarrow> is_top s i then Some (Quiet, run_peek i s) else None
     | Waiting j w \<Rightarrow> if tm_now s \<ge> w \<or> timer_wakeup_state s = TIMER_STATE_ADD_TIMER
         then Some (Quiet, run_awake j s) else None
     | Checked j \<Rightarrow> Some (Quiet, run_check j s)
     | Popping j \<Rightarrow> if is_top s i
         then (case run_fire j i s of (None, s') \<Rightarrow> Some (Quiet, s') | (Some c, s') \<Rightarrow> Some (Fired j c, s'))
         else None
     | Ended \<Rightarrow> None)"

fun tm_exec :: "'c tm_action \<Rightarrow> 'c TimerMgr \<Rightarrow> ('c tm_event \<times> 'c TimerMgr) option" where
  "tm_exec (Tick d) s = (if d \<ge> 0 then Some (Quiet, s \<lparr> tm_now := tm_now s + d \<rparr>) else None)"
| "tm_exec (Add_Loop delay timeout c) s =
     (if delay \<ge> 0 \<and> timeout \<ge> 0 then Some (Quiet, addTimer_loop delay timeout c s) else None)"
| "tm_exec (Add_Once timeout c) s = (if timeout \<ge> 0 then Some (Quiet, addTimer timeout c s) else None)"
| "tm_exec (Cancel i) s = (if i < length (tm_store s) then Some (Cancelled i, cancel_timer i s) else None)"
| "tm_exec (Thread i) s = thread_step i s"

fun tm_execs :: "'c tm_action list \<Rightarrow> 'c TimerMgr \<Rightarrow> ('c tm_event list \<times> 'c TimerMgr) option" where
  "tm_execs [] s = Some ([], s)"
| "tm_execs (a # as) s =
     (case tm_exec a s of None \<Rightarrow> None
      | Some (e, s') \<Rightarrow> map_option (apfst ((#) e)) (tm_execs as s'))"

definition fired_count :: "nat \<Rightarrow> 'c tm_event list \<Rightarrow> nat" where
  "fired_count i es = length (filter (\<lambda>e. case e of Fired j _ \<Rightarrow> i = j | _ \<Rightarrow> False) es)"

text \<open>References are valid, and a spent or cancelled timer has no callback left.\<close>

definition pc_timer :: "timer_pc \<Rightarrow> nat option" where
  "pc_timer pc = (case pc of Waiting i _ \<Rightarrow> Some i | Checked i \<Rightarrow> Some i | Popping i \<Rightarrow> Some i | _ \<Rightarrow> None)"

definition refs_ok :: "'c TimerMgr \<Rightarrow> bool" where
  "refs_ok s \<longleftrightarrow> set (mTimers s) \<subseteq> {..<length (tm_store s)} \<and>
     (\<forall>i. pc_timer (tm_pc s) = Some i \<longrightarrow> i < length (tm_store s)) \<and>
     (\<forall>i < length (tm_store s). mExecuteOnceFlag (tm_store s ! i) \<longrightarrow> mCallback (tm_store s ! i) = None)"

definition timer_dead :: "nat \<Rightarrow> 'c TimerMgr \<Rightarrow> bool" where
  "timer_dead i s \<longleftrightarrow> i < length (tm_store s) \<and> mExecuteOnceFlag (tm_store s ! i) \<and> mCallback (tm_store s ! i) = None"

text \<open>The timer the thread is about to run has expired and is still on top.\<close>

definition expiry :: "'c TimerMgr \<Rightarrow> nat \<Rightarrow> int" where
  "expiry s i = mStartTime (tm_store s ! i) + mLastTime (tm_store s ! i)"

definition due_ok :: "'c TimerMgr \<Rightarrow> bool" where
  "due_ok s \<longleftrightarrow> (\<forall>i < length (tm_store s). mDelayTime (tm_store s ! i) \<ge> 0) \<and>
     (case tm_pc s of
        Waiting i w \<Rightarrow> expiry s i \<le> w \<and> (timer_wakeup_state s = TIMER_STATE_ADD_TIMER \<or> is_top s i)
      | Checked i \<Rightarrow> expiry s i \<le> tm_now s \<and> is_top s i
      | Popping i \<Rightarrow> expiry s i \<le> tm_now s \<and> is_top s i
      | _ \<Rightarrow> True)"


text \<open>The type of a timer never changes, and a run of a one-shot timer uses it up.\<close>

definition once_ok :: "nat \<Rightarrow> 'c tm_event list \<Rightarrow> 'c TimerMgr \<Rightarrow> bool" where
  "once_ok i es s \<longleftrightarrow>
    (if i < length (tm_store s)
     then mTimerType (tm_store s ! i) = TIMER_TYPE_ONCE \<longrightarrow>
          fired_count i es \<le> (if mExecuteOnceFlag (tm_store s ! i) then 1 else 0)
     else fired_count i es = 0)"

text \<open>The service as \<open>TMS::Init\<close> starts it.\<close>

abbreviation "timer_service \<equiv> schedule_begin TimerMgr_init"


subsection \<open>Invariants of every step\<close>

lemmas tm_defs = addTimer_loop_def addTimer_def push_timer_def Timer_ctor_def cancel_timer_def
  cancel_def Close_timers_def run_enter_def run_peek_def run_awake_def run_check_def run_fire_def
  timer_call_def getLeftTime_def Let_def

lemma is_top_expiry: "is_top s i \<longleftrightarrow> i \<in> set (mTimers s) \<and> (\<forall>j \<in> set (mTimers s). expiry s i \<le> expiry s j)"
  by (auto simp: is_top_def CompareTimer_def expiry_def not_less algebra_simps)

lemma is_top_ref: "refs_ok s \<Longrightarrow> is_top s i \<Longrightarrow> i < length (tm_store s)"
  by (auto simp: refs_ok_def is_top_def)

lemmas tm_simps = tm_defs pc_timer_def nth_append nth_list_update less_Suc_eq

lemma pc_timer_ref: "refs_ok s \<Longrightarrow> pc_timer (tm_pc s) = Some i \<Longrightarrow> i < length (tm_store s)"
  by (simp add: refs_ok_def)

lemma run_fire_refs: "refs_ok s \<Longrightarrow> tm_pc s = Popping i \<Longrightarrow> refs_ok (snd (run_fire i j s))"
  using pc_timer_ref [of s i]
  by (auto simp: refs_ok_def tm_simps dest: notin_set_remove1)

lemma run_peek_refs: "refs_ok s \<Longrightarrow> mTimers s \<noteq> [] \<longrightarrow> is_top s i \<Longrightarrow> refs_ok (run_peek i s)"
  using is_top_ref [of s i]
  by (cases "mTimers s = []") (auto simp: refs_ok_def tm_simps)

lemma tm_step_refs: "tm_step sp s e s' \<Longrightarrow> refs_ok s \<Longrightarrow> refs_ok s'"
proof (induction rule: tm_step.induct)
  case (fire s i j c s')
  thus ?case using run_fire_refs [of s i j] by simp
next
  case (fire_nothing s i j s')
  thus ?case using run_fire_refs [of s i j] by simp
qed (auto simp: run_peek_refs, auto simp: refs_ok_def tm_simps split: timer_pc.splits)

lemma tm_step_due: "tm_step False s e s' \<Longrightarrow> refs_ok s \<Longrightarrow> due_ok s \<Longrightarrow> due_ok s'"
proof (induction rule: tm_step.induct)
  case (tick d s)
  thus ?case by (auto simp: due_ok_def expiry_def is_top_expiry split: timer_pc.splits)
next
  case (add_loop delay timeout s c)
  thus ?case
    by (auto simp: due_ok_def tm_simps expiry_def is_top_expiry refs_ok_def split: timer_pc.splits)
next
  case (add_once timeout s c)
  thus ?case
    by (auto simp: due_ok_def tm_simps expiry_def is_top_expiry refs_ok_def split: timer_pc.splits)
next
  case (cancels i s)
  thus ?case
    by (auto simp: due_ok_def tm_simps expiry_def is_top_expiry split: timer_pc.splits)
next
  case (peek s i)
  thus ?case
    using is_top_ref [of s i]
    by (cases "mTimers s = []") (auto simp: due_ok_def tm_simps expiry_def is_top_expiry algebra_simps)
next
  case (fire s i j c s')
  thus ?case
    using pc_timer_ref [of s i]
    by (auto simp: due_ok_def tm_simps split: if_splits)
next
  case (fire_nothing s i j s')
  thus ?case
    using pc_timer_ref [of s i]
    by (auto simp: due_ok_def tm_simps split: if_splits)
qed (auto simp: due_ok_def tm_simps expiry_def is_top_expiry split: timer_pc.splits)

lemma tm_step_dead:
  assumes "tm_step sp s e s'" "refs_ok s" "timer_dead i s"
  shows "timer_dead i s' \<and> (\<forall>c. e \<noteq> Fired i c)"
  using assms
  by (induction rule: tm_step.induct)
    (auto simp: timer_dead_def tm_simps refs_ok_def is_top_def split: if_splits)

lemma fired_count_simps [simp]:
  "fired_count i [] = 0"
  "fired_count i [e] = (case e of Fired j _ \<Rightarrow> if i = j then 1 else 0 | _ \<Rightarrow> 0)"
  "fired_count i (es @ es') = fired_count i es + fired_count i es'"
  by (simp_all add: fired_count_def split: tm_event.splits)

lemma tm_step_once: "tm_step sp s e s' \<Longrightarrow> refs_ok s \<Longrightarrow> once_ok k es s \<Longrightarrow> once_ok k (es @ [e]) s'"
proof (induction rule: tm_step.induct)
  case (fire s i j c s')
  hence "i < length (tm_store s)" by (simp add: refs_ok_def pc_timer_def)
  with fire show ?case by (auto simp: once_ok_def tm_simps split: if_splits)
next
  case (fire_nothing s i j s')
  hence "i < length (tm_store s)" by (simp add: refs_ok_def pc_timer_def)
  with fire_nothing show ?case by (auto simp: once_ok_def tm_simps split: if_splits)
next
  case (peek s i)
  thus ?case
    using is_top_ref [of s i]
    by (cases "mTimers s = []") (auto simp: once_ok_def tm_simps split: if_splits)
qed (auto simp: once_ok_def tm_simps not_less split: if_splits)

lemma timer_service_ok [simp]: "refs_ok timer_service" "due_ok timer_service" "once_ok i [] timer_service"
  by (simp_all add: refs_ok_def due_ok_def once_ok_def schedule_begin_def TimerMgr_init_def pc_timer_def)

lemma tm_run_refs: "tm_run sp s es s' \<Longrightarrow> refs_ok s \<Longrightarrow> refs_ok s'"
  by (induction rule: tm_run.induct) (auto intro: tm_step_refs)

lemma tm_run_due: "tm_run False s es s' \<Longrightarrow> refs_ok s \<Longrightarrow> due_ok s \<Longrightarrow> due_ok s'"
  by (induction rule: tm_run.induct) (auto intro: tm_step_due tm_run_refs)

lemma tm_run_once: "tm_run sp s es s' \<Longrightarrow> refs_ok s \<Longrightarrow> once_ok i [] s \<Longrightarrow> once_ok i es s'"
  by (induction rule: tm_run.induct) (auto intro: tm_step_once tm_run_refs)

lemma tm_run_dead:
  "tm_run sp s es s' \<Longrightarrow> refs_ok s \<Longrightarrow> timer_dead i s \<Longrightarrow> timer_dead i s' \<and> fired_count i es = 0"
proof (induction rule: tm_run.induct)
  case (tm_snoc s es s' e s'')
  hence "timer_dead i s'" "fired_count i es = 0" "refs_ok s'" by (auto intro: tm_run_refs)
  with tm_step_dead [OF tm_snoc.hyps(2)] show ?case by (auto split: tm_event.splits)
qed simp

lemma tm_run_appendE:
  assumes "tm_run sp s (es @ es') s'"
  obtains s1 where "tm_run sp s es s1" "tm_run sp s1 es' s'"
  using assms
proof (induction es' arbitrary: s' thesis rule: rev_induct)
  case Nil
  thus ?case by (auto intro: tm_refl)
next
  case (snoc e es')
  from snoc.prems(2) have "tm_run sp s ((es @ es') @ [e]) s'" by simp
  then obtain s2 where "tm_run sp s (es @ es') s2" "tm_step sp s2 e s'" by (cases rule: tm_run.cases) auto
  with snoc.IH obtain s1 where "tm_run sp s es s1" "tm_run sp s1 es' s2" by blast
  with \<open>tm_step sp s2 e s'\<close> snoc.prems(1) show ?case by (auto intro: tm_run.tm_snoc)
qed

inductive_cases tm_step_CancelledE: "tm_step sp s (Cancelled i) s'"

lemma cancel_dead: "tm_step sp s (Cancelled i) s' \<Longrightarrow> refs_ok s \<Longrightarrow> timer_dead i s'"
  by (erule tm_step_CancelledE) (auto simp: timer_dead_def tm_simps refs_ok_def)


lemmas tm_eval = tm_defs schedule_begin_def TimerMgr_init_def is_top_def CompareTimer_def

subsection \<open>The scheduler only takes steps of the system\<close>

lemma thread_step_sound: "thread_step i s = Some (e, s') \<Longrightarrow> tm_step False s e s'"
  by (auto simp: thread_step_def split: timer_pc.splits if_splits prod.splits option.splits
      intro: tm_step.intros)

lemma tm_exec_sound: "tm_exec a s = Some (e, s') \<Longrightarrow> tm_step False s e s'"
  by (cases a) (auto split: if_splits intro: tm_step.intros thread_step_sound)

lemma tm_run_Cons: "tm_run sp s1 es s2 \<Longrightarrow> tm_step sp s e s1 \<Longrightarrow> tm_run sp s (e # es) s2"
proof (induction rule: tm_run.induct)
  case (tm_refl s1)
  show ?case using tm_run.tm_snoc [OF tm_run.tm_refl tm_refl] by simp
next
  case (tm_snoc s1 es s2 e' s3)
  show ?case using tm_run.tm_snoc [OF tm_snoc.IH [OF tm_snoc.prems] tm_snoc.hyps(2)] by simp
qed

lemma tm_execs_sound: "tm_execs as s = Some (es, s') \<Longrightarrow> tm_run False s es s'"
proof (induction as arbitrary: s es)
  case (Cons a as)
  then obtain e s1 es1 where "tm_exec a s = Some (e, s1)" "tm_execs as s1 = Some (es1, s')" "es = e # es1"
    by (auto split: option.splits)
  with Cons.IH show ?case by (auto intro: tm_run_Cons tm_exec_sound)
qed (auto intro: tm_refl)

subsection \<open>Properties\<close>

text \<open>
  C26.  A one-shot timer runs its callback at most once, in every interleaving of
  the timer thread with threads that add and cancel timers, spurious wake-ups
  included.
\<close>

theorem timer_once_fires_at_most_once:
  assumes "tm_run sp timer_service es s" "i < length (tm_store s)"
    and "mTimerType (tm_store s ! i) = TIMER_TYPE_ONCE"
  shows "fired_count i es \<le> 1"
  using tm_run_once [OF assms(1) timer_service_ok(1,3), of i] assms(2,3) by (auto simp: once_ok_def split: if_splits)

theorem timer_once_fires_at_most_once_witness:
  "\<exists>es (s :: nat TimerMgr). tm_run False timer_service es s \<and> fired_count 0 es = 1 \<and> fired_count 0 es \<le> 1"
proof -
  let ?as = "[Add_Once 5 (7 :: nat), Thread 0, Thread 0, Tick 5, Thread 0, Thread 0, Thread 0, Thread 0, Thread 0]"
  obtain es s where run: "tm_execs ?as timer_service = Some (es, s)" "fired_count 0 es = 1"
    "length (tm_store s) = 1" "mTimerType (tm_store s ! 0) = TIMER_TYPE_ONCE"
    by (simp add: thread_step_def tm_eval fired_count_def)
  from timer_once_fires_at_most_once [OF tm_execs_sound [OF run(1)], of 0] run tm_execs_sound [OF run(1)]
  show ?thesis by auto
qed



text \<open>
  Without spurious wake-ups a callback never runs before its timer expires,
  and the timer that runs is still one with the least expiry when the thread pops
  the queue: timers added while the thread waits never make it pop another one.
\<close>

theorem timer_fires_due_top:
  assumes "tm_run False timer_service es s" "tm_pc s = Popping i"
  shows "expiry s i \<le> tm_now s \<and> is_top s i"
  using tm_run_due [OF assms(1) timer_service_ok(1,2)] assms(2) by (simp add: due_ok_def)

theorem timer_fires_due_top_witness:
  "\<exists>es (s :: nat TimerMgr). tm_run False timer_service es s \<and> tm_pc s = Popping 0 \<and>
     expiry s 0 \<le> tm_now s \<and> is_top s 0"
proof -
  let ?as = "[Add_Once 5 (7 :: nat), Thread 0, Thread 0, Tick 5, Thread 0, Thread 0, Thread 0, Thread 0]"
  obtain es s where run: "tm_execs ?as timer_service = Some (es, s)" "tm_pc s = Popping 0"
    by (simp add: thread_step_def tm_eval)
  from timer_fires_due_top [OF tm_execs_sound [OF run(1)] run(2)] run(2) tm_execs_sound [OF run(1)]
  show ?thesis by blast
qed

text \<open>
  The initial delay of a looping timer is lost when another timer is added
  while the thread waits for it: a timer with a start delay of 5 seconds and a
  period of 1 second, added at time 0, can run its callback at 1 second.
\<close>

theorem timer_delay_lost:
  "\<exists>es s s'. tm_run False (addTimer_loop 5 (10 ^ 9) c timer_service) es s \<and>
     tm_step False s (Fired 0 c) s' \<and> tm_now s = 10 ^ 9"
proof -
  let ?as = "[Thread 0, Thread 0, Add_Once (100 * 10 ^ 9) c, Thread 0, Tick (10 ^ 9),
    Thread 0, Thread 0, Thread 0]"
  obtain es s where run: "tm_execs ?as (addTimer_loop 5 (10 ^ 9) c timer_service) = Some (es, s)"
    "tm_now s = 10 ^ 9" "\<exists>s'. thread_step 0 s = Some (Fired 0 c, s')"
    by (simp add: thread_step_def tm_eval)
  thus ?thesis using tm_execs_sound [OF run(1)] thread_step_sound by blast
qed

end
