(* ===== verification/Tms.thy ===== *)
theory Tms
  imports Message_Queue Timer_Manager
begin

text \<open>
  \<open>CLogicTasK\<close> is a thread with a mailbox, \<open>TMS\<close> the directory of these threads
  together with the timer service.  A message is a function to run, here a value
  of type \<open>'f\<close>; a timer callback puts such a message into a mailbox, so it is a
  pair of the mailbox id and the message.  \<open>std::thread\<close> ids are strings the
  system supplies, arguments of \<open>CreateLogic\<close> and \<open>GetLogicThreadID\<close>.
\<close>


section \<open>Task threads and delayed messages (Common/tms.hpp)\<close>


subsection \<open>Definitions: a task thread\<close>

datatype EM_LOGIC_TYPE = LOGIC_TYPE_RUN | LOGIC_TYPE_CLOSE

record 'f CLogicMessage =
  m_func :: "'f option"
  m_emType :: EM_LOGIC_TYPE

text \<open>Where the thread stands in the loop of \<open>svc\<close>.\<close>

datatype svc_pc = At_Check | At_Pop | Svc_Ended

record 'f CLogicTasK =
  m_thread_queue :: "'f CLogicMessage CMessageQueue"
  m_run :: bool
  m_tid :: string
  m_pc :: svc_pc

definition Put :: "'f CLogicMessage \<Rightarrow> 'f CLogicTasK \<Rightarrow> 'f CLogicTasK" where
  "Put msg t = t \<lparr> m_thread_queue := Push msg (m_thread_queue t) \<rparr>"

definition start_task :: "string \<Rightarrow> 'f CLogicTasK" where
  "start_task tid = \<lparr> m_thread_queue = mq_empty, m_run = True, m_tid = tid, m_pc = At_Check \<rparr>"

definition Close_task :: "'f CLogicTasK \<Rightarrow> 'f CLogicTasK" where
  "Close_task t = Put \<lparr> m_func = None, m_emType = LOGIC_TYPE_CLOSE \<rparr> (t \<lparr> m_run := False \<rparr>)"

text \<open>One step of \<open>svc\<close> and the function it runs; \<open>None\<close> when it is blocked or has ended.\<close>

definition svc_step :: "'f CLogicTasK \<Rightarrow> ('f option \<times> 'f CLogicTasK) option" where
  "svc_step t =
    (case m_pc t of
       At_Check \<Rightarrow> Some (None, t \<lparr> m_pc := (if m_run t then At_Pop else Svc_Ended) \<rparr>)
     | At_Pop \<Rightarrow>
         (case take_front (m_thread_queue t) of
            None \<Rightarrow> None
          | Some (msg, q) \<Rightarrow>
              if m_emType msg = LOGIC_TYPE_RUN
              then Some (m_func msg, t \<lparr> m_thread_queue := q, m_pc := At_Check \<rparr>)
              else Some (None, t \<lparr> m_thread_queue := q, m_pc := Svc_Ended \<rparr>))
     | Svc_Ended \<Rightarrow> None)"

fun svc :: "nat \<Rightarrow> 'f CLogicTasK \<Rightarrow> 'f list \<times> 'f CLogicTasK" where
  "svc 0 t = ([], t)"
| "svc (Suc n) t =
     (case svc_step t of
        None \<Rightarrow> ([], t)
      | Some (None, t') \<Rightarrow> svc n t'
      | Some (Some f, t') \<Rightarrow> (let (fs, t'') = svc n t' in (f # fs, t'')))"


subsection \<open>Definitions: the task and message service\<close>

datatype EM_TMS_EVENT_TYPE = TMS_EVENT_IMMEDIATELY | TMS_EVENT_DELAY | TMS_EVENT_TIMER

record 'f CTMS_Event =
  u4LogicID :: u32
  event_func :: 'f
  em_tms_event_type :: EM_TMS_EVENT_TYPE
  ev_millisecond :: int
  ev_delayseconds :: int

record 'f TMS =
  m_timerManager :: "(u32 \<times> 'f CLogicMessage) TimerMgr"
  m_mapLogicList :: "u32 \<rightharpoonup> 'f CLogicTasK"
  m_TidtologicidList :: "string \<rightharpoonup> u32"
  tms_is_start :: bool
  m_tmsEvents :: "'f CTMS_Event list"

definition TMS_init :: "'f TMS" where
  "TMS_init = \<lparr> m_timerManager = timer_service, m_mapLogicList = Map.empty,
     m_TidtologicidList = Map.empty, tms_is_start = False, m_tmsEvents = [] \<rparr>"

definition CreateLogic :: "string \<Rightarrow> u32 \<Rightarrow> 'f TMS \<Rightarrow> bool \<times> 'f TMS" where
  "CreateLogic tid i s =
    (case m_mapLogicList s i of
       Some _ \<Rightarrow> (False, s)
     | None \<Rightarrow> (True, s \<lparr> m_mapLogicList := (m_mapLogicList s)(i \<mapsto> start_task tid),
         m_TidtologicidList := (m_TidtologicidList s)(tid \<mapsto> i) \<rparr>))"

definition GetLogicThreadID :: "string \<Rightarrow> 'f TMS \<Rightarrow> u32" where
  "GetLogicThreadID tid s = (case m_TidtologicidList s tid of Some i \<Rightarrow> i | None \<Rightarrow> 0)"

text \<open>\<open>CloseLogic\<close>: the thread that \<open>Close\<close> joins is dropped from the directory.\<close>

definition CloseLogic :: "u32 \<Rightarrow> 'f TMS \<Rightarrow> bool \<times> 'f TMS" where
  "CloseLogic i s =
    (case m_mapLogicList s i of
       Some t \<Rightarrow> (True, s \<lparr> m_TidtologicidList := (m_TidtologicidList s)(m_tid t := None),
         m_mapLogicList := (m_mapLogicList s)(i := None) \<rparr>)
     | None \<Rightarrow> (False, s))"

definition run_message :: "'f \<Rightarrow> 'f CLogicMessage" where
  "run_message f = \<lparr> m_func = Some f, m_emType = LOGIC_TYPE_RUN \<rparr>"

definition AddMessage :: "u32 \<Rightarrow> 'f \<Rightarrow> 'f TMS \<Rightarrow> bool \<times> 'f TMS" where
  "AddMessage i func s =
    (if \<not> tms_is_start s
     then (True, s \<lparr> m_tmsEvents := m_tmsEvents s @ [\<lparr> u4LogicID = i, event_func = func,
             em_tms_event_type = TMS_EVENT_IMMEDIATELY, ev_millisecond = 0, ev_delayseconds = 0 \<rparr>] \<rparr>)
     else case m_mapLogicList s i of
       Some t \<Rightarrow> (True, s \<lparr> m_mapLogicList := (m_mapLogicList s)(i \<mapsto> Put (run_message func) t) \<rparr>)
     | None \<Rightarrow> (False, s))"

text \<open>The delayed variants return a weak pointer: the index of the timer, or nothing.\<close>

definition AddMessage_delay :: "u32 \<Rightarrow> int \<Rightarrow> 'f \<Rightarrow> 'f TMS \<Rightarrow> nat option \<times> 'f TMS" where
  "AddMessage_delay i millisecond func s =
    (if \<not> tms_is_start s
     then (None, s \<lparr> m_tmsEvents := m_tmsEvents s @ [\<lparr> u4LogicID = i, event_func = func,
             em_tms_event_type = TMS_EVENT_DELAY, ev_millisecond = millisecond, ev_delayseconds = 0 \<rparr>] \<rparr>)
     else case m_mapLogicList s i of
       Some t \<Rightarrow> (Some (length (tm_store (m_timerManager s))), s \<lparr> m_timerManager :=
           addTimer (10 ^ 6 * millisecond) (i, run_message func) (m_timerManager s) \<rparr>)
     | None \<Rightarrow> (None, s))"

definition AddMessage_loop :: "u32 \<Rightarrow> int \<Rightarrow> int \<Rightarrow> 'f \<Rightarrow> 'f TMS \<Rightarrow> nat option \<times> 'f TMS" where
  "AddMessage_loop i delayseconds millisecond func s =
    (if \<not> tms_is_start s
     then (None, s \<lparr> m_tmsEvents := m_tmsEvents s @ [\<lparr> u4LogicID = i, event_func = func,
             em_tms_event_type = TMS_EVENT_TIMER, ev_millisecond = millisecond,
             ev_delayseconds = delayseconds \<rparr>] \<rparr>)
     else case m_mapLogicList s i of
       Some t \<Rightarrow> (Some (length (tm_store (m_timerManager s))), s \<lparr> m_timerManager :=
           addTimer_loop delayseconds (10 ^ 6 * millisecond) (i, run_message func) (m_timerManager s) \<rparr>)
     | None \<Rightarrow> (None, s))"

text \<open>One buffered event handed to the started service, the body of the loop of \<open>Start\<close>.\<close>

definition add_event :: "'f CTMS_Event \<Rightarrow> 'f TMS \<Rightarrow> 'f TMS" where
  "add_event e s =
    (case em_tms_event_type e of
       TMS_EVENT_IMMEDIATELY \<Rightarrow> snd (AddMessage (u4LogicID e) (event_func e) s)
     | TMS_EVENT_DELAY \<Rightarrow> snd (AddMessage_delay (u4LogicID e) (ev_millisecond e) (event_func e) s)
     | TMS_EVENT_TIMER \<Rightarrow>
         snd (AddMessage_loop (u4LogicID e) (ev_delayseconds e) (ev_millisecond e) (event_func e) s))"

definition Start :: "'f TMS \<Rightarrow> 'f TMS" where
  "Start s = fold add_event (m_tmsEvents s) (s \<lparr> tms_is_start := True \<rparr>)"

text \<open>
  The callback of a delayed message: \<open>m_mapLogicList[u4LogicID]->Put(...)\<close>.  For
  an id that is gone, \<open>operator[]\<close> makes a null pointer and the call through it is
  undefined: \<open>None\<close>.
\<close>

definition timer_callback :: "u32 \<times> 'f CLogicMessage \<Rightarrow> 'f TMS \<Rightarrow> 'f TMS option" where
  "timer_callback c s =
    (case m_mapLogicList s (fst c) of
       Some t \<Rightarrow> Some (s \<lparr> m_mapLogicList := (m_mapLogicList s)(fst c \<mapsto> Put (snd c) t) \<rparr>)
     | None \<Rightarrow> None)"

definition Close_tms :: "'f TMS \<Rightarrow> 'f TMS" where
  "Close_tms s = s \<lparr> m_mapLogicList := (\<lambda>i. map_option Close_task (m_mapLogicList s i)),
     m_timerManager := Close_timers (m_timerManager s), tms_is_start := False \<rparr>"

text \<open>The functions that wait in the mailbox of task \<open>i\<close>.\<close>

definition pending :: "u32 \<Rightarrow> 'f TMS \<Rightarrow> 'f list" where
  "pending i s = (case m_mapLogicList s i of None \<Rightarrow> []
     | Some t \<Rightarrow> map (the \<circ> m_func) (filter (\<lambda>m. m_func m \<noteq> None) (mq_queue (m_thread_queue t))))"

text \<open>The directory and the thread-id map agree.\<close>

definition tms_inv :: "'f TMS \<Rightarrow> bool" where
  "tms_inv s \<longleftrightarrow> (\<forall>i t. m_mapLogicList s i = Some t \<longrightarrow> m_TidtologicidList s (m_tid t) = Some i) \<and>
     (\<forall>tid i. m_TidtologicidList s tid = Some i \<longrightarrow> (\<exists>t. m_mapLogicList s i = Some t \<and> m_tid t = tid))"


text \<open>An event as \<open>AddMessage\<close> and its variants store it, and an immediate message.\<close>

definition normal_event :: "'f CTMS_Event \<Rightarrow> 'f CTMS_Event" where
  "normal_event e =
    (case em_tms_event_type e of
       TMS_EVENT_IMMEDIATELY \<Rightarrow> e \<lparr> ev_millisecond := 0, ev_delayseconds := 0 \<rparr>
     | TMS_EVENT_DELAY \<Rightarrow> e \<lparr> ev_delayseconds := 0 \<rparr>
     | TMS_EVENT_TIMER \<Rightarrow> e)"

definition immediate :: "u32 \<times> 'f \<Rightarrow> 'f CTMS_Event" where
  "immediate m = \<lparr> u4LogicID = fst m, event_func = snd m, em_tms_event_type = TMS_EVENT_IMMEDIATELY,
     ev_millisecond = 0, ev_delayseconds = 0 \<rparr>"

text \<open>The operations of the service, with the id the system gives a new thread.\<close>

datatype 'f tms_op = Op_Create string u32 | Op_Close u32 | Op_Add "'f CTMS_Event" | Op_Start

fun tms_apply :: "'f tms_op \<Rightarrow> 'f TMS \<Rightarrow> 'f TMS" where
  "tms_apply (Op_Create tid i) s = snd (CreateLogic tid i s)"
| "tms_apply (Op_Close i) s = snd (CloseLogic i s)"
| "tms_apply (Op_Add e) s = add_event e s"
| "tms_apply Op_Start s = Start s"

text \<open>A new thread gets an id that no live thread has.\<close>

fun fresh_tids :: "'f tms_op list \<Rightarrow> 'f TMS \<Rightarrow> bool" where
  "fresh_tids [] s = True"
| "fresh_tids (x # xs) s =
     ((case x of Op_Create tid i \<Rightarrow> m_TidtologicidList s tid = None | _ \<Rightarrow> True) \<and>
      fresh_tids xs (tms_apply x s))"


subsection \<open>Buffered messages\<close>

lemmas add_defs = add_event_def AddMessage_def AddMessage_delay_def AddMessage_loop_def

lemma add_event_normal [simp]: "add_event (normal_event e) s = add_event e s"
  by (simp add: add_event_def normal_event_def split: EM_TMS_EVENT_TYPE.splits)

lemma add_event_buffered:
  "\<not> tms_is_start s \<Longrightarrow> add_event e s = s \<lparr> m_tmsEvents := m_tmsEvents s @ [normal_event e] \<rparr>"
  by (cases e) (simp add: add_defs normal_event_def split: EM_TMS_EVENT_TYPE.splits)

lemma fold_add_event_buffered:
  "\<not> tms_is_start s \<Longrightarrow>
   fold add_event es s = s \<lparr> m_tmsEvents := m_tmsEvents s @ map normal_event es \<rparr>"
  by (induction es arbitrary: s) (simp_all add: add_event_buffered)

lemma add_event_started [simp]: "tms_is_start (add_event e s) = tms_is_start s"
  by (simp add: add_defs split: EM_TMS_EVENT_TYPE.splits option.splits)

lemma add_event_events [simp]:
  "tms_is_start s \<Longrightarrow> m_tmsEvents (add_event e s) = m_tmsEvents s"
  by (simp add: add_defs split: EM_TMS_EVENT_TYPE.splits option.splits)

lemma add_event_forget:
  "tms_is_start s \<Longrightarrow> add_event e (s \<lparr> m_tmsEvents := xs \<rparr>) = (add_event e s) \<lparr> m_tmsEvents := xs \<rparr>"
  by (simp add: add_defs split: EM_TMS_EVENT_TYPE.splits option.splits)

lemma fold_add_event_forget:
  "tms_is_start s \<Longrightarrow>
   fold add_event es (s \<lparr> m_tmsEvents := xs \<rparr>) = (fold add_event es s) \<lparr> m_tmsEvents := xs \<rparr>"
  by (induction es arbitrary: s) (simp_all add: add_event_forget)

lemma fold_add_event_normal [simp]: "fold add_event (map normal_event es) s = fold add_event es s"
  by (induction es arbitrary: s) simp_all

lemma fold_add_event_events:
  "tms_is_start s \<Longrightarrow> m_tmsEvents (fold add_event es s) = m_tmsEvents s"
  by (induction es arbitrary: s) simp_all

lemma start_then_events:
  "s \<lparr> m_tmsEvents := es, tms_is_start := b \<rparr> = s \<lparr> tms_is_start := b, m_tmsEvents := es \<rparr>"
  by simp

lemma pending_add_immediate:
  "tms_is_start s \<Longrightarrow> m_mapLogicList s i \<noteq> None \<Longrightarrow>
   pending i (add_event (immediate m) s) = pending i s @ (if fst m = i then [snd m] else []) \<and>
   m_mapLogicList (add_event (immediate m) s) i \<noteq> None"
  by (auto simp: pending_def add_defs immediate_def Put_def Push_def notify_one_def run_message_def
      split: option.splits)

lemma pending_fold_immediate:
  "tms_is_start s \<Longrightarrow> m_mapLogicList s i \<noteq> None \<Longrightarrow>
   pending i (fold add_event (map immediate ms) s) = pending i s @ map snd (filter (\<lambda>m. fst m = i) ms)"
proof (induction ms arbitrary: s)
  case (Cons m ms)
  with pending_add_immediate [OF Cons.prems, of m] Cons.IH [of "add_event (immediate m) s"]
  show ?case by simp
qed simp


subsection \<open>The directory\<close>

lemma tms_inv_init [simp]: "tms_inv TMS_init"
  by (simp add: tms_inv_def TMS_init_def)

lemma tms_inv_create:
  "tms_inv s \<Longrightarrow> m_TidtologicidList s tid = None \<Longrightarrow> tms_inv (snd (CreateLogic tid i s))"
  by (fastforce simp: tms_inv_def CreateLogic_def start_task_def split: option.splits)

lemma tms_inv_close: "tms_inv s \<Longrightarrow> tms_inv (snd (CloseLogic i s))"
  by (auto simp: tms_inv_def CloseLogic_def split: option.splits) (metis option.inject)+

lemma tms_inv_put:
  "tms_inv s \<Longrightarrow> m_mapLogicList s i = Some t \<Longrightarrow>
   tms_inv (s \<lparr> m_mapLogicList := (m_mapLogicList s)(i \<mapsto> Put m t) \<rparr>)"
  by (fastforce simp: tms_inv_def Put_def)

lemma tms_inv_event: "tms_inv s \<Longrightarrow> tms_inv (add_event e s)"
  using tms_inv_put [of s "u4LogicID e"]
  by (auto simp: add_defs split: EM_TMS_EVENT_TYPE.splits option.splits) (auto simp: tms_inv_def)

lemma tms_inv_fold_event: "tms_inv s \<Longrightarrow> tms_inv (fold add_event es s)"
  by (induction es arbitrary: s) (simp_all add: tms_inv_event)

lemma tms_inv_start: "tms_inv s \<Longrightarrow> tms_inv (Start s)"
  unfolding Start_def by (rule tms_inv_fold_event) (simp add: tms_inv_def)

lemma tms_inv_apply:
  "tms_inv s \<Longrightarrow> fresh_tids [x] s \<Longrightarrow> tms_inv (tms_apply x s)"
  by (cases x) (simp_all add: tms_inv_create tms_inv_close tms_inv_event tms_inv_start)

lemma tms_inv_fold_apply:
  "tms_inv s \<Longrightarrow> fresh_tids xs s \<Longrightarrow> tms_inv (fold tms_apply xs s)"
proof (induction xs arbitrary: s)
  case (Cons x xs)
  hence "tms_inv (tms_apply x s)" by (intro tms_inv_apply) simp_all
  with Cons show ?case by simp
qed simp


subsection \<open>Properties\<close>

text \<open>
  C28.  Messages submitted before \<open>Start\<close>, immediate, delayed and periodic, are
  not lost: starting a service with a buffered sequence gives the same threads,
  mailboxes and timers as submitting the sequence to the started service.
\<close>

theorem tms_start_delivers_buffered:
  assumes "\<not> tms_is_start s" "m_tmsEvents s = []"
  shows "(Start (fold add_event es s)) \<lparr> m_tmsEvents := [] \<rparr> = fold add_event es (Start s)"
proof -
  have "Start (fold add_event es s)
      = fold add_event es (s \<lparr> tms_is_start := True, m_tmsEvents := map normal_event es \<rparr>)"
    using assms by (simp add: Start_def fold_add_event_buffered start_then_events)
  moreover have "Start s = s \<lparr> tms_is_start := True \<rparr>" using assms by (simp add: Start_def)
  ultimately show ?thesis
    using fold_add_event_forget [of "s \<lparr> tms_is_start := True \<rparr>" es "map normal_event es"]
      fold_add_event_events [of "s \<lparr> tms_is_start := True \<rparr>" es] assms(2)
    by simp
qed

theorem tms_start_delivers_buffered_witness:
  "let s = snd (CreateLogic ''t1'' 1 (TMS_init :: nat TMS)) in
   \<not> tms_is_start s \<and> m_tmsEvents s = [] \<and>
   (Start (fold add_event [immediate (1, 42)] s)) \<lparr> m_tmsEvents := [] \<rparr>
     = fold add_event [immediate (1, 42)] (Start s)"
  using tms_start_delivers_buffered [of "snd (CreateLogic ''t1'' 1 (TMS_init :: nat TMS))" "[immediate (1, 42)]"]
  by (simp add: CreateLogic_def TMS_init_def Let_def)

text \<open>
  C29.  Immediate messages reach the mailbox of their task in the order they were
  added, whether they were added before or after \<open>Start\<close>.
\<close>

theorem tms_messages_in_order:
  assumes "\<not> tms_is_start s" "m_tmsEvents s = []" "m_mapLogicList s i \<noteq> None"
  shows "pending i (fold add_event (map immediate after) (Start (fold add_event (map immediate before) s)))
       = pending i s @ map snd (filter (\<lambda>m. fst m = i) (before @ after))"
proof -
  let ?s = "s \<lparr> tms_is_start := True, m_tmsEvents := map normal_event (map immediate before) \<rparr>"
  have "Start (fold add_event (map immediate before) s) = fold add_event (map immediate before) ?s"
    using assms by (simp add: Start_def fold_add_event_buffered start_then_events del: map_map)
  hence "fold add_event (map immediate after) (Start (fold add_event (map immediate before) s))
      = fold add_event (map immediate (before @ after)) ?s" by simp
  moreover have "pending i (fold add_event (map immediate (before @ after)) ?s)
      = pending i ?s @ map snd (filter (\<lambda>m. fst m = i) (before @ after))"
    using assms(3) by (intro pending_fold_immediate) simp_all
  moreover have "pending i ?s = pending i s" by (simp add: pending_def)
  ultimately show ?thesis by simp
qed

theorem tms_messages_in_order_witness:
  "let s = snd (CreateLogic ''t1'' 1 (TMS_init :: nat TMS)) in
   pending 1 (fold add_event (map immediate [(1, 30)])
     (Start (fold add_event (map immediate [(1, 10), (2, 20)]) s))) = [10, 30]"
  using tms_messages_in_order [of "snd (CreateLogic ''t1'' 1 (TMS_init :: nat TMS))" 1 "[(1, 30)]" "[(1, 10), (2, 20)]"]
  by (simp add: CreateLogic_def TMS_init_def Let_def pending_def start_task_def mq_empty_def)

text \<open>
  C30.  \<open>CLogicTasK::Close\<close> ends the thread: wherever it stands in its loop, it
  leaves within three steps and runs at most one more message; the \<open>join\<close> after
  it returns.
\<close>

theorem task_close_terminates:
  "m_pc (snd (svc 3 (Close_task t))) = Svc_Ended \<and> length (fst (svc 3 (Close_task t))) \<le> 1"
  by (cases "m_pc t"; cases "mq_queue (m_thread_queue t)")
    (auto simp: numeral_eq_Suc Close_task_def Put_def svc_step_def Push_def notify_one_def take_front_def
      split: option.splits)

text \<open>
  In every state the service can reach, a task thread that asks for its own
  id with \<open>GetLogicThreadID\<close> gets the id it was created with.
\<close>

theorem tms_thread_id_correct:
  assumes "fresh_tids ops TMS_init" "m_mapLogicList (fold tms_apply ops TMS_init) i = Some t"
  shows "GetLogicThreadID (m_tid t) (fold tms_apply ops TMS_init) = i"
  using tms_inv_fold_apply [OF tms_inv_init assms(1)] assms(2)
  by (simp add: tms_inv_def GetLogicThreadID_def)

theorem tms_thread_id_correct_witness:
  "GetLogicThreadID ''t2'' (fold tms_apply [Op_Create ''t1'' 1, Op_Create ''t2'' 7, Op_Close 1] (TMS_init :: nat TMS)) = 7"
  using tms_thread_id_correct [of "[Op_Create ''t1'' 1, Op_Create ''t2'' 7, Op_Close 1]" 7 "start_task ''t2'' :: nat CLogicTasK"]
  by (simp add: TMS_init_def CreateLogic_def CloseLogic_def start_task_def)

text \<open>
  A delayed message outlives its task: once the task is closed, the timer
  callback of a message already scheduled for it dereferences a null pointer.
\<close>

theorem tms_timer_after_close_crashes:
  assumes "tms_is_start s" "m_mapLogicList s i \<noteq> None"
  shows "\<exists>k. fst (AddMessage_delay i ms f s) = Some k \<and>
     timer_callback (i, run_message f) (snd (CloseLogic i (snd (AddMessage_delay i ms f s)))) = None"
  using assms by (auto simp: AddMessage_delay_def CloseLogic_def timer_callback_def)

theorem tms_timer_after_close_crashes_witness:
  "let s = Start (snd (CreateLogic ''t1'' 1 (TMS_init :: nat TMS))) in
   timer_callback (1, run_message 5) (snd (CloseLogic 1 (snd (AddMessage_delay 1 100 5 s)))) = None"
  using tms_timer_after_close_crashes [of "Start (snd (CreateLogic ''t1'' 1 (TMS_init :: nat TMS)))" 1 100 5]
  by (simp add: Start_def CreateLogic_def TMS_init_def Let_def)

end
