(* ===== verification/Io_Bridge.thy ===== *)
theory Io_Bridge
  imports Frame_Types
begin

text \<open>
  \<open>CIotoIo\<close> keeps the configured point-to-point mappings between two addresses
  and links two sessions once both ends are connected; \<open>CSessionAddrList\<close> finds a
  live session by its address; \<open>CIoBridge\<close> joins the two.

  A \<open>shared_ptr<ISession>\<close> is a handle of type \<open>'s\<close>, or \<open>None\<close> for the null pointer.
  Linking calls \<open>set_io_bridge_connect_id\<close> on the sessions; the state records for
  every session and connection the peer it is bridged to, 0 for none.
\<close>


section \<open>Bridging two connections (Message/IotoIo, SessionAddrList, Iobridge)\<close>


subsection \<open>Definitions: mappings\<close>

record 's CIo_Connect_Info =
  from_io :: ClientIPInfo
  from_io_type :: EM_CONNECT_IO_TYPE
  from_session_id :: u32
  from_session :: "'s option"
  to_io :: ClientIPInfo
  to_io_type :: EM_CONNECT_IO_TYPE
  to_session_id :: u32
  to_session :: "'s option"
  bridge_type :: ENUM_IO_BRIDGE_TYPE

definition compare_connect_io ::
  "ClientIPInfo \<Rightarrow> EM_CONNECT_IO_TYPE \<Rightarrow> ClientIPInfo \<Rightarrow> EM_CONNECT_IO_TYPE \<Rightarrow> bool" where
  "compare_connect_io from_ip from_ty target_ip target_ty \<longleftrightarrow>
     m_strClientIP from_ip = m_strClientIP target_ip \<and> m_u2Port from_ip = m_u2Port target_ip \<and>
     from_ty = target_ty"

fun check_io_mapping :: "'s CIo_Connect_Info \<Rightarrow> 's CIo_Connect_Info list \<Rightarrow> nat" where
  "check_io_mapping ci [] = 0"
| "check_io_mapping ci (c # cs) =
     (if compare_connect_io (from_io ci) (from_io_type ci) (from_io c) (from_io_type c) then 1
      else if (bridge_type ci = IO_BRIDGE_BATH \<or> bridge_type c = IO_BRIDGE_BATH) \<and>
              compare_connect_io (to_io ci) (to_io_type ci) (from_io c) (from_io_type c) then 2
      else check_io_mapping ci cs)"

definition new_connect_info ::
  "ClientIPInfo \<Rightarrow> EM_CONNECT_IO_TYPE \<Rightarrow> ClientIPInfo \<Rightarrow> EM_CONNECT_IO_TYPE \<Rightarrow> ENUM_IO_BRIDGE_TYPE
     \<Rightarrow> 's CIo_Connect_Info" where
  "new_connect_info f fty t tty bt =
     \<lparr> from_io = f, from_io_type = fty, from_session_id = 0, from_session = None,
       to_io = t, to_io_type = tty, to_session_id = 0, to_session = None, bridge_type = bt \<rparr>"

definition iotoio_add ::
  "ClientIPInfo \<Rightarrow> EM_CONNECT_IO_TYPE \<Rightarrow> ClientIPInfo \<Rightarrow> EM_CONNECT_IO_TYPE \<Rightarrow> ENUM_IO_BRIDGE_TYPE
     \<Rightarrow> 's CIo_Connect_Info list \<Rightarrow> bool \<times> 's CIo_Connect_Info list" where
  "iotoio_add f fty t tty bt cs =
    (let ci = new_connect_info f fty t tty bt in
     if check_io_mapping ci cs \<noteq> 0 then (False, cs) else (True, cs @ [ci]))"

text \<open>
  \<open>set_io_bridge_connect_id(id, peer)\<close> on a session: \<open>(session, id, peer)\<close>.  A call
  through a null pointer has \<open>None\<close> for its session.
\<close>

type_synonym 's bridge_call = "'s option \<times> u32 \<times> u32"

definition link_io_bridge :: "'s CIo_Connect_Info \<Rightarrow> 's bridge_call list" where
  "link_io_bridge c =
    (if from_session_id c > 0 \<and> to_session_id c > 0
     then case bridge_type c of
            IO_BRIDGE_BATH \<Rightarrow> [(from_session c, from_session_id c, to_session_id c),
                               (to_session c, to_session_id c, from_session_id c)]
          | IO_BRIDGE_FROM \<Rightarrow> [(from_session c, from_session_id c, to_session_id c)]
          | IO_BRIDGE_TO \<Rightarrow> [(to_session c, to_session_id c, from_session_id c)]
          | IO_BRIDGE_NONE \<Rightarrow> []
     else [])"

definition unlink_io_bridge :: "'s CIo_Connect_Info \<Rightarrow> 's bridge_call list" where
  "unlink_io_bridge c =
    (if from_session_id c > 0 \<and> to_session_id c > 0
     then case bridge_type c of
            IO_BRIDGE_BATH \<Rightarrow> [(from_session c, from_session_id c, 0), (to_session c, to_session_id c, 0)]
          | IO_BRIDGE_FROM \<Rightarrow> [(from_session c, from_session_id c, 0)]
          | IO_BRIDGE_TO \<Rightarrow> [(to_session c, to_session_id c, 0)]
          | IO_BRIDGE_NONE \<Rightarrow> []
     else [])"

text \<open>A loop that erases the first element with a property and keeps a copy of it.\<close>

fun erase_first :: "('a \<Rightarrow> bool) \<Rightarrow> 'a list \<Rightarrow> 'a list \<times> 'a list" where
  "erase_first P [] = ([], [])"
| "erase_first P (x # xs) = (if P x then ([x], xs) else apsnd ((#) x) (erase_first P xs))"

definition iotoio_delete ::
  "ClientIPInfo \<Rightarrow> EM_CONNECT_IO_TYPE \<Rightarrow> 's CIo_Connect_Info list
     \<Rightarrow> 's bridge_call list \<times> 's CIo_Connect_Info list" where
  "iotoio_delete f fty cs =
    (let (del1, cs1) = erase_first (\<lambda>c. compare_connect_io f fty (from_io c) (from_io_type c)) cs;
         (del2, cs2) = erase_first (\<lambda>c. compare_connect_io f fty (to_io c) (to_io_type c)) cs1 in
     (concat (map unlink_io_bridge (del1 @ del2)), cs2))"

text \<open>One turn of the loop of \<open>regedit_bridge_session_info\<close>: the entry and the copies to link.\<close>

definition regedit_entry ::
  "ClientIPInfo \<Rightarrow> EM_CONNECT_IO_TYPE \<Rightarrow> u32 \<Rightarrow> 's \<Rightarrow> 's CIo_Connect_Info
     \<Rightarrow> 's CIo_Connect_Info \<times> 's CIo_Connect_Info list" where
  "regedit_entry f ty sid sess c =
    (let hit1 = compare_connect_io (from_io c) (from_io_type c) f ty;
         c1 = (if hit1 then c \<lparr> from_session_id := sid, from_session := Some sess \<rparr> else c);
         l1 = (if hit1 then [c1] else []);
         hit2 = compare_connect_io (to_io c1) (to_io_type c1) f ty;
         c2 = (if hit2 then c1 \<lparr> to_session_id := sid, to_session := Some sess \<rparr> else c1);
         l2 = (if hit2 then [c2] else []) in
     (c2, l1 @ l2))"

definition iotoio_regedit ::
  "ClientIPInfo \<Rightarrow> EM_CONNECT_IO_TYPE \<Rightarrow> u32 \<Rightarrow> 's \<Rightarrow> 's CIo_Connect_Info list
     \<Rightarrow> 's bridge_call list \<times> 's CIo_Connect_Info list" where
  "iotoio_regedit f ty sid sess cs =
    (let rs = map (regedit_entry f ty sid sess) cs in
     (concat (map link_io_bridge (concat (map snd rs))), map fst rs))"

definition unregedit_entry ::
  "ClientIPInfo \<Rightarrow> EM_CONNECT_IO_TYPE \<Rightarrow> 's CIo_Connect_Info
     \<Rightarrow> 's CIo_Connect_Info \<times> 's CIo_Connect_Info list" where
  "unregedit_entry f ty c =
    (let hit1 = compare_connect_io (from_io c) (from_io_type c) f ty;
         l1 = (if hit1 then [c] else []);
         c1 = (if hit1 then c \<lparr> from_session_id := 0, from_session := None \<rparr> else c);
         hit2 = compare_connect_io (to_io c1) (to_io_type c1) f ty;
         l2 = (if hit2 then [c1] else []);
         c2 = (if hit2 then c1 \<lparr> to_session_id := 0, to_session := None \<rparr> else c1) in
     (c2, l1 @ l2))"

definition iotoio_unregedit ::
  "ClientIPInfo \<Rightarrow> EM_CONNECT_IO_TYPE \<Rightarrow> 's CIo_Connect_Info list
     \<Rightarrow> 's bridge_call list \<times> 's CIo_Connect_Info list" where
  "iotoio_unregedit f ty cs =
    (let rs = map (unregedit_entry f ty) cs in
     (concat (map unlink_io_bridge (concat (map snd rs))), map fst rs))"


subsection \<open>Definitions: sessions by address\<close>

record 's CSessionAddr_Info =
  sa_session_id :: u32
  sa_session :: "'s option"

definition set_addr_key :: "ClientIPInfo \<Rightarrow> EM_CONNECT_IO_TYPE \<Rightarrow> string" where
  "set_addr_key f ty =
    (if ty = CONNECT_IO_TCP then m_strClientIP f @ '':'' @ to_string (unat (m_u2Port f)) @ '' TCP''
     else if ty = CONNECT_IO_UDP then m_strClientIP f @ '':'' @ to_string (unat (m_u2Port f)) @ '' UDP''
     else m_strClientIP f @ '':'' @ to_string (unat (m_u2Port f)) @ '' TTY'')"

type_synonym 's CSessionAddrList = "string \<rightharpoonup> 's CSessionAddr_Info"

definition add_session_addr ::
  "ClientIPInfo \<Rightarrow> EM_CONNECT_IO_TYPE \<Rightarrow> u32 \<Rightarrow> 's \<Rightarrow> 's CSessionAddrList \<Rightarrow> 's CSessionAddrList" where
  "add_session_addr f ty sid sess m =
     m(set_addr_key f ty \<mapsto> \<lparr> sa_session_id = sid, sa_session = Some sess \<rparr>)"

definition del_session_addr :: "ClientIPInfo \<Rightarrow> EM_CONNECT_IO_TYPE \<Rightarrow> 's CSessionAddrList \<Rightarrow> 's CSessionAddrList" where
  "del_session_addr f ty m = m(set_addr_key f ty := None)"

definition get_session_addr_info ::
  "ClientIPInfo \<Rightarrow> EM_CONNECT_IO_TYPE \<Rightarrow> 's CSessionAddrList \<Rightarrow> 's CSessionAddr_Info" where
  "get_session_addr_info f ty m =
    (case m (set_addr_key f ty) of
       Some info \<Rightarrow> \<lparr> sa_session_id = sa_session_id info, sa_session = sa_session info \<rparr>
     | None \<Rightarrow> \<lparr> sa_session_id = 0, sa_session = None \<rparr>)"


subsection \<open>Definitions: the bridge\<close>

text \<open>\<open>br_peer (s, id)\<close> is the connection that data of connection \<open>id\<close> of session \<open>s\<close> goes to.\<close>

record 's CIoBridge =
  br_iotoio :: "'s CIo_Connect_Info list"
  br_addr_list :: "'s CSessionAddrList"
  br_peer :: "'s \<times> u32 \<Rightarrow> u32"
  br_null_call :: bool

definition do_call :: "'s bridge_call \<Rightarrow> 's CIoBridge \<Rightarrow> 's CIoBridge" where
  "do_call c b =
    (case c of
       (None, i, peer) \<Rightarrow> b \<lparr> br_null_call := True \<rparr>
     | (Some s, i, peer) \<Rightarrow> b \<lparr> br_peer := (br_peer b)((s, i) := peer) \<rparr>)"

definition regedit_bridge_session_info ::
  "ClientIPInfo \<Rightarrow> EM_CONNECT_IO_TYPE \<Rightarrow> u32 \<Rightarrow> 's \<Rightarrow> 's CIoBridge \<Rightarrow> 's CIoBridge" where
  "regedit_bridge_session_info f ty sid sess b =
    (let b1 = b \<lparr> br_addr_list := add_session_addr f ty sid sess (br_addr_list b) \<rparr>;
         (calls, cs) = iotoio_regedit f ty sid sess (br_iotoio b1) in
     fold do_call calls (b1 \<lparr> br_iotoio := cs \<rparr>))"

definition unregedit_bridge_session_info ::
  "ClientIPInfo \<Rightarrow> EM_CONNECT_IO_TYPE \<Rightarrow> u32 \<Rightarrow> 's CIoBridge \<Rightarrow> 's CIoBridge" where
  "unregedit_bridge_session_info f ty sid b =
    (let b1 = b \<lparr> br_addr_list := del_session_addr f ty (br_addr_list b) \<rparr>;
         (calls, cs) = iotoio_unregedit f ty (br_iotoio b1) in
     fold do_call calls (b1 \<lparr> br_iotoio := cs \<rparr>))"

definition register_if_live :: "ClientIPInfo \<Rightarrow> EM_CONNECT_IO_TYPE \<Rightarrow> 's CIoBridge \<Rightarrow> 's CIoBridge" where
  "register_if_live f ty b =
    (let info = get_session_addr_info f ty (br_addr_list b) in
     if sa_session_id info > 0
     then case sa_session info of
            Some sess \<Rightarrow> regedit_bridge_session_info f ty (sa_session_id info) sess b
          | None \<Rightarrow> b
     else b)"

definition bridge_add_mapping ::
  "ClientIPInfo \<Rightarrow> EM_CONNECT_IO_TYPE \<Rightarrow> ClientIPInfo \<Rightarrow> EM_CONNECT_IO_TYPE \<Rightarrow> ENUM_IO_BRIDGE_TYPE
     \<Rightarrow> 's CIoBridge \<Rightarrow> bool \<times> 's CIoBridge" where
  "bridge_add_mapping f fty t tty bt b =
    (case iotoio_add f fty t tty bt (br_iotoio b) of
       (True, cs) \<Rightarrow> (True, register_if_live t tty (register_if_live f fty (b \<lparr> br_iotoio := cs \<rparr>)))
     | (False, cs) \<Rightarrow> (False, b \<lparr> br_iotoio := cs \<rparr>))"

definition bridge_delete_mapping ::
  "ClientIPInfo \<Rightarrow> EM_CONNECT_IO_TYPE \<Rightarrow> 's CIoBridge \<Rightarrow> bool \<times> 's CIoBridge" where
  "bridge_delete_mapping f fty b =
    (let (calls, cs) = iotoio_delete f fty (br_iotoio b) in
     (True, fold do_call calls (b \<lparr> br_iotoio := cs \<rparr>)))"

definition CIoBridge_init :: "'s CIoBridge" where
  "CIoBridge_init = \<lparr> br_iotoio = [], br_addr_list = Map.empty, br_peer = (\<lambda>_. 0), br_null_call = False \<rparr>"

text \<open>The operations a running server performs on the bridge.\<close>

datatype 's bridge_op =
    B_Add ClientIPInfo EM_CONNECT_IO_TYPE ClientIPInfo EM_CONNECT_IO_TYPE ENUM_IO_BRIDGE_TYPE
  | B_Delete ClientIPInfo EM_CONNECT_IO_TYPE
  | B_Connect ClientIPInfo EM_CONNECT_IO_TYPE u32 's
  | B_Disconnect ClientIPInfo EM_CONNECT_IO_TYPE u32

fun bridge_apply :: "'s bridge_op \<Rightarrow> 's CIoBridge \<Rightarrow> 's CIoBridge" where
  "bridge_apply (B_Add f fty t tty bt) b = snd (bridge_add_mapping f fty t tty bt b)"
| "bridge_apply (B_Delete f fty) b = snd (bridge_delete_mapping f fty b)"
| "bridge_apply (B_Connect f ty sid sess) b = regedit_bridge_session_info f ty sid sess b"
| "bridge_apply (B_Disconnect f ty sid) b = unregedit_bridge_session_info f ty sid b"

text \<open>
  Every source address has one mapping, and an end that has a session id has a
  session.
\<close>

definition from_key :: "'s CIo_Connect_Info \<Rightarrow> ClientIPInfo \<times> EM_CONNECT_IO_TYPE" where
  "from_key c = (from_io c, from_io_type c)"

definition to_key :: "'s CIo_Connect_Info \<Rightarrow> ClientIPInfo \<times> EM_CONNECT_IO_TYPE" where
  "to_key c = (to_io c, to_io_type c)"

definition ends_ok :: "'s CIo_Connect_Info \<Rightarrow> bool" where
  "ends_ok c \<longleftrightarrow> (from_session_id c > 0 \<longrightarrow> from_session c \<noteq> None) \<and>
     (to_session_id c > 0 \<longrightarrow> to_session c \<noteq> None)"

definition bridge_inv :: "'s CIoBridge \<Rightarrow> bool" where
  "bridge_inv b \<longleftrightarrow> distinct (map from_key (br_iotoio b)) \<and> (\<forall>c \<in> set (br_iotoio b). ends_ok c) \<and>
     \<not> br_null_call b"

text \<open>The three key classes of \<open>set_addr_key\<close>.\<close>

definition addr_class :: "EM_CONNECT_IO_TYPE \<Rightarrow> nat" where
  "addr_class ty = (if ty = CONNECT_IO_TCP then 0 else if ty = CONNECT_IO_UDP then 1 else 2)"

definition calls_ok :: "'s bridge_call list \<Rightarrow> bool" where
  "calls_ok calls \<longleftrightarrow> (\<forall>c \<in> set calls. fst c \<noteq> None)"

definition mentions :: "(ClientIPInfo \<times> EM_CONNECT_IO_TYPE) \<Rightarrow> 's CIo_Connect_Info \<Rightarrow> bool" where
  "mentions k c \<longleftrightarrow> from_key c = k \<or> to_key c = k"


subsection \<open>Mappings keep their keys\<close>

lemma compare_connect_io_iff [simp]: "compare_connect_io a ta b tb \<longleftrightarrow> (a, ta) = (b, tb)"
  by (cases a; cases b) (auto simp: compare_connect_io_def)

lemma check_io_mapping_from: "check_io_mapping ci cs = 0 \<Longrightarrow> from_key ci \<notin> from_key ` set cs"
  by (induction cs) (auto simp: from_key_def split: if_splits)

lemma erase_first_subseq:
  "erase_first P xs = (ds, ys) \<Longrightarrow> (distinct (map f xs) \<longrightarrow> distinct (map f ys)) \<and> set ys \<subseteq> set xs \<and> set ds \<subseteq> set xs"
proof (induction xs arbitrary: ds ys)
  case (Cons x xs)
  show ?case
  proof (cases "P x")
    case False
    obtain ds' ys' where e: "erase_first P xs = (ds', ys')" by fastforce
    with Cons.prems False have "ds = ds'" "ys = x # ys'" by auto
    with Cons.IH [OF e] show ?thesis by auto
  qed (use Cons.prems in auto)
qed simp

lemma regedit_entry_keys [simp]:
  "from_key (fst (regedit_entry f ty sid sess c)) = from_key c"
  "to_key (fst (regedit_entry f ty sid sess c)) = to_key c"
  by (simp_all add: regedit_entry_def Let_def from_key_def to_key_def)

lemma unregedit_entry_keys [simp]:
  "from_key (fst (unregedit_entry f ty c)) = from_key c"
  "to_key (fst (unregedit_entry f ty c)) = to_key c"
  by (simp_all add: unregedit_entry_def Let_def from_key_def to_key_def)

lemma regedit_entry_ends:
  "ends_ok c \<Longrightarrow> ends_ok (fst (regedit_entry f ty sid sess c)) \<and> (\<forall>d \<in> set (snd (regedit_entry f ty sid sess c)). ends_ok d)"
  by (auto simp: regedit_entry_def Let_def ends_ok_def)

lemma unregedit_entry_ends:
  "ends_ok c \<Longrightarrow> ends_ok (fst (unregedit_entry f ty c)) \<and> (\<forall>d \<in> set (snd (unregedit_entry f ty c)). ends_ok d)"
  by (auto simp: unregedit_entry_def Let_def ends_ok_def)


subsection \<open>Calls never go through a null pointer\<close>

lemma link_calls_ok: "ends_ok c \<Longrightarrow> calls_ok (link_io_bridge c)" "ends_ok c \<Longrightarrow> calls_ok (unlink_io_bridge c)"
  by (auto simp: calls_ok_def ends_ok_def link_io_bridge_def unlink_io_bridge_def
      split: ENUM_IO_BRIDGE_TYPE.splits)

lemma calls_ok_concat: "(\<And>c. c \<in> set cs \<Longrightarrow> calls_ok (g c)) \<Longrightarrow> calls_ok (concat (map g cs))"
  by (auto simp: calls_ok_def)

lemma do_call_list [simp]: "br_iotoio (do_call c b) = br_iotoio b" "br_addr_list (do_call c b) = br_addr_list b"
  by (simp_all add: do_call_def split: prod.splits option.splits)

lemma fold_do_call_list [simp]:
  "br_iotoio (fold do_call calls b) = br_iotoio b" "br_addr_list (fold do_call calls b) = br_addr_list b"
  by (induction calls arbitrary: b) simp_all

lemma fold_do_call_null: "calls_ok calls \<Longrightarrow> br_null_call (fold do_call calls b) = br_null_call b"
  by (induction calls arbitrary: b) (auto simp: calls_ok_def do_call_def split: prod.splits)

lemma bridge_inv_update:
  assumes "bridge_inv b" "distinct (map from_key cs)" "\<forall>c \<in> set cs. ends_ok c" "calls_ok calls"
  shows "bridge_inv (fold do_call calls (b \<lparr> br_addr_list := m, br_iotoio := cs \<rparr>))"
  using assms by (simp add: bridge_inv_def fold_do_call_null)

lemma bridge_inv_entries:
  assumes inv: "bridge_inv b"
    and key: "\<And>c. from_key (fst (g c)) = from_key c"
    and ends: "\<And>c. ends_ok c \<Longrightarrow> ends_ok (fst (g c)) \<and> (\<forall>d \<in> set (snd (g c)). ends_ok d)"
    and calls: "\<And>d. ends_ok d \<Longrightarrow> calls_ok (l d)"
  shows "bridge_inv (fold do_call (concat (map l (concat (map snd (map g (br_iotoio b))))))
    (b \<lparr> br_addr_list := m, br_iotoio := map fst (map g (br_iotoio b)) \<rparr>))"
proof (rule bridge_inv_update [OF inv])
  show "distinct (map from_key (map fst (map g (br_iotoio b))))"
    using inv by (simp add: bridge_inv_def o_def key)
  show "\<forall>c \<in> set (map fst (map g (br_iotoio b))). ends_ok c"
    using inv ends by (auto simp: bridge_inv_def)
  show "calls_ok (concat (map l (concat (map snd (map g (br_iotoio b))))))"
    using inv by (intro calls_ok_concat calls) (auto simp: bridge_inv_def dest: ends)
qed

lemma bridge_inv_regedit: "bridge_inv b \<Longrightarrow> bridge_inv (regedit_bridge_session_info f ty sid sess b)"
  using bridge_inv_entries [OF _ regedit_entry_keys(1) regedit_entry_ends link_calls_ok(1), of b]
  by (simp add: regedit_bridge_session_info_def iotoio_regedit_def Let_def)

lemma bridge_inv_unregedit: "bridge_inv b \<Longrightarrow> bridge_inv (unregedit_bridge_session_info f ty sid b)"
  using bridge_inv_entries [OF _ unregedit_entry_keys(1) unregedit_entry_ends link_calls_ok(2), of b]
  by (simp add: unregedit_bridge_session_info_def iotoio_unregedit_def Let_def)

lemma bridge_inv_live: "bridge_inv b \<Longrightarrow> bridge_inv (register_if_live f ty b)"
  by (auto simp: register_if_live_def Let_def bridge_inv_regedit split: option.splits)

lemma bridge_inv_add: "bridge_inv b \<Longrightarrow> bridge_inv (snd (bridge_add_mapping f fty t tty bt b))"
proof -
  assume inv: "bridge_inv b"
  let ?c = "new_connect_info f fty t tty bt"
  have "bridge_inv (b \<lparr> br_iotoio := br_iotoio b @ [?c] \<rparr>)" if "check_io_mapping ?c (br_iotoio b) = 0"
    using inv check_io_mapping_from [OF that]
    by (auto simp: bridge_inv_def ends_ok_def new_connect_info_def)
  with inv show ?thesis
    by (auto simp: bridge_add_mapping_def iotoio_add_def Let_def bridge_inv_live)
qed

lemma bridge_inv_delete: "bridge_inv b \<Longrightarrow> bridge_inv (snd (bridge_delete_mapping f fty b))"
proof -
  assume inv: "bridge_inv b"
  obtain d1 c1 where 1: "erase_first (\<lambda>c. compare_connect_io f fty (from_io c) (from_io_type c)) (br_iotoio b) = (d1, c1)"
    by fastforce
  obtain d2 c2 where 2: "erase_first (\<lambda>c. compare_connect_io f fty (to_io c) (to_io_type c)) c1 = (d2, c2)"
    by fastforce
  note sub = erase_first_subseq [OF 1, of from_key] erase_first_subseq [OF 2, of from_key]
  have "calls_ok (concat (map unlink_io_bridge (d1 @ d2)))"
    using inv sub by (intro calls_ok_concat link_calls_ok) (auto simp: bridge_inv_def)
  moreover have "distinct (map from_key c2)" "\<forall>c \<in> set c2. ends_ok c"
    using inv sub by (auto simp: bridge_inv_def)
  ultimately have "bridge_inv (fold do_call (concat (map unlink_io_bridge (d1 @ d2)))
      (b \<lparr> br_addr_list := br_addr_list b, br_iotoio := c2 \<rparr>))"
    using inv by (intro bridge_inv_update)
  thus ?thesis using 1 2 by (simp add: bridge_delete_mapping_def iotoio_delete_def Let_def)
qed

lemma bridge_inv_apply: "bridge_inv b \<Longrightarrow> bridge_inv (bridge_apply x b)"
  by (cases x) (simp_all add: bridge_inv_add bridge_inv_delete bridge_inv_regedit bridge_inv_unregedit)

lemma bridge_inv_fold: "bridge_inv b \<Longrightarrow> bridge_inv (fold bridge_apply xs b)"
  by (induction xs arbitrary: b) (simp_all add: bridge_inv_apply)


subsection \<open>Linking and unlinking one mapping\<close>

lemma regedit_entry_other: "\<not> mentions (f, ty) c \<Longrightarrow> regedit_entry f ty sid sess c = (c, [])"
  by (auto simp: regedit_entry_def mentions_def from_key_def to_key_def Let_def)

lemma unregedit_entry_other: "\<not> mentions (f, ty) c \<Longrightarrow> unregedit_entry f ty c = (c, [])"
  by (auto simp: unregedit_entry_def mentions_def from_key_def to_key_def Let_def)

lemma map_regedit_other:
  "\<forall>c \<in> set cs. \<not> mentions (f, ty) c \<Longrightarrow> map fst (map (regedit_entry f ty sid sess) cs) = cs"
  "\<forall>c \<in> set cs. \<not> mentions (f, ty) c \<Longrightarrow> concat (map snd (map (regedit_entry f ty sid sess) cs)) = []"
  by (induction cs) (simp_all add: regedit_entry_other)

lemma map_unregedit_other:
  "\<forall>c \<in> set cs. \<not> mentions (f, ty) c \<Longrightarrow> map fst (map (unregedit_entry f ty) cs) = cs"
  "\<forall>c \<in> set cs. \<not> mentions (f, ty) c \<Longrightarrow> concat (map snd (map (unregedit_entry f ty) cs)) = []"
  by (induction cs) (simp_all add: unregedit_entry_other)

lemma regedit_single:
  assumes "br_iotoio b = xs @ m # ys" "\<forall>c \<in> set (xs @ ys). \<not> mentions (f, ty) c"
  shows "regedit_bridge_session_info f ty sid sess b =
    fold do_call (concat (map link_io_bridge (snd (regedit_entry f ty sid sess m))))
      (b \<lparr> br_addr_list := add_session_addr f ty sid sess (br_addr_list b),
           br_iotoio := xs @ fst (regedit_entry f ty sid sess m) # ys \<rparr>)"
  using assms
  by (simp add: regedit_bridge_session_info_def iotoio_regedit_def Let_def map_regedit_other del: map_map)

lemma unregedit_single:
  assumes "br_iotoio b = xs @ m # ys" "\<forall>c \<in> set (xs @ ys). \<not> mentions (f, ty) c"
  shows "unregedit_bridge_session_info f ty sid b =
    fold do_call (concat (map unlink_io_bridge (snd (unregedit_entry f ty m))))
      (b \<lparr> br_addr_list := del_session_addr f ty (br_addr_list b),
           br_iotoio := xs @ fst (unregedit_entry f ty m) # ys \<rparr>)"
  using assms
  by (simp add: unregedit_bridge_session_info_def iotoio_unregedit_def Let_def map_unregedit_other del: map_map)


subsection \<open>Address keys\<close>

lemma split_last_colon:
  "CHR '':'' \<notin> set p \<Longrightarrow> CHR '':'' \<notin> set q \<Longrightarrow>
   xs @ CHR '':'' # p = ys @ CHR '':'' # q \<longleftrightarrow> xs = ys \<and> p = q"
  by (auto simp: append_eq_append_conv2 append_eq_Cons_conv Cons_eq_append_conv)

lemma to_string_no_colon: "CHR '':'' \<notin> set (to_string n)"
  using to_string_digits [of "CHR '':''" n] by auto

lemma addr_prefix_inject:
  "xs @ CHR '':'' # to_string (unat p) = ys @ CHR '':'' # to_string (unat q) \<longleftrightarrow> xs = ys \<and> p = q"
  for p q :: u16
  by (simp add: split_last_colon to_string_no_colon word_unat_eq_iff)


subsection \<open>Properties\<close>

text \<open>
  C31.  Whatever mappings are added and deleted and whatever sessions connect and
  disconnect, every source address has at most one mapping, an end with a session
  id has its session, and no bridge call ever goes through a null pointer.
\<close>

theorem bridge_invariant: "bridge_inv (fold bridge_apply ops CIoBridge_init)"
  by (rule bridge_inv_fold) (simp add: bridge_inv_def CIoBridge_init_def)

text \<open>
  A two-way bridge forwards both ways exactly while both ends are
  connected: when the ends of a two-way mapping, mentioned by no other mapping,
  register their sessions, each is bridged to the connection of the other; when one
  of them disconnects, both are unbridged.
\<close>

theorem bridge_links_both_ends:
  assumes "br_iotoio b = xs @ m # ys" "bridge_type m = IO_BRIDGE_BATH"
    and "from_key m = (fa, ta)" "to_key m = (fb, tb)" "(fa, ta) \<noteq> (fb, tb)"
    and "\<forall>c \<in> set (xs @ ys). \<not> mentions (fa, ta) c \<and> \<not> mentions (fb, tb) c"
    and "ida > 0" "idb > 0" "(sa, ida) \<noteq> (sb, idb)"
    and "b1 = regedit_bridge_session_info fb tb idb sb (regedit_bridge_session_info fa ta ida sa b)"
    and "b2 = unregedit_bridge_session_info fa ta ida b1"
  shows "br_peer b1 (sa, ida) = idb \<and> br_peer b1 (sb, idb) = ida \<and>
         br_peer b2 (sa, ida) = 0 \<and> br_peer b2 (sb, idb) = 0"
proof -
  let ?ba = "regedit_bridge_session_info fa ta ida sa b"
  let ?m1 = "m \<lparr> from_session_id := ida, from_session := Some sa \<rparr>"
  let ?m2 = "?m1 \<lparr> to_session_id := idb, to_session := Some sb \<rparr>"
  have "fst (regedit_entry fa ta ida sa m) = ?m1"
    using assms(3-5) by (auto simp: regedit_entry_def from_key_def to_key_def Let_def)
  hence la: "br_iotoio ?ba = xs @ ?m1 # ys" using assms(1,6) by (subst regedit_single) auto
  have eb: "regedit_entry fb tb idb sb ?m1 = (?m2, [?m2])"
    using assms(3-5) by (auto simp: regedit_entry_def from_key_def to_key_def Let_def)
  have b1: "b1 = fold do_call (link_io_bridge ?m2) (?ba \<lparr> br_addr_list :=
      add_session_addr fb tb idb sb (br_addr_list ?ba), br_iotoio := xs @ ?m2 # ys \<rparr>)"
    using assms(6,10) la by (simp add: regedit_single eb)
  have "snd (unregedit_entry fa ta ?m2) = [?m2]"
    using assms(3-5) by (auto simp: unregedit_entry_def from_key_def to_key_def Let_def)
  hence b2: "br_peer b2 = br_peer (fold do_call (unlink_io_bridge ?m2) (b1 \<lparr> br_addr_list :=
      del_session_addr fa ta (br_addr_list b1), br_iotoio := xs @ fst (unregedit_entry fa ta ?m2) # ys \<rparr>))"
    using assms(6,11) b1 by (simp add: unregedit_single)
  show ?thesis
    using assms(2,7-9) unfolding b2 by (auto simp: b1 link_io_bridge_def unlink_io_bridge_def do_call_def)
qed

theorem bridge_links_both_ends_witness:
  "let a = ClientIPInfo ''10.0.0.1'' 1000; c = ClientIPInfo ''10.0.0.2'' 2000;
       b0 = CIoBridge_init \<lparr> br_iotoio := [new_connect_info a CONNECT_IO_TCP c CONNECT_IO_TCP IO_BRIDGE_BATH] \<rparr>;
       b1 = regedit_bridge_session_info c CONNECT_IO_TCP 4 (2 :: nat) (regedit_bridge_session_info a CONNECT_IO_TCP 3 1 b0)
   in br_peer b1 (1, 3) = 4 \<and> br_peer b1 (2, 4) = 3"
  using bridge_links_both_ends [where b = "CIoBridge_init \<lparr> br_iotoio := [new_connect_info (ClientIPInfo ''10.0.0.1'' 1000)
      CONNECT_IO_TCP (ClientIPInfo ''10.0.0.2'' 2000) CONNECT_IO_TCP IO_BRIDGE_BATH] \<rparr>"
    and xs = "[]" and ys = "[]" and ida = 3 and idb = 4 and sa = "1 :: nat" and sb = 2
    and fa = "ClientIPInfo ''10.0.0.1'' 1000" and fb = "ClientIPInfo ''10.0.0.2'' 2000"
    and ta = CONNECT_IO_TCP and tb = CONNECT_IO_TCP]
  by (simp add: Let_def new_connect_info_def from_key_def to_key_def)

text \<open>
  The address key of a session identifies it: two keys are equal exactly
  when host, port and key class agree.  The class of TCP and of UDP is their own,
  while all other types (KCP, TTY, SSL, server links) share one.
\<close>

theorem set_addr_key_inject:
  "set_addr_key f ty = set_addr_key g uy \<longleftrightarrow> f = g \<and> addr_class ty = addr_class uy"
  by (cases f; cases g) (auto simp: set_addr_key_def addr_class_def append_assoc [symmetric]
      addr_prefix_inject simp del: append_assoc)

text \<open>
  The loop check of \<open>check_io_mapping\<close> depends on the order: for three
  different addresses, adding A-B and then B-C is accepted, adding B-C and then A-B
  is refused, though the mappings are the same.
\<close>

theorem bridge_loop_check_is_order_dependent:
  assumes "distinct [(a, ta), (b, tb), (c, tc)]"
  shows "fst (iotoio_add b tb c tc IO_BRIDGE_BATH (snd (iotoio_add a ta b tb IO_BRIDGE_BATH []))) \<and>
     \<not> fst (iotoio_add a ta b tb IO_BRIDGE_BATH (snd (iotoio_add b tb c tc IO_BRIDGE_BATH [])))"
  using assms by (auto simp: iotoio_add_def new_connect_info_def Let_def)

theorem bridge_loop_check_is_order_dependent_witness:
  "let a = ClientIPInfo ''a'' 1; b = ClientIPInfo ''b'' 2; c = ClientIPInfo ''c'' 3; t = CONNECT_IO_TCP in
   fst (iotoio_add b t c t IO_BRIDGE_BATH (snd (iotoio_add a t b t IO_BRIDGE_BATH []))) \<and>
   \<not> fst (iotoio_add a t b t IO_BRIDGE_BATH (snd (iotoio_add b t c t IO_BRIDGE_BATH [])))"
  using bridge_loop_check_is_order_dependent [of "ClientIPInfo ''a'' 1" CONNECT_IO_TCP
    "ClientIPInfo ''b'' 2" CONNECT_IO_TCP "ClientIPInfo ''c'' 3" CONNECT_IO_TCP]
  by (simp add: Let_def)

end
