(* ===== verification/Session_Interface.thy ===== *)
theory Session_Interface
  imports Frame_Types "HOL-Library.AList"
begin

text \<open>
  \<open>CSessionInterface\<close> is the table from connection id to session that every work
  thread owns.  It is an \<open>unordered_map\<close>; the model is an association list, whose
  order stands for the unspecified iteration order.  A session is a handle of type
  \<open>'s\<close>; what the table asks of it (\<open>get_io_type\<close>, \<open>get_recv_time\<close>) are arguments.
  Times are nanoseconds, timeouts seconds.

  The locale \<open>session_directory\<close> is the contract the dispatcher relies on.
\<close>


section \<open>The sessions of a work thread (Message/SessionInterface)\<close>


subsection \<open>Definitions\<close>

record 's CSessionIOInfo =
  si_local_info :: ClientIPInfo
  si_romote_info :: ClientIPInfo
  si_session :: 's

record 's CSessionInterface =
  sessions_list :: "(u32 \<times> 's CSessionIOInfo) list"
  check_connect_time :: int

definition CSessionInterface_init :: "'s CSessionInterface" where
  "CSessionInterface_init = \<lparr> sessions_list = [], check_connect_time = 0 \<rparr>"

definition add_session_interface ::
  "u32 \<Rightarrow> 's \<Rightarrow> ClientIPInfo \<Rightarrow> ClientIPInfo \<Rightarrow> 's CSessionInterface \<Rightarrow> 's CSessionInterface" where
  "add_session_interface connect_id session local_info romote_info t =
    (case map_of (sessions_list t) connect_id of
       None \<Rightarrow> t \<lparr> sessions_list := AList.update connect_id
         \<lparr> si_local_info = local_info, si_romote_info = romote_info, si_session = session \<rparr> (sessions_list t) \<rparr>
     | Some _ \<Rightarrow> t)"

definition get_session_interface :: "u32 \<Rightarrow> 's CSessionInterface \<Rightarrow> 's option" where
  "get_session_interface connect_id t = map_option si_session (map_of (sessions_list t) connect_id)"

definition get_session_local_ip :: "u32 \<Rightarrow> 's CSessionInterface \<Rightarrow> ClientIPInfo" where
  "get_session_local_ip connect_id t =
    (case map_of (sessions_list t) connect_id of
       Some info \<Rightarrow> si_local_info info | None \<Rightarrow> ClientIPInfo_default)"

definition get_session_remote_ip :: "u32 \<Rightarrow> 's CSessionInterface \<Rightarrow> ClientIPInfo" where
  "get_session_remote_ip connect_id t =
    (case map_of (sessions_list t) connect_id of
       Some info \<Rightarrow> si_romote_info info | None \<Rightarrow> ClientIPInfo_default)"

definition delete_session_interface :: "u32 \<Rightarrow> 's CSessionInterface \<Rightarrow> 's CSessionInterface" where
  "delete_session_interface connect_id t = t \<lparr> sessions_list := AList.delete connect_id (sessions_list t) \<rparr>"

definition is_need_check_session :: "int \<Rightarrow> u32 \<Rightarrow> 's CSessionInterface \<Rightarrow> bool \<times> 's CSessionInterface" where
  "is_need_check_session check_time connect_timeout t =
    (if check_time - check_connect_time t \<ge> 10 ^ 9 * int (unat connect_timeout)
     then (True, t \<lparr> check_connect_time := check_time \<rparr>) else (False, t))"

text \<open>One turn of the loop of \<open>check_session_io_timeout\<close>: whether the session is cancelled.\<close>

definition session_timed_out ::
  "('s \<Rightarrow> EM_CONNECT_IO_TYPE) \<Rightarrow> ('s \<Rightarrow> u32 \<Rightarrow> int) \<Rightarrow> int \<Rightarrow> u32 \<Rightarrow> u32 \<times> 's CSessionIOInfo \<Rightarrow> bool" where
  "session_timed_out io_type recv_time now connect_timeout entry \<longleftrightarrow>
    (let s = si_session (snd entry) in
     if io_type s = CONNECT_IO_TCP then now - recv_time s (fst entry) \<ge> 10 ^ 9 * int (unat connect_timeout)
     else if io_type s = CONNECT_IO_UDP then now - recv_time s (fst entry) \<ge> 10 ^ 9 * int (unat connect_timeout)
     else False)"

definition check_session_io_timeout ::
  "('s \<Rightarrow> EM_CONNECT_IO_TYPE) \<Rightarrow> ('s \<Rightarrow> u32 \<Rightarrow> int) \<Rightarrow> int \<Rightarrow> u32 \<Rightarrow> 's CSessionInterface
     \<Rightarrow> (u32 \<times> 's) list \<times> 's CSessionInterface" where
  "check_session_io_timeout io_type recv_time now connect_timeout t =
    (case is_need_check_session now connect_timeout t of
       (False, t') \<Rightarrow> ([], t')
     | (True, t') \<Rightarrow>
         (map (\<lambda>e. (fst e, si_session (snd e)))
            (filter (session_timed_out io_type recv_time (check_connect_time t') connect_timeout)
              (sessions_list t')), t'))"

definition start_check :: "int \<Rightarrow> 's CSessionInterface \<Rightarrow> 's CSessionInterface" where
  "start_check now t = t \<lparr> check_connect_time := now \<rparr>"

definition each_session_id :: "'s CSessionInterface \<Rightarrow> u32 list" where
  "each_session_id t = map fst (sessions_list t)"

definition table_inv :: "'s CSessionInterface \<Rightarrow> bool" where
  "table_inv t \<longleftrightarrow> distinct (map fst (sessions_list t))"

text \<open>What happens to one connection id: it is added, or deleted.\<close>

datatype ('k, 'v) dir_op = Dir_Add 'k 'v | Dir_Del 'k

fun dir_spec :: "('k, 'v) dir_op list \<Rightarrow> 'k \<Rightarrow> 'v option \<Rightarrow> 'v option" where
  "dir_spec [] k cur = cur"
| "dir_spec (Dir_Add k' v # ops) k cur =
     dir_spec ops k (if k = k' \<and> cur = None then Some v else cur)"
| "dir_spec (Dir_Del k' # ops) k cur = dir_spec ops k (if k = k' then None else cur)"

text \<open>The whole entry of a connection, as the directory stores it.\<close>

definition get_entry :: "u32 \<Rightarrow> 's CSessionInterface \<Rightarrow> 's CSessionIOInfo option" where
  "get_entry k t = map_of (sessions_list t) k"

definition add_entry :: "u32 \<Rightarrow> 's CSessionIOInfo \<Rightarrow> 's CSessionInterface \<Rightarrow> 's CSessionInterface" where
  "add_entry k e t = add_session_interface k (si_session e) (si_local_info e) (si_romote_info e) t"

fun table_apply :: "(u32, 's CSessionIOInfo) dir_op \<Rightarrow> 's CSessionInterface \<Rightarrow> 's CSessionInterface" where
  "table_apply (Dir_Add k e) t = add_entry k e t"
| "table_apply (Dir_Del k) t = delete_session_interface k t"


subsection \<open>The contract of a session directory\<close>

locale session_directory =
  fixes invar :: "'t \<Rightarrow> bool"
    and look :: "'k \<Rightarrow> 't \<Rightarrow> 'v option"
    and add :: "'k \<Rightarrow> 'v \<Rightarrow> 't \<Rightarrow> 't"
    and del :: "'k \<Rightarrow> 't \<Rightarrow> 't"
  assumes invar_add: "invar t \<Longrightarrow> invar (add k v t)"
    and invar_del: "invar t \<Longrightarrow> invar (del k t)"
    and look_add: "invar t \<Longrightarrow> look k' (add k v t) = (if k = k' \<and> look k t = None then Some v else look k' t)"
    and look_del: "invar t \<Longrightarrow> look k' (del k t) = (if k = k' then None else look k' t)"
begin

primrec apply_op :: "('k, 'v) dir_op \<Rightarrow> 't \<Rightarrow> 't" where
  "apply_op (Dir_Add k v) t = add k v t"
| "apply_op (Dir_Del k) t = del k t"

lemma invar_apply: "invar t \<Longrightarrow> invar (apply_op x t)"
  by (cases x) (simp_all add: invar_add invar_del)

lemma invar_run: "invar t \<Longrightarrow> invar (fold apply_op ops t)"
  by (induction ops arbitrary: t) (simp_all add: invar_apply)

lemma look_run: "invar t \<Longrightarrow> look k (fold apply_op ops t) = dir_spec ops k (look k t)"
proof (induction ops arbitrary: t)
  case (Cons x ops)
  hence "look k (fold apply_op (x # ops) t) = dir_spec ops k (look k (apply_op x t))"
    by (simp add: invar_apply)
  also have "\<dots> = dir_spec (x # ops) k (look k t)"
    using Cons.prems by (cases x) (auto simp: look_add look_del)
  finally show ?case .
qed simp

end


subsection \<open>The table is such a directory\<close>

lemma table_inv_init [simp]: "table_inv CSessionInterface_init"
  by (simp add: table_inv_def CSessionInterface_init_def)

lemma table_inv_add: "table_inv t \<Longrightarrow> table_inv (add_session_interface k s l r t)"
  by (simp add: table_inv_def add_session_interface_def distinct_update split: option.splits)

lemma table_inv_delete: "table_inv t \<Longrightarrow> table_inv (delete_session_interface k t)"
  by (simp add: table_inv_def delete_session_interface_def distinct_delete)

lemma get_add:
  "get_session_interface k' (add_session_interface k s l r t)
   = (if k = k' \<and> get_session_interface k t = None then Some s else get_session_interface k' t)"
  by (auto simp: get_session_interface_def add_session_interface_def update_conv' split: option.splits)

lemma get_delete:
  "get_session_interface k' (delete_session_interface k t)
   = (if k = k' then None else get_session_interface k' t)"
  by (simp add: get_session_interface_def delete_session_interface_def delete_conv')

interpretation session_table: session_directory table_inv get_entry add_entry delete_session_interface
proof
  fix t :: "'s CSessionInterface" and k k' and v :: "'s CSessionIOInfo"
  assume "table_inv t"
  thus "table_inv (add_entry k v t)" by (simp add: add_entry_def table_inv_add)
  show "table_inv (delete_session_interface k t)" using \<open>table_inv t\<close> by (rule table_inv_delete)
  show "get_entry k' (add_entry k v t) = (if k = k' \<and> get_entry k t = None then Some v else get_entry k' t)"
    by (cases v) (auto simp: get_entry_def add_entry_def add_session_interface_def update_conv' split: option.splits)
  show "get_entry k' (delete_session_interface k t) = (if k = k' then None else get_entry k' t)"
    by (simp add: get_entry_def delete_session_interface_def delete_conv')
qed

lemma table_apply_op: "table_apply = session_table.apply_op"
proof (intro ext)
  show "table_apply x t = session_table.apply_op x t" for x and t :: "'s CSessionInterface"
    by (cases x) simp_all
qed

lemma get_session_entry: "get_session_interface k t = map_option si_session (get_entry k t)"
  by (simp add: get_session_interface_def get_entry_def)


subsection \<open>Properties\<close>

text \<open>
  C32.  The session table answers like a dictionary that never overwrites: after
  any sequence of connects and disconnects, \<open>get_session_interface\<close> returns the
  session of the first connect of that id since its last disconnect, and null when
  there is none; ids stay unique.
\<close>

theorem session_table_lookup:
  "get_session_interface k (fold table_apply ops CSessionInterface_init)
     = map_option si_session (dir_spec ops k None) \<and>
   table_inv (fold table_apply ops CSessionInterface_init)"
  using session_table.look_run [OF table_inv_init, of k ops] session_table.invar_run [OF table_inv_init, of ops]
  by (simp add: get_session_entry table_apply_op) (simp add: get_entry_def CSessionInterface_init_def)

text \<open>
  The idle check cancels exactly the dead connections: when a check is due, a
  connection is in the list of sessions to close if and only if it is a TCP or UDP
  connection of this thread that has received nothing for at least the timeout;
  when no check is due, nothing is closed.
\<close>

theorem idle_check_exact:
  assumes "table_inv t"
  shows "(k, s) \<in> set (fst (check_session_io_timeout io_type recv_time now timeout t)) \<longleftrightarrow>
     now - check_connect_time t \<ge> 10 ^ 9 * int (unat timeout) \<and>
     get_session_interface k t = Some s \<and> io_type s \<in> {CONNECT_IO_TCP, CONNECT_IO_UDP} \<and>
     now - recv_time s k \<ge> 10 ^ 9 * int (unat timeout)"
proof (cases "now - check_connect_time t \<ge> 10 ^ 9 * int (unat timeout)")
  case True
  have "get_session_interface k t = Some s \<longleftrightarrow> (\<exists>e. (k, e) \<in> set (sessions_list t) \<and> si_session e = s)"
    using assms by (auto simp: get_session_interface_def table_inv_def)
  with True show ?thesis
    by (auto simp: check_session_io_timeout_def is_need_check_session_def session_timed_out_def Let_def
        image_iff split: if_splits)
next
  case False
  thus ?thesis by (simp add: check_session_io_timeout_def is_need_check_session_def)
qed

theorem idle_check_exact_witness:
  "let t = add_session_interface 5 (1 :: nat) ClientIPInfo_default ClientIPInfo_default CSessionInterface_init in
   table_inv t \<and>
   ((5, 1) \<in> set (fst (check_session_io_timeout (\<lambda>_. CONNECT_IO_TCP) (\<lambda>_ _. 0) (60 * 10 ^ 9) 30 t)))"
  using idle_check_exact [of "add_session_interface 5 (1 :: nat) ClientIPInfo_default ClientIPInfo_default
      CSessionInterface_init" 5 1 "\<lambda>_. CONNECT_IO_TCP" "\<lambda>_ _. 0" "60 * 10 ^ 9" 30]
  by (simp add: Let_def table_inv_add get_session_interface_def add_session_interface_def
      CSessionInterface_init_def table_inv_def)

end
