(* ===== verification/Communication.thy ===== *)
theory Communication
  imports Frame_Types "HOL-Library.AList"
begin

text \<open>
  \<open>CCommunicationService\<close> keeps the links a server opens to other servers: one
  entry per server id, the map from connection id to server id, and the set of
  servers with a connection attempt in flight.  All methods run under \<open>mutex_\<close>.

  Creating a client session and starting it is asio and session code: the argument
  \<open>start_session\<close> gives the new session and whether \<open>start\<close> succeeded.  The list
  \<open>cs_started\<close> records the attempts made.  \<open>ssl\<close> is the build switch \<open>SSL_SUPPORT\<close>.
\<close>


section \<open>Links to other servers (Common/CommunicationService)\<close>


subsection \<open>Definitions\<close>

record 's CCommunicationIOInfo =
  cc_session :: "'s option"
  cc_connect_id :: u32
  cc_io_info :: CConnect_IO_Info
  cc_io_type :: EM_CONNECT_IO_TYPE

record 's CCommunicationService =
  communication_list :: "(u32 \<times> 's CCommunicationIOInfo) list"
  server_connect_id_list :: "u32 \<rightharpoonup> u32"
  server_is_connect_list :: "u32 \<rightharpoonup> u32"
  communication_is_run :: bool
  cs_started :: "u32 list"

type_synonym 's session_starter = "EM_CONNECT_IO_TYPE \<Rightarrow> CConnect_IO_Info \<Rightarrow> 's \<times> bool"

definition CCommunicationService_init :: "'s CCommunicationService" where
  "CCommunicationService_init = \<lparr> communication_list = [], server_connect_id_list = Map.empty,
     server_is_connect_list = Map.empty, communication_is_run = False, cs_started = [] \<rparr>"

definition set_session :: "u32 \<Rightarrow> 's \<Rightarrow> 's CCommunicationService \<Rightarrow> 's CCommunicationService" where
  "set_session sid sess c = c \<lparr> communication_list :=
     AList.map_entry sid (\<lambda>e. e \<lparr> cc_session := Some sess \<rparr>) (communication_list c) \<rparr>"

definition io_connect ::
  "'s session_starter \<Rightarrow> bool \<Rightarrow> 's CCommunicationIOInfo \<Rightarrow> 's CCommunicationService \<Rightarrow> 's CCommunicationService" where
  "io_connect start_session ssl info c =
    (let sid = ci_server_id (cc_io_info info);
         c1 = c \<lparr> communication_list := AList.update sid info (communication_list c) \<rparr> in
     if \<not> communication_is_run c1 then c1
     else if server_is_connect_list c1 sid \<noteq> None then c1
     else
       let c2 = c1 \<lparr> server_is_connect_list := (server_is_connect_list c1)(sid \<mapsto> sid) \<rparr>;
           (sess, ok) = start_session (cc_io_type info) (cc_io_info info);
           c3 = c2 \<lparr> cs_started := cs_started c2 @ [sid] \<rparr> in
       if cc_io_type info = CONNECT_IO_TCP then (if ok then set_session sid sess c3 else c3)
       else if cc_io_type info = CONNECT_IO_UDP then set_session sid sess c3
       else if cc_io_type info = CONNECT_IO_TTY then set_session sid sess c3
       else if cc_io_type info = CONNECT_IO_SSL then (if ssl then set_session sid sess c3 else c2)
       else c2)"

definition add_connect ::
  "'s session_starter \<Rightarrow> bool \<Rightarrow> CConnect_IO_Info \<Rightarrow> EM_CONNECT_IO_TYPE \<Rightarrow> 's CCommunicationService
     \<Rightarrow> bool \<times> 's CCommunicationService" where
  "add_connect start_session ssl io_info io_type c =
    (True, io_connect start_session ssl
       \<lparr> cc_session = None, cc_connect_id = 0, cc_io_info = io_info, cc_io_type = io_type \<rparr> c)"

text \<open>\<open>set_connect_id\<close>: with \<open>connect_id = 0\<close> the code erases the key 0 of the id map.\<close>

definition set_connect_id :: "u32 \<Rightarrow> u32 \<Rightarrow> 's CCommunicationService \<Rightarrow> 's CCommunicationService" where
  "set_connect_id server_id connect_id c =
    (let c1 = c \<lparr> server_is_connect_list := (server_is_connect_list c)(server_id := None) \<rparr> in
     case map_of (communication_list c1) server_id of
       None \<Rightarrow> c1
     | Some e \<Rightarrow>
         if connect_id = 0
         then c1 \<lparr> communication_list := AList.map_entry server_id
                     (\<lambda>e. e \<lparr> cc_connect_id := connect_id, cc_session := None \<rparr>) (communication_list c1),
                   server_connect_id_list := (server_connect_id_list c1)(connect_id := None) \<rparr>
         else c1 \<lparr> communication_list := AList.map_entry server_id
                     (\<lambda>e. e \<lparr> cc_connect_id := connect_id \<rparr>) (communication_list c1),
                   server_connect_id_list := (server_connect_id_list c1)(connect_id \<mapsto> server_id) \<rparr>)"

definition get_connect_id :: "u32 \<Rightarrow> 's CCommunicationService \<Rightarrow> u32" where
  "get_connect_id server_id c =
    (case map_of (communication_list c) server_id of Some e \<Rightarrow> cc_connect_id e | None \<Rightarrow> 0)"

definition get_server_id :: "u32 \<Rightarrow> 's CCommunicationService \<Rightarrow> u32" where
  "get_server_id connect_id c =
    (case server_connect_id_list c connect_id of Some s \<Rightarrow> s | None \<Rightarrow> 0)"

text \<open>\<open>close_connect\<close> looks the server id up in the map that is keyed by connection id.\<close>

definition close_connect :: "u32 \<Rightarrow> 's CCommunicationService \<Rightarrow> 's CCommunicationService" where
  "close_connect server_id c =
    (let c1 = c \<lparr> communication_list := AList.delete server_id (communication_list c) \<rparr>;
         connect_id = get_server_id server_id c1 in
     if connect_id > 0
     then c1 \<lparr> server_connect_id_list := (server_connect_id_list c1)(connect_id := None) \<rparr> else c1)"

definition is_exist :: "u32 \<Rightarrow> 's CCommunicationService \<Rightarrow> bool" where
  "is_exist server_id c \<longleftrightarrow> map_of (communication_list c) server_id \<noteq> None"

text \<open>\<open>each_io_connect\<close> with a function that changes the service while it iterates.\<close>

definition each_io_connect ::
  "('s CCommunicationIOInfo \<Rightarrow> 's CCommunicationService \<Rightarrow> 's CCommunicationService)
     \<Rightarrow> 's CCommunicationService \<Rightarrow> 's CCommunicationService" where
  "each_io_connect f c = fold (\<lambda>sid c. case map_of (communication_list c) sid of
     None \<Rightarrow> c | Some e \<Rightarrow> f e c) (map fst (communication_list c)) c"

definition run_check_task ::
  "'s session_starter \<Rightarrow> bool \<Rightarrow> ('s \<Rightarrow> bool) \<Rightarrow> 's CCommunicationService \<Rightarrow> 's CCommunicationService" where
  "run_check_task start_session ssl is_connect c =
    each_io_connect (\<lambda>e c.
      if (case cc_session e of None \<Rightarrow> True | Some s \<Rightarrow> \<not> is_connect s) \<and> ci_is_need_reconnect (cc_io_info e)
      then io_connect start_session ssl e c else c) c"

definition run_first_io_connect ::
  "'s session_starter \<Rightarrow> bool \<Rightarrow> 's CCommunicationService \<Rightarrow> 's CCommunicationService" where
  "run_first_io_connect start_session ssl c = each_io_connect (io_connect start_session ssl) c"

definition run_server_to_server ::
  "'s session_starter \<Rightarrow> bool \<Rightarrow> 's CCommunicationService \<Rightarrow> 's CCommunicationService" where
  "run_server_to_server start_session ssl c =
     run_first_io_connect start_session ssl (c \<lparr> communication_is_run := True \<rparr>)"

definition reset_connect ::
  "'s session_starter \<Rightarrow> bool \<Rightarrow> u32 \<Rightarrow> 's CCommunicationService \<Rightarrow> 's CCommunicationService" where
  "reset_connect start_session ssl server_id c =
    (case map_of (communication_list c) server_id of
       Some e \<Rightarrow> io_connect start_session ssl e c | None \<Rightarrow> c)"

definition close_service :: "'s CCommunicationService \<Rightarrow> 's CCommunicationService" where
  "close_service c = c \<lparr> server_connect_id_list := Map.empty, communication_list := [] \<rparr>"

text \<open>The calls other components make on the service.\<close>

datatype 's comm_op =
    C_Add CConnect_IO_Info EM_CONNECT_IO_TYPE | C_Set_Connect u32 u32 | C_Close u32
  | C_Run | C_Check "'s \<Rightarrow> bool" | C_Reset u32 | C_Close_All

fun comm_apply :: "'s session_starter \<Rightarrow> bool \<Rightarrow> 's comm_op \<Rightarrow> 's CCommunicationService \<Rightarrow> 's CCommunicationService" where
  "comm_apply st ssl (C_Add info ty) c = snd (add_connect st ssl info ty c)"
| "comm_apply st ssl (C_Set_Connect sid cid) c = set_connect_id sid cid c"
| "comm_apply st ssl (C_Close sid) c = close_connect sid c"
| "comm_apply st ssl C_Run c = run_server_to_server st ssl c"
| "comm_apply st ssl (C_Check is_connect) c = run_check_task st ssl is_connect c"
| "comm_apply st ssl (C_Reset sid) c = reset_connect st ssl sid c"
| "comm_apply st ssl C_Close_All c = close_service c"

text \<open>The reports of a server's connection state among the calls.\<close>

definition reports :: "u32 \<Rightarrow> 's comm_op list \<Rightarrow> nat" where
  "reports sid ops = length (filter (\<lambda>x. case x of C_Set_Connect s _ \<Rightarrow> s = sid | _ \<Rightarrow> False) ops)"

definition attempts :: "u32 \<Rightarrow> 's CCommunicationService \<Rightarrow> nat" where
  "attempts sid c = count_list (cs_started c) sid"

text \<open>An attempt that was not reported on keeps its server marked.\<close>

definition flight_ok :: "nat \<Rightarrow> u32 \<Rightarrow> 's CCommunicationService \<Rightarrow> bool" where
  "flight_ok n sid c \<longleftrightarrow>
     (if server_is_connect_list c sid = None then attempts sid c \<le> n else attempts sid c \<le> n + 1)"


subsection \<open>One attempt at a time\<close>

lemma set_session_simps [simp]:
  "server_is_connect_list (set_session sid s c) = server_is_connect_list c"
  "cs_started (set_session sid s c) = cs_started c"
  by (simp_all add: set_session_def)

lemma flight_io_connect: "flight_ok n sid c \<Longrightarrow> flight_ok n sid (io_connect st ssl e c)"
  by (auto simp: io_connect_def Let_def flight_ok_def attempts_def split: prod.splits if_splits)

lemma each_io_connect_inv:
  assumes "P c" "\<And>e c. P c \<Longrightarrow> P (f e c)"
  shows "P (each_io_connect f c)"
proof -
  have "P (fold (\<lambda>sid c. case map_of (communication_list c) sid of None \<Rightarrow> c | Some e \<Rightarrow> f e c) ks c)" for ks
    using assms(1) by (induction ks arbitrary: c) (auto intro: assms(2) split: option.splits)
  thus ?thesis by (simp add: each_io_connect_def)
qed

lemma flight_fields:
  "server_is_connect_list c' = server_is_connect_list c \<Longrightarrow> cs_started c' = cs_started c \<Longrightarrow>
   flight_ok n sid c' = flight_ok n sid c"
  by (simp add: flight_ok_def attempts_def)

lemma set_connect_id_started [simp]: "cs_started (set_connect_id s k c) = cs_started c"
  by (simp add: set_connect_id_def Let_def split: option.splits)

lemma set_connect_id_flight [simp]:
  "server_is_connect_list (set_connect_id s k c) = (server_is_connect_list c)(s := None)"
  by (simp add: set_connect_id_def Let_def split: option.splits)

lemma flight_apply:
  assumes "flight_ok n sid c"
  shows "flight_ok (n + reports sid [x]) sid (comm_apply st ssl x c)"
proof (cases x)
  case (C_Set_Connect s k)
  with assms show ?thesis
    by (auto simp: flight_ok_def attempts_def reports_def split: if_splits)
next
  case (C_Check p)
  with assms show ?thesis
    by (auto simp: reports_def run_check_task_def flight_io_connect
        intro!: each_io_connect_inv [where P = "flight_ok n sid"])
next
  case C_Run
  have "flight_ok n sid (c \<lparr> communication_is_run := True \<rparr>)"
    using assms by (subst flight_fields [of _ c]) simp_all
  with C_Run show ?thesis
    by (simp add: reports_def run_server_to_server_def run_first_io_connect_def flight_io_connect
        each_io_connect_inv [where P = "flight_ok n sid"])
next
  case (C_Add info ty)
  with assms show ?thesis by (simp add: reports_def add_connect_def flight_io_connect)
next
  case (C_Reset s)
  with assms show ?thesis by (simp add: reports_def reset_connect_def flight_io_connect split: option.split)
qed (use assms in \<open>auto simp: reports_def close_connect_def close_service_def Let_def flight_ok_def attempts_def
    split: if_splits\<close>)

lemma reports_Cons: "reports sid (x # xs) = reports sid [x] + reports sid xs"
  by (simp add: reports_def)

lemma flight_fold:
  "flight_ok n sid c \<Longrightarrow> flight_ok (n + reports sid ops) sid (fold (comm_apply st ssl) ops c)"
proof (induction ops arbitrary: n c)
  case (Cons x ops)
  from Cons.IH [OF flight_apply [OF Cons.prems, of x st ssl]] show ?case
    by (simp add: reports_Cons [of sid x ops] add.assoc)
qed (simp add: reports_def)

lemma blocked_io_connect:
  "server_is_connect_list c sid \<noteq> None \<and> attempts sid c = n \<Longrightarrow>
   server_is_connect_list (io_connect st ssl e c) sid \<noteq> None \<and> attempts sid (io_connect st ssl e c) = n"
  by (auto simp: io_connect_def Let_def attempts_def split: prod.splits if_splits)

lemma blocked_apply:
  assumes "server_is_connect_list c sid \<noteq> None \<and> attempts sid c = n" "reports sid [x] = 0"
  shows "server_is_connect_list (comm_apply st ssl x c) sid \<noteq> None \<and> attempts sid (comm_apply st ssl x c) = n"
proof (cases x)
  case (C_Check p)
  with assms(1) show ?thesis
    using each_io_connect_inv [of "\<lambda>c. server_is_connect_list c sid \<noteq> None \<and> attempts sid c = n" c
        "\<lambda>e c. if (case cc_session e of None \<Rightarrow> True | Some s \<Rightarrow> \<not> p s) \<and> ci_is_need_reconnect (cc_io_info e)
          then io_connect st ssl e c else c"] blocked_io_connect [of _ sid n st ssl]
    by (simp add: run_check_task_def)
next
  case C_Run
  have "server_is_connect_list (c \<lparr> communication_is_run := True \<rparr>) sid \<noteq> None \<and>
      attempts sid (c \<lparr> communication_is_run := True \<rparr>) = n"
    using assms(1) by (simp add: attempts_def)
  with C_Run show ?thesis
    using each_io_connect_inv [of "\<lambda>c. server_is_connect_list c sid \<noteq> None \<and> attempts sid c = n"
        "c \<lparr> communication_is_run := True \<rparr>" "io_connect st ssl"] blocked_io_connect [of _ sid n st ssl]
    by (simp add: run_server_to_server_def run_first_io_connect_def)
next
  case (C_Reset s)
  with assms(1) blocked_io_connect [of c sid n st ssl] show ?thesis
    by (cases "map_of (communication_list c) s") (simp_all add: reset_connect_def)
next
  case (C_Add info ty)
  with assms(1) blocked_io_connect [of c sid n st ssl] show ?thesis by (simp add: add_connect_def)
qed (use assms in \<open>auto simp: reports_def close_connect_def close_service_def Let_def attempts_def
    split: if_splits\<close>)

lemma blocked_fold:
  "server_is_connect_list c sid \<noteq> None \<and> attempts sid c = n \<Longrightarrow> reports sid ops = 0 \<Longrightarrow>
   server_is_connect_list (fold (comm_apply st ssl) ops c) sid \<noteq> None \<and>
   attempts sid (fold (comm_apply st ssl) ops c) = n"
proof (induction ops arbitrary: c)
  case (Cons x ops)
  hence "reports sid [x] = 0" "reports sid ops = 0" by (simp_all add: reports_Cons [of sid x ops])
  with Cons blocked_apply [of c sid n x st ssl] show ?case by simp
qed simp


subsection \<open>Properties\<close>


text \<open>
  A failed first attempt disables reconnection: while no outcome is reported
  for a server that has an attempt in flight, and a connection failure reports
  none, neither the periodic check nor an explicit reset nor a new \<open>add_connect\<close>
  ever starts another attempt.
\<close>

theorem failed_connect_is_never_retried:
  assumes "server_is_connect_list c sid \<noteq> None" "reports sid ops = 0"
  shows "attempts sid (fold (comm_apply st ssl) ops c) = attempts sid c"
  using blocked_fold [of c sid "attempts sid c" ops st ssl] assms by simp

theorem failed_connect_is_never_retried_witness:
  "let info = CConnect_IO_Info_default \<lparr> ci_server_id := 7, ci_is_need_reconnect := True \<rparr>;
       st = (\<lambda>_ _. (0 :: nat, True));
       c = fold (comm_apply st False) [C_Run, C_Add info CONNECT_IO_TCP] CCommunicationService_init in
   attempts 7 c = 1 \<and>
   attempts 7 (fold (comm_apply st False) [C_Check (\<lambda>_. False), C_Reset 7, C_Add info CONNECT_IO_TCP] c) = 1"
proof -
  let ?info = "CConnect_IO_Info_default \<lparr> ci_server_id := 7, ci_is_need_reconnect := True \<rparr>"
  let ?st = "\<lambda>_ _. (0 :: nat, True)"
  let ?c = "fold (comm_apply ?st False) [C_Run, C_Add ?info CONNECT_IO_TCP] CCommunicationService_init"
  have "server_is_connect_list ?c 7 \<noteq> None" "attempts 7 ?c = 1"
    by (simp_all add: run_server_to_server_def run_first_io_connect_def each_io_connect_def add_connect_def
        io_connect_def CCommunicationService_init_def attempts_def)
  with failed_connect_is_never_retried
    [of ?c 7 "[C_Check (\<lambda>_. False), C_Reset 7, C_Add ?info CONNECT_IO_TCP]" ?st False]
  show ?thesis by (simp add: reports_def Let_def)
qed

text \<open>
  A reported connection can be found both ways: after
  \<open>set_connect_id(server, id)\<close> with a live id for a configured server, the server's
  connection id is \<open>id\<close> and the server of connection \<open>id\<close> is \<open>server\<close>.
\<close>

theorem set_connect_id_both_ways:
  assumes "is_exist sid c" "cid \<noteq> 0"
  shows "get_connect_id sid (set_connect_id sid cid c) = cid \<and> get_server_id cid (set_connect_id sid cid c) = sid"
  using assms by (auto simp: is_exist_def set_connect_id_def get_connect_id_def get_server_id_def Let_def map_of_map_entry)

theorem set_connect_id_both_ways_witness:
  "let c = snd (add_connect (\<lambda>_ _. (0 :: nat, True)) False
         (CConnect_IO_Info_default \<lparr> ci_server_id := 7 \<rparr>) CONNECT_IO_TCP CCommunicationService_init) in
   get_connect_id 7 (set_connect_id 7 3 c) = 3 \<and> get_server_id 3 (set_connect_id 7 3 c) = 7"
  using set_connect_id_both_ways [of 7 "snd (add_connect (\<lambda>_ _. (0 :: nat, True)) False
      (CConnect_IO_Info_default \<lparr> ci_server_id := 7 \<rparr>) CONNECT_IO_TCP CCommunicationService_init)" 3]
  by (simp add: Let_def is_exist_def add_connect_def io_connect_def CCommunicationService_init_def)

text \<open>
  The id map keeps dead connections: after the link to a server goes down
  (\<open>set_connect_id(server, 0)\<close>), and even after \<open>close_connect(server)\<close>, the old
  connection id still resolves to the server, unless a connection id happens to
  equal the server id.
\<close>

theorem closed_link_still_resolves:
  assumes "is_exist sid c" "cid \<noteq> 0" "sid \<noteq> 0" "server_connect_id_list c sid = None" "cid \<noteq> sid"
  shows "get_server_id cid (close_connect sid (set_connect_id sid 0 (set_connect_id sid cid c))) = sid"
  using assms
  by (auto simp: is_exist_def set_connect_id_def close_connect_def get_server_id_def Let_def map_of_map_entry
      split: option.splits)

theorem closed_link_still_resolves_witness:
  "let c = snd (add_connect (\<lambda>_ _. (0 :: nat, True)) False
         (CConnect_IO_Info_default \<lparr> ci_server_id := 7 \<rparr>) CONNECT_IO_TCP CCommunicationService_init) in
   get_server_id 3 (close_connect 7 (set_connect_id 7 0 (set_connect_id 7 3 c))) = 7"
  using closed_link_still_resolves [of 7 "snd (add_connect (\<lambda>_ _. (0 :: nat, True)) False
      (CConnect_IO_Info_default \<lparr> ci_server_id := 7 \<rparr>) CONNECT_IO_TCP CCommunicationService_init)" 3]
  by (simp add: Let_def is_exist_def add_connect_def io_connect_def CCommunicationService_init_def)

end
