(* ===== verification/Load_Module.thy ===== *)
theory Load_Module
  imports Frame_Types
begin

text \<open>
  \<open>CLoadModule\<close> opens logic plugins and keeps the two command tables, for commands
  handled in a work thread (asynchronous) and in the session (synchronous);
  \<open>CLoadPacketParse\<close> opens packet parsers.  The dynamic linker and the plugin are
  outside the repository's library: \<open>dlopen\<close> gives a handle of type \<open>'h\<close>, \<open>dlsym\<close>
  the code of type \<open>'fn\<close> behind a name, and \<open>run_load\<close> the result of calling the
  plugin's \<open>load_module\<close> together with the commands it registered with the
  \<open>CFrame_Object\<close>.  A function in a table is a pair of the library it lives in and
  the code; \<open>lm_dlclosed\<close> collects the handles passed to \<open>dlclose\<close>.
\<close>


section \<open>Loading plugins (Message/LoadModule, LoadPacketParse, FrameObject)\<close>


subsection \<open>Definitions: registering commands\<close>

datatype EM_LOGIC_RUN_STATE = LOGIC_RUN_SYNCHRONOUS | LOGIC_RUN_ASYNHRONOUS

datatype ENUM_LOGIC_COMMAND_TYPE = COMMAND_TYPE_NO_FN | COMMAND_TYPE_YES_FN

record 'fn CLogic_Command_Info =
  logic_run_state :: EM_LOGIC_RUN_STATE
  lc_type :: ENUM_LOGIC_COMMAND_TYPE
  lc_command_id :: u16
  logic_fn :: "'fn option"

definition Regedit_command ::
  "u16 \<Rightarrow> EM_LOGIC_RUN_STATE \<Rightarrow> 'fn CLogic_Command_Info list \<Rightarrow> 'fn CLogic_Command_Info list" where
  "Regedit_command command_id em_logic_state cmds = cmds @ [\<lparr> logic_run_state = em_logic_state,
     lc_type = COMMAND_TYPE_NO_FN, lc_command_id = command_id, logic_fn = None \<rparr>]"

definition Regedit_command_fn ::
  "u16 \<Rightarrow> 'fn \<Rightarrow> EM_LOGIC_RUN_STATE \<Rightarrow> 'fn CLogic_Command_Info list \<Rightarrow> 'fn CLogic_Command_Info list" where
  "Regedit_command_fn command_id fn em_logic_state cmds = cmds @ [\<lparr> logic_run_state = em_logic_state,
     lc_type = COMMAND_TYPE_YES_FN, lc_command_id = command_id, logic_fn = Some fn \<rparr>]"


subsection \<open>Definitions: logic plugins\<close>

record ('h, 'fn) ModuleInfo =
  module_file_name :: string
  module_file_path :: string
  module_param :: string
  hModule :: 'h
  load_module_ptr :: 'fn
  unload_module_ptr :: 'fn
  do_message_ptr :: 'fn
  get_module_state_ptr :: 'fn
  set_output_ptr :: 'fn
  module_run_ptr :: "'fn option"
  command_id_list :: "u16 list"

record ('h, 'fn) CLoadModule =
  module_list :: "string \<rightharpoonup> ('h, 'fn) ModuleInfo"
  module_name_list :: "string list"
  command_to_module_function :: "u16 \<rightharpoonup> 'h \<times> 'fn option"
  command_to_session_function :: "u16 \<rightharpoonup> 'h \<times> 'fn option"
  plugin_name_to_module_run :: "string \<rightharpoonup> 'h \<times> 'fn option"
  lm_dlclosed :: "'h list"

definition CLoadModule_init :: "('h, 'fn) CLoadModule" where
  "CLoadModule_init = \<lparr> module_list = Map.empty, module_name_list = [],
     command_to_module_function = Map.empty, command_to_session_function = Map.empty,
     plugin_name_to_module_run = Map.empty, lm_dlclosed = [] \<rparr>"

text \<open>
  \<open>load_module_info\<close>.  After looking up \<open>module_run\<close> the code tests \<open>set_output_\<close>
  again, so a plugin without \<open>module_run\<close> is accepted.
\<close>

definition load_module_info ::
  "(string \<Rightarrow> 'h option) \<Rightarrow> ('h \<Rightarrow> string \<Rightarrow> 'fn option) \<Rightarrow> string \<Rightarrow> string \<Rightarrow> string
     \<Rightarrow> ('h, 'fn) ModuleInfo option" where
  "load_module_info dlopen dlsym path name param =
    (case dlopen (path @ name) of None \<Rightarrow> None | Some h \<Rightarrow>
     case dlsym h ''load_module'' of None \<Rightarrow> None | Some load \<Rightarrow>
     case dlsym h ''unload_module'' of None \<Rightarrow> None | Some unload \<Rightarrow>
     case dlsym h ''do_module_message'' of None \<Rightarrow> None | Some do_msg \<Rightarrow>
     case dlsym h ''module_state'' of None \<Rightarrow> None | Some state \<Rightarrow>
     case dlsym h ''set_output'' of None \<Rightarrow> None | Some output \<Rightarrow>
       Some \<lparr> module_file_name = name, module_file_path = path, module_param = param, hModule = h,
         load_module_ptr = load, unload_module_ptr = unload, do_message_ptr = do_msg,
         get_module_state_ptr = state, set_output_ptr = output,
         module_run_ptr = dlsym h ''module_run'', command_id_list = [] \<rparr>)"

definition command_function :: "'fn CLogic_Command_Info \<Rightarrow> ('h, 'fn) ModuleInfo \<Rightarrow> 'h \<times> 'fn option" where
  "command_function ci m =
    (if lc_type ci = COMMAND_TYPE_NO_FN then (hModule m, Some (do_message_ptr m)) else (hModule m, logic_fn ci))"

definition add_command_to_module_function ::
  "'fn CLogic_Command_Info \<Rightarrow> ('h, 'fn) ModuleInfo \<Rightarrow> ('h, 'fn) CLoadModule \<Rightarrow> ('h, 'fn) CLoadModule" where
  "add_command_to_module_function ci m lm = lm \<lparr> command_to_module_function :=
     (command_to_module_function lm)(lc_command_id ci \<mapsto> command_function ci m) \<rparr>"

definition add_command_to_session_function ::
  "'fn CLogic_Command_Info \<Rightarrow> ('h, 'fn) ModuleInfo \<Rightarrow> ('h, 'fn) CLoadModule \<Rightarrow> ('h, 'fn) CLoadModule" where
  "add_command_to_session_function ci m lm = lm \<lparr> command_to_session_function :=
     (command_to_session_function lm)(lc_command_id ci \<mapsto> command_function ci m) \<rparr>"

definition add_command ::
  "('h, 'fn) ModuleInfo \<Rightarrow> 'fn CLogic_Command_Info \<Rightarrow> ('h, 'fn) CLoadModule \<Rightarrow> ('h, 'fn) CLoadModule" where
  "add_command m ci lm =
    (if logic_run_state ci = LOGIC_RUN_ASYNHRONOUS then add_command_to_module_function ci m lm
     else add_command_to_session_function ci m lm)"

definition load_plugin_module ::
  "(string \<Rightarrow> 'h option) \<Rightarrow> ('h \<Rightarrow> string \<Rightarrow> 'fn option) \<Rightarrow> ('fn \<Rightarrow> string \<Rightarrow> int \<times> 'fn CLogic_Command_Info list)
     \<Rightarrow> string \<Rightarrow> string \<Rightarrow> string \<Rightarrow> ('h, 'fn) CLoadModule \<Rightarrow> bool \<times> ('h, 'fn) CLoadModule" where
  "load_plugin_module dlopen dlsym run_load path name param lm =
    (case load_module_info dlopen dlsym path name param of
       None \<Rightarrow> (False, lm)
     | Some m \<Rightarrow>
         if module_list lm name \<noteq> None then (False, lm)
         else let (nRet, cmds) = run_load (load_module_ptr m) param in
           if nRet \<noteq> 0 then (False, lm)
           else let lm1 = fold (add_command m) cmds lm;
                    m1 = m \<lparr> command_id_list := map lc_command_id cmds \<rparr> in
             (True, lm1 \<lparr>
                plugin_name_to_module_run := (plugin_name_to_module_run lm1)(name \<mapsto> (hModule m, module_run_ptr m)),
                module_list := (module_list lm1)(name \<mapsto> m1),
                module_name_list := module_name_list lm1 @ [name] \<rparr>))"

definition delete_module_name_list :: "string \<Rightarrow> ('h, 'fn) CLoadModule \<Rightarrow> ('h, 'fn) CLoadModule" where
  "delete_module_name_list name lm = lm \<lparr> module_name_list := filter (\<lambda>n. n \<noteq> name) (module_name_list lm) \<rparr>"

definition unload_plugin_module :: "string \<Rightarrow> bool \<Rightarrow> ('h, 'fn) CLoadModule \<Rightarrow> bool \<times> ('h, 'fn) CLoadModule" where
  "unload_plugin_module name is_delete lm =
    (case module_list lm name of
       None \<Rightarrow> (False, lm)
     | Some m \<Rightarrow>
         let lm1 = lm \<lparr> command_to_module_function :=
               fold (\<lambda>k f. f(k := None)) (command_id_list m) (command_to_module_function lm),
               lm_dlclosed := hModule m # lm_dlclosed lm \<rparr> in
         if is_delete
         then (True, delete_module_name_list name (lm1 \<lparr> module_list := (module_list lm1)(name := None) \<rparr>))
         else (True, lm1))"

definition get_module_count :: "('h, 'fn) CLoadModule \<Rightarrow> nat" where
  "get_module_count lm = card (dom (module_list lm))"

definition find_module_info :: "string \<Rightarrow> ('h, 'fn) CLoadModule \<Rightarrow> ('h, 'fn) ModuleInfo option" where
  "find_module_info name lm = module_list lm name"

definition get_module_exist :: "string \<Rightarrow> ('h, 'fn) CLoadModule \<Rightarrow> bool" where
  "get_module_exist name lm = (case module_list lm name of Some _ \<Rightarrow> True | None \<Rightarrow> False)"

text \<open>For an unknown module the code builds a \<open>std::string\<close> from a null pointer, which throws: \<open>None\<close>.\<close>

definition get_module_param :: "string \<Rightarrow> ('h, 'fn) CLoadModule \<Rightarrow> string option" where
  "get_module_param name lm = (case module_list lm name of Some m \<Rightarrow> Some (module_param m) | None \<Rightarrow> None)"

definition get_module_file_path :: "string \<Rightarrow> ('h, 'fn) CLoadModule \<Rightarrow> string option" where
  "get_module_file_path name lm = (case module_list lm name of Some m \<Rightarrow> Some (module_file_path m) | None \<Rightarrow> None)"

definition get_all_module_name :: "('h, 'fn) CLoadModule \<Rightarrow> string list" where
  "get_all_module_name lm = module_name_list lm"

text \<open>
  \<open>plugin_in_name_to_module_run\<close>: the code to call, or -1 for an unknown module.  A
  null code pointer is called as it is: \<open>None\<close>.
\<close>

definition plugin_in_name_to_module_run ::
  "('fn \<Rightarrow> CMessage_Packet \<Rightarrow> CMessage_Packet \<Rightarrow> int \<times> CMessage_Packet) \<Rightarrow> string \<Rightarrow> CMessage_Packet \<Rightarrow> CMessage_Packet
     \<Rightarrow> ('h, 'fn) CLoadModule \<Rightarrow> (int \<times> CMessage_Packet) option" where
  "plugin_in_name_to_module_run call name send ret lm =
    (case plugin_name_to_module_run lm name of
       Some (h, Some fn) \<Rightarrow> Some (call fn send ret)
     | Some (h, None) \<Rightarrow> None
     | None \<Rightarrow> Some (- 1, ret))"

text \<open>\<open>Close\<close> visits the modules in the iteration order of the hash map, here \<open>order\<close>.\<close>

definition Close_modules :: "string list \<Rightarrow> ('h, 'fn) CLoadModule \<Rightarrow> ('h, 'fn) CLoadModule" where
  "Close_modules order lm = lm \<lparr> command_to_module_function := Map.empty, module_list := Map.empty,
     module_name_list := [],
     lm_dlclosed := List.map_filter (\<lambda>n. map_option hModule (module_list lm n)) order @ lm_dlclosed lm \<rparr>"


subsection \<open>Definitions: packet parsers\<close>

record ('h, 'fn) Packet_Parse_Info =
  m_u4PacketParseID :: u32
  m_hModule :: 'h
  packet_from_recv_buffer_ptr :: 'fn
  is_need_send_format_ptr :: 'fn
  parse_format_send_buffer_ptr :: 'fn
  packet_connect_ptr :: 'fn
  packet_disconnect_ptr :: 'fn
  packet_load_ptr :: 'fn
  packet_close_ptr :: 'fn
  packet_set_output_ptr :: 'fn

record ('h, 'fn) CLoadPacketParse =
  m_objPacketParseList :: "u32 \<rightharpoonup> ('h, 'fn) Packet_Parse_Info"
  lp_dlclosed :: "'h list"

text \<open>\<open>dispaly_error_message\<close> closes the library; the missing symbol's name is only logged.\<close>

definition dispaly_error_message :: "'h \<Rightarrow> ('h, 'fn) CLoadPacketParse \<Rightarrow> ('h, 'fn) CLoadPacketParse" where
  "dispaly_error_message h lp = lp \<lparr> lp_dlclosed := h # lp_dlclosed lp \<rparr>"

definition LoadPacketInfo ::
  "(string \<Rightarrow> 'h option) \<Rightarrow> ('h \<Rightarrow> string \<Rightarrow> 'fn option) \<Rightarrow> u32 \<Rightarrow> string \<Rightarrow> string
     \<Rightarrow> ('h, 'fn) CLoadPacketParse \<Rightarrow> bool \<times> ('h, 'fn) CLoadPacketParse" where
  "LoadPacketInfo dlopen dlsym parse_id path file lp =
    (case dlopen (path @ file) of None \<Rightarrow> (False, lp) | Some h \<Rightarrow>
     let fail = (False, dispaly_error_message h lp) in
     case dlsym h ''parse_packet_from_recv_buffer'' of None \<Rightarrow> fail | Some f1 \<Rightarrow>
     case dlsym h ''is_need_send_format'' of None \<Rightarrow> fail | Some f2 \<Rightarrow>
     case dlsym h ''parse_packet_format_send_buffer'' of None \<Rightarrow> fail | Some f3 \<Rightarrow>
     case dlsym h ''connect'' of None \<Rightarrow> fail | Some f4 \<Rightarrow>
     case dlsym h ''disconnect'' of None \<Rightarrow> fail | Some f5 \<Rightarrow>
     case dlsym h ''packet_load'' of None \<Rightarrow> fail | Some f6 \<Rightarrow>
     case dlsym h ''packet_close'' of None \<Rightarrow> fail | Some f7 \<Rightarrow>
     case dlsym h ''set_output'' of None \<Rightarrow> fail | Some f8 \<Rightarrow>
       (True, lp \<lparr> m_objPacketParseList := (m_objPacketParseList lp)(parse_id \<mapsto>
          \<lparr> m_u4PacketParseID = parse_id, m_hModule = h, packet_from_recv_buffer_ptr = f1,
            is_need_send_format_ptr = f2, parse_format_send_buffer_ptr = f3, packet_connect_ptr = f4,
            packet_disconnect_ptr = f5, packet_load_ptr = f6, packet_close_ptr = f7,
            packet_set_output_ptr = f8 \<rparr>) \<rparr>))"

definition GetPacketParseInfo :: "u32 \<Rightarrow> ('h, 'fn) CLoadPacketParse \<Rightarrow> ('h, 'fn) Packet_Parse_Info option" where
  "GetPacketParseInfo parse_id lp = m_objPacketParseList lp parse_id"

definition Close_parsers :: "u32 list \<Rightarrow> ('h, 'fn) CLoadPacketParse \<Rightarrow> ('h, 'fn) CLoadPacketParse" where
  "Close_parsers order lp = lp \<lparr> m_objPacketParseList := Map.empty,
     lp_dlclosed := List.map_filter (\<lambda>i. map_option m_hModule (m_objPacketParseList lp i)) order @ lp_dlclosed lp \<rparr>"

text \<open>The symbols a packet parser must export.\<close>

definition parser_symbols :: "string list" where
  "parser_symbols = [''parse_packet_from_recv_buffer'', ''is_need_send_format'', ''parse_packet_format_send_buffer'',
     ''connect'', ''disconnect'', ''packet_load'', ''packet_close'', ''set_output'']"

text \<open>Loading and unloading, with the outside world fixed by the first arguments.\<close>

datatype module_op = M_Load string string string | M_Unload string

fun module_apply ::
  "(string \<Rightarrow> 'h option) \<Rightarrow> ('h \<Rightarrow> string \<Rightarrow> 'fn option) \<Rightarrow> ('fn \<Rightarrow> string \<Rightarrow> int \<times> 'fn CLogic_Command_Info list)
     \<Rightarrow> module_op \<Rightarrow> ('h, 'fn) CLoadModule \<Rightarrow> ('h, 'fn) CLoadModule" where
  "module_apply dlopen dlsym run_load (M_Load path name param) lm =
     snd (load_plugin_module dlopen dlsym run_load path name param lm)"
| "module_apply dlopen dlsym run_load (M_Unload name) lm = snd (unload_plugin_module name True lm)"

text \<open>
  The names listed are those of the loaded modules, and every work-thread command
  belongs to a loaded module that lists it.
\<close>

definition modules_inv :: "('h, 'fn) CLoadModule \<Rightarrow> bool" where
  "modules_inv lm \<longleftrightarrow> distinct (module_name_list lm) \<and> set (module_name_list lm) = dom (module_list lm) \<and>
     (\<forall>k h fn. command_to_module_function lm k = Some (h, fn) \<longrightarrow>
        (\<exists>name m. module_list lm name = Some m \<and> hModule m = h \<and> k \<in> set (command_id_list m)))"


subsection \<open>Command tables\<close>

lemmas add_command_defs = add_command_def add_command_to_module_function_def add_command_to_session_function_def

lemma fold_add_command_fields [simp]:
  "module_list (fold (add_command m) cmds lm) = module_list lm"
  "module_name_list (fold (add_command m) cmds lm) = module_name_list lm"
  "plugin_name_to_module_run (fold (add_command m) cmds lm) = plugin_name_to_module_run lm"
  "lm_dlclosed (fold (add_command m) cmds lm) = lm_dlclosed lm"
  by (induction cmds arbitrary: lm) (simp_all add: add_command_defs)

lemma command_function_owner [simp]: "fst (command_function ci m) = hModule m"
  by (simp add: command_function_def)

lemma fold_add_command_owner:
  "command_to_module_function (fold (add_command m) cmds lm) k = Some (h, fn) \<Longrightarrow>
   command_to_module_function lm k = Some (h, fn) \<or> h = hModule m \<and> k \<in> lc_command_id ` set cmds"
proof (induction cmds arbitrary: lm)
  case (Cons ci cmds)
  hence "command_to_module_function (add_command m ci lm) k = Some (h, fn) \<or>
      h = hModule m \<and> k \<in> lc_command_id ` set cmds" by simp
  moreover have "command_to_module_function (add_command m ci lm) k = Some (h, fn) \<Longrightarrow>
      command_to_module_function lm k = Some (h, fn) \<or> h = hModule m \<and> k = lc_command_id ci"
    by (auto simp: add_command_defs command_function_def split: if_splits)
  ultimately show ?case by auto
qed simp

lemma fold_add_command_other:
  "\<forall>ci \<in> set cmds. lc_command_id ci \<noteq> k \<Longrightarrow>
   command_to_module_function (fold (add_command m) cmds lm) k = command_to_module_function lm k"
  "\<forall>ci \<in> set cmds. lc_command_id ci \<noteq> k \<Longrightarrow>
   command_to_session_function (fold (add_command m) cmds lm) k = command_to_session_function lm k"
  by (induction cmds arbitrary: lm) (auto simp: add_command_defs)

lemma fold_erase_keys: "fold (\<lambda>k f. f(k := None)) ks f x = (if x \<in> set ks then None else f x)"
  by (induction ks arbitrary: f) auto


subsection \<open>The registry stays consistent\<close>

lemma modules_inv_install:
  assumes inv: "modules_inv lm" and new: "module_list lm name = None"
  shows "modules_inv ((fold (add_command m) cmds lm) \<lparr> plugin_name_to_module_run := r,
      module_list := (module_list lm)(name \<mapsto> m \<lparr> command_id_list := map lc_command_id cmds \<rparr>),
      module_name_list := module_name_list lm @ [name] \<rparr>)"
proof -
  let ?mods = "(module_list lm)(name \<mapsto> m \<lparr> command_id_list := map lc_command_id cmds \<rparr>)"
  have "\<exists>n m'. ?mods n = Some m' \<and> hModule m' = h \<and> k \<in> set (command_id_list m')"
    if "command_to_module_function (fold (add_command m) cmds lm) k = Some (h, fn)" for k h fn
    using fold_add_command_owner [OF that]
  proof
    assume "command_to_module_function lm k = Some (h, fn)"
    with inv obtain n m' where "module_list lm n = Some m'" "hModule m' = h" "k \<in> set (command_id_list m')"
      unfolding modules_inv_def by meson
    with new show ?thesis by (intro exI [of _ n] exI [of _ m']) auto
  next
    assume "h = hModule m \<and> k \<in> lc_command_id ` set cmds"
    thus ?thesis by (intro exI [of _ name]) auto
  qed
  with inv new show ?thesis by (auto simp: modules_inv_def)
qed

lemma modules_inv_load: "modules_inv lm \<Longrightarrow> modules_inv (snd (load_plugin_module dlopen dlsym run_load path name param lm))"
  by (auto simp: load_plugin_module_def Let_def modules_inv_install split: option.splits prod.splits)

lemma modules_inv_unload: "modules_inv lm \<Longrightarrow> modules_inv (snd (unload_plugin_module name True lm))"
proof (cases "module_list lm name")
  case (Some m)
  assume inv: "modules_inv lm"
  have "\<exists>n. n \<noteq> name \<and> (\<exists>m'. module_list lm n = Some m' \<and> hModule m' = h \<and> k \<in> set (command_id_list m'))"
    if k: "k \<notin> set (command_id_list m)" "command_to_module_function lm k = Some (h, fn)" for k h fn
  proof -
    obtain n m' where n: "module_list lm n = Some m'" "hModule m' = h" "k \<in> set (command_id_list m')"
      using inv k(2) unfolding modules_inv_def by meson
    with Some k(1) have "n \<noteq> name" by auto
    with n show ?thesis by auto
  qed
  with inv Some show ?thesis
    by (auto simp: modules_inv_def unload_plugin_module_def delete_module_name_list_def Let_def fold_erase_keys
        split: if_splits) meson
qed (simp add: unload_plugin_module_def)

lemma modules_inv_apply: "modules_inv lm \<Longrightarrow> modules_inv (module_apply dlopen dlsym run_load x lm)"
  by (cases x) (simp_all add: modules_inv_load modules_inv_unload)

lemma modules_inv_fold: "modules_inv lm \<Longrightarrow> modules_inv (fold (module_apply dlopen dlsym run_load) xs lm)"
  by (induction xs arbitrary: lm) (simp_all add: modules_inv_apply)


subsection \<open>Properties\<close>


text \<open>
  A successful load installs every command the plugin registered: the last
  registration of an asynchronous (synchronous) command is in the work-thread
  (session) table, with the function given or else the plugin's
  \<open>do_module_message\<close>.
\<close>

theorem load_installs_commands:
  assumes "load_plugin_module dlopen dlsym run_load path name param lm = (True, lm')"
    and "load_module_info dlopen dlsym path name param = Some m"
    and "run_load (load_module_ptr m) param = (0, pre @ ci # post)"
    and "\<forall>c \<in> set post. lc_command_id c \<noteq> lc_command_id ci"
  shows "(if logic_run_state ci = LOGIC_RUN_ASYNHRONOUS
          then command_to_module_function lm' (lc_command_id ci)
          else command_to_session_function lm' (lc_command_id ci)) = Some (command_function ci m)"
proof -
  let ?f = "\<lambda>cs. fold (add_command m) cs"
  have "command_to_module_function lm' = command_to_module_function (?f post (add_command m ci (?f pre lm)))"
    "command_to_session_function lm' = command_to_session_function (?f post (add_command m ci (?f pre lm)))"
    using assms(1-3) by (auto simp: load_plugin_module_def Let_def split: if_splits)
  thus ?thesis
    using assms(4) by (simp add: fold_add_command_other) (simp add: add_command_defs)
qed

theorem load_installs_commands_witness:
  "let dlopen = (\<lambda>_. Some (1 :: nat)); dlsym = (\<lambda>_ s. Some s);
       run_load = (\<lambda>_ _. (0 :: int, Regedit_command 5 LOGIC_RUN_ASYNHRONOUS [])) in
   command_to_module_function (snd (load_plugin_module dlopen dlsym run_load ''./'' ''a.so'' [] CLoadModule_init)) 5
     = Some (1, Some ''do_module_message'')"
proof -
  let ?dlopen = "\<lambda>_ :: string. Some (1 :: nat)" and ?dlsym = "\<lambda>(_ :: nat) s :: string. Some s"
  let ?ci = "\<lparr> logic_run_state = LOGIC_RUN_ASYNHRONOUS, lc_type = COMMAND_TYPE_NO_FN, lc_command_id = 5 :: u16,
    logic_fn = None :: string option \<rparr>"
  let ?run = "\<lambda>(_ :: string) (_ :: string). (0 :: int, Regedit_command 5 LOGIC_RUN_ASYNHRONOUS []
    :: string CLogic_Command_Info list)"
  have 1: "load_plugin_module ?dlopen ?dlsym ?run ''./'' ''a.so'' [] CLoadModule_init
      = (True, snd (load_plugin_module ?dlopen ?dlsym ?run ''./'' ''a.so'' [] CLoadModule_init))"
    by (simp add: load_plugin_module_def load_module_info_def Let_def CLoadModule_init_def)
  obtain m where 2: "load_module_info ?dlopen ?dlsym ''./'' ''a.so'' [] = Some m" "hModule m = 1"
    "do_message_ptr m = ''do_module_message''"
    by (simp add: load_module_info_def)
  have 3: "?run (load_module_ptr m) [] = (0, [] @ ?ci # [])" by (simp add: Regedit_command_def)
  from load_installs_commands [OF 1 2(1) 3] 2 show ?thesis
    by (simp add: Let_def command_function_def)
qed

text \<open>
  A packet parser is registered all or nothing: loading succeeds exactly when
  the library opens and exports all eight entry points; otherwise the parser table
  is unchanged, and a library that was opened is closed again.
\<close>

theorem packet_parser_all_or_nothing:
  "(fst (LoadPacketInfo dlopen dlsym i path file lp) \<longleftrightarrow>
      (\<exists>h. dlopen (path @ file) = Some h \<and> (\<forall>s \<in> set parser_symbols. dlsym h s \<noteq> None))) \<and>
   (if fst (LoadPacketInfo dlopen dlsym i path file lp)
    then GetPacketParseInfo i (snd (LoadPacketInfo dlopen dlsym i path file lp)) \<noteq> None
    else m_objPacketParseList (snd (LoadPacketInfo dlopen dlsym i path file lp)) = m_objPacketParseList lp \<and>
         (\<forall>h. dlopen (path @ file) = Some h \<longrightarrow>
            lp_dlclosed (snd (LoadPacketInfo dlopen dlsym i path file lp)) = h # lp_dlclosed lp))"
  by (cases "dlopen (path @ file)")
    (auto simp: LoadPacketInfo_def Let_def parser_symbols_def dispaly_error_message_def GetPacketParseInfo_def
      split: option.splits)

theorem packet_parser_all_or_nothing_witness:
  "fst (LoadPacketInfo (\<lambda>_. Some (1 :: nat)) (\<lambda>_ s. Some s) 3 ''./'' ''p.so''
     \<lparr> m_objPacketParseList = Map.empty, lp_dlclosed = [] \<rparr>) \<and>
   lp_dlclosed (snd (LoadPacketInfo (\<lambda>_. Some (1 :: nat)) (\<lambda>_ s. if s = ''connect'' then None else Some s) 3 ''./'' ''p.so''
     \<lparr> m_objPacketParseList = Map.empty, lp_dlclosed = [] \<rparr>)) = [1]"
  using packet_parser_all_or_nothing [of "\<lambda>_. Some (1 :: nat)" "\<lambda>_ s. Some s" 3 "''./''" "''p.so''"
      "\<lparr> m_objPacketParseList = Map.empty, lp_dlclosed = [] \<rparr>"]
    packet_parser_all_or_nothing [of "\<lambda>_. Some (1 :: nat)" "\<lambda>_ s. if s = ''connect'' then None else Some s"
      3 "''./''" "''p.so''" "\<lparr> m_objPacketParseList = Map.empty, lp_dlclosed = [] \<rparr>"]
  by (auto simp: parser_symbols_def)

text \<open>
  Unloading a plugin leaves its synchronous handlers behind: the session
  table still points into the library that was just closed.
\<close>

theorem unload_keeps_synchronous_handlers:
  assumes "module_list lm name = Some m" "command_to_session_function lm k = Some (hModule m, fn)"
  shows "command_to_session_function (snd (unload_plugin_module name True lm)) k = Some (hModule m, fn) \<and>
     hModule m \<in> set (lm_dlclosed (snd (unload_plugin_module name True lm)))"
  using assms by (simp add: unload_plugin_module_def delete_module_name_list_def Let_def)

theorem unload_keeps_synchronous_handlers_witness:
  "let lm = snd (load_plugin_module (\<lambda>_. Some (1 :: nat)) (\<lambda>_ s. Some s)
         (\<lambda>_ _. (0, Regedit_command 5 LOGIC_RUN_SYNCHRONOUS [])) ''./'' ''a.so'' [] CLoadModule_init) in
   command_to_session_function (snd (unload_plugin_module ''a.so'' True lm)) 5 = Some (1, Some ''do_module_message'')"
proof -
  let ?lm = "snd (load_plugin_module (\<lambda>_. Some (1 :: nat)) (\<lambda>_ s. Some s)
    (\<lambda>_ _. (0, Regedit_command 5 LOGIC_RUN_SYNCHRONOUS [])) ''./'' ''a.so'' [] CLoadModule_init)"
  obtain m where "module_list ?lm ''a.so'' = Some m" "hModule m = 1"
    "command_to_session_function ?lm 5 = Some (hModule m, Some ''do_module_message'')"
    by (simp add: load_plugin_module_def load_module_info_def Let_def CLoadModule_init_def Regedit_command_def
        add_command_defs command_function_def)
  thus ?thesis using unload_keeps_synchronous_handlers [of ?lm "''a.so''" m 5] by (simp add: Let_def)
qed

end
