(* ===== verification/Work_Thread.thy ===== *)
theory Work_Thread
  imports Session_Buffer Session_Interface Io_Bridge Communication Tms "HOL-Library.Monad_Syntax"
begin

text \<open>
  \<open>CWorkThreadLogic\<close> connects everything: sessions hand it parsed messages, it runs
  the synchronous handlers at once, and posts the rest to the task thread
  \<open>connect_id % thread_count\<close>, whose plugin logic answers through the session.

  A plugin handler is a function from the source, the received packet and the
  send packet to its return value and the send packet it leaves.  The sessions are
  handles of type \<open>'s\<close>; what the dispatcher asks of them is the record
  \<open>session_ops\<close>, and what it makes them do is appended to \<open>wt_out\<close>.  The lambdas the
  code posts to the task threads are values of the datatype \<open>wt_task\<close>, run by
  \<open>run_task\<close>.  A subscript outside \<open>thread_module_list_\<close> is undefined: \<open>None\<close>.
\<close>


section \<open>Dispatching messages to work threads (Message/ModuleLogic, SyncLogic, ModuleInterfalce)\<close>


subsection \<open>Definitions: handlers\<close>

type_synonym handler = "CMessage_Source \<Rightarrow> CMessage_Packet \<Rightarrow> CMessage_Packet \<Rightarrow> int \<times> CMessage_Packet"

type_synonym handlers = "u16 \<rightharpoonup> handler"

text \<open>A fresh \<open>CMessage_Packet\<close>; its command id is not initialised, here \<open>0\<close>.\<close>

definition new_packet :: CMessage_Packet where
  "new_packet = \<lparr> msg_param_arg = [], msg_buffer = [], msg_command_id = 0 \<rparr>"

definition do_sync_message ::
  "handlers \<Rightarrow> u16 \<Rightarrow> CMessage_Source \<Rightarrow> CMessage_Packet \<Rightarrow> CMessage_Packet \<Rightarrow> bool \<times> CMessage_Packet" where
  "do_sync_message tab command_id source recv send =
    (case tab command_id of
       None \<Rightarrow> (False, send)
     | Some f \<Rightarrow> (True, snd (f source recv send)))"

text \<open>\<open>remove_if\<close> with the handler call as its predicate: the messages kept and the send packet.\<close>

fun remove_sync ::
  "handlers \<Rightarrow> CMessage_Source \<Rightarrow> CMessage_Packet list \<Rightarrow> CMessage_Packet \<Rightarrow> CMessage_Packet list \<times> CMessage_Packet" where
  "remove_sync tab source [] send = ([], send)"
| "remove_sync tab source (m # ms) send =
     (let (done, send1) = do_sync_message tab (msg_command_id m) source m send;
          (rest, send2) = remove_sync tab source ms send1 in
      (if done then rest else m # rest, send2))"

text \<open>The test of \<open>size() == 0\<close> only saves the traversal; the table is a partial function here.\<close>

definition do_sync_message_list ::
  "handlers \<Rightarrow> CMessage_Source \<Rightarrow> CMessage_Packet list \<Rightarrow> CMessage_Packet \<Rightarrow> CMessage_Packet list \<times> CMessage_Packet" where
  "do_sync_message_list tab source ms send = remove_sync tab source ms send"

definition do_module_message ::
  "handlers \<Rightarrow> CMessage_Source \<Rightarrow> CMessage_Packet \<Rightarrow> CMessage_Packet \<Rightarrow> int \<times> CMessage_Packet" where
  "do_module_message tab source recv send =
    (case tab (msg_command_id recv) of
       Some f \<Rightarrow> f source recv send
     | None \<Rightarrow> (- 1, send))"


subsection \<open>Definitions: one work thread\<close>

datatype ENUM_WORK_THREAD_STATE = WORK_THREAD_INIT | WORK_THREAD_BEGIN | WORK_THREAD_END

record 's CModuleLogic =
  sessions_interface :: "'s CSessionInterface"
  modules_interface :: handlers
  work_thread_id :: u16
  last_dispose_command_id :: u16
  work_thread_state :: ENUM_WORK_THREAD_STATE
  work_thread_run_time :: int

text \<open>The constructor and \<open>init_logic\<close>, at time \<open>now\<close>.\<close>

definition init_logic :: "int \<Rightarrow> handlers \<Rightarrow> u16 \<Rightarrow> 's CModuleLogic" where
  "init_logic now tab i = \<lparr> sessions_interface = start_check now CSessionInterface_init, modules_interface = tab,
     work_thread_id = i, last_dispose_command_id = 0, work_thread_state = WORK_THREAD_INIT,
     work_thread_run_time = now \<rparr>"

definition ml_add_session ::
  "u32 \<Rightarrow> 's \<Rightarrow> ClientIPInfo \<Rightarrow> ClientIPInfo \<Rightarrow> 's CModuleLogic \<Rightarrow> 's CModuleLogic" where
  "ml_add_session connect_id s l r m = m \<lparr> sessions_interface :=
     add_session_interface connect_id s l r (sessions_interface m) \<rparr>"

definition ml_get_session :: "u32 \<Rightarrow> 's CModuleLogic \<Rightarrow> 's option" where
  "ml_get_session connect_id m = get_session_interface connect_id (sessions_interface m)"

definition ml_delete_session :: "u32 \<Rightarrow> 's CModuleLogic \<Rightarrow> 's CModuleLogic" where
  "ml_delete_session connect_id m = m \<lparr> sessions_interface :=
     delete_session_interface connect_id (sessions_interface m) \<rparr>"

definition ml_close :: "'s CModuleLogic \<Rightarrow> 's CModuleLogic" where
  "ml_close m = m \<lparr> modules_interface := Map.empty \<rparr>"

text \<open>
  \<open>do_thread_module_logic\<close> in two parts: the state while the handler runs, and the
  state after it returned at time \<open>now\<close>.
\<close>

definition begin_module_logic :: "CMessage_Packet \<Rightarrow> 's CModuleLogic \<Rightarrow> 's CModuleLogic" where
  "begin_module_logic recv m = m \<lparr> last_dispose_command_id := msg_command_id recv,
     work_thread_state := WORK_THREAD_BEGIN \<rparr>"

definition do_thread_module_logic ::
  "int \<Rightarrow> CMessage_Source \<Rightarrow> CMessage_Packet \<Rightarrow> CMessage_Packet \<Rightarrow> 's CModuleLogic
     \<Rightarrow> (int \<times> CMessage_Packet) \<times> 's CModuleLogic" where
  "do_thread_module_logic now source recv send m =
    (let m1 = begin_module_logic recv m;
         ret = do_module_message (modules_interface m1) source recv send in
     (ret, m1 \<lparr> work_thread_state := WORK_THREAD_END, work_thread_run_time := now \<rparr>))"

definition get_work_thread_timeout :: "int \<Rightarrow> 's CModuleLogic \<Rightarrow> int" where
  "get_work_thread_timeout now m =
    (if work_thread_state m = WORK_THREAD_BEGIN then (now - work_thread_run_time m) div 10 ^ 9 else 0)"


subsection \<open>Definitions: the dispatcher\<close>

record 's session_ops =
  so_io_type :: "'s \<Rightarrow> EM_CONNECT_IO_TYPE"
  so_mark_id :: "'s \<Rightarrow> u32 \<Rightarrow> u32"
  so_recv_time :: "'s \<Rightarrow> u32 \<Rightarrow> int"
  so_is_need_send_format :: "'s \<Rightarrow> bool"
  so_format_send_packet :: "'s \<Rightarrow> u32 \<Rightarrow> CMessage_Packet \<Rightarrow> CMessage_Packet option"

datatype 's io_effect =
    Do_Write_Immediately 's u32 bytes
  | Set_Write_Buffer 's u32 bytes
  | Do_Write 's u32
  | Close_Session 's u32

datatype 's wt_task =
    T_Module_Logic 's u32 "CMessage_Packet list" nat
  | T_Message CMessage_Source CMessage_Packet nat
  | T_Close_Session u32 "'s option"
  | T_Delivery u32 CMessage_Packet nat
  | T_Frame_Events u16 u32 string u16 EM_CONNECT_IO_TYPE
  | T_Plugin_Message string CMessage_Packet nat
  | T_Idle_Check u32 nat
  | T_Close_All nat
  | T_Run_Check u32
  | T_Function nat

text \<open>
  Plugin messages and functions submitted before start-up, and the lambdas that
  wait in the timer manager.  The lambda of a message holds the logic of its
  thread, here the index of that object in \<open>plugin_logic_objects\<close>.
\<close>

record CDelayPluginMessage =
  pm_tag_thread_id :: u16
  pm_message_tag :: string
  pm_send_packet :: CMessage_Packet
  pm_delay_timer :: CFrame_Message_Delay

record CDelayPluginFunc =
  pf_tag_thread_id :: u16
  pf_delay_timer :: CFrame_Message_Delay
  pf_func :: nat

datatype timer_lambda =
    Timer_Message nat string CMessage_Packet CFrame_Message_Delay
  | Timer_Function u16 nat CFrame_Message_Delay
  | Timer_Check u32

record 's CWorkThreadLogic =
  thread_module_list :: "'s CModuleLogic list"
  wt_module_functions :: handlers
  wt_sync_functions :: handlers
  thread_count :: u16
  module_init_finish :: bool
  plugin_work_thread_buffer_list :: "u32 list"
  plugin_work_thread_buffer_message_list :: "CDelayPluginMessage list"
  plugin_work_thread_buffer_Func_list :: "CDelayPluginFunc list"
  plugin_logic_objects :: "'s CModuleLogic list"
  plugin_work_thread_list :: "u32 \<rightharpoonup> nat"
  plgin_timer_list :: "u64 \<rightharpoonup> nat"
  wt_connect_timeout :: u32
  wt_timers :: "timer_lambda TimerMgr"
  wt_tms :: "'s wt_task TMS"
  wt_bridge :: "'s CIoBridge"
  wt_comm :: "'s CCommunicationService"
  wt_out :: "'s io_effect list"

text \<open>\<open>connect_id % thread_count_\<close>; a zero count divides by zero.\<close>

definition thread_index :: "u32 \<Rightarrow> 's CWorkThreadLogic \<Rightarrow> nat option" where
  "thread_index connect_id w =
    (if thread_count w = 0 then None else Some (unat connect_id mod unat (thread_count w)))"

definition thread_logic :: "nat \<Rightarrow> 's CWorkThreadLogic \<Rightarrow> 's CModuleLogic option" where
  "thread_logic i w = (if i < length (thread_module_list w) then Some (thread_module_list w ! i) else None)"

definition set_thread :: "nat \<Rightarrow> 's CModuleLogic \<Rightarrow> 's CWorkThreadLogic \<Rightarrow> 's CWorkThreadLogic" where
  "set_thread i m w = w \<lparr> thread_module_list := (thread_module_list w)[i := m] \<rparr>"

definition emit :: "'s io_effect list \<Rightarrow> 's CWorkThreadLogic \<Rightarrow> 's CWorkThreadLogic" where
  "emit es w = w \<lparr> wt_out := wt_out w @ es \<rparr>"

text \<open>\<open>App_tms::instance()->AddMessage(i, task)\<close>.\<close>

definition post :: "nat \<Rightarrow> 's wt_task \<Rightarrow> 's CWorkThreadLogic \<Rightarrow> 's CWorkThreadLogic" where
  "post i task w = w \<lparr> wt_tms := snd (AddMessage (of_nat i) task (wt_tms w)) \<rparr>"

definition connect_source ::
  "'s session_ops \<Rightarrow> u32 \<Rightarrow> 's \<Rightarrow> u16 \<Rightarrow> ClientIPInfo \<Rightarrow> ClientIPInfo \<Rightarrow> CMessage_Source" where
  "connect_source S connect_id s thread l r = \<lparr> src_work_thread_id = thread, src_connect_id = connect_id,
     src_connect_mark_id = so_mark_id S s connect_id, src_type = so_io_type S s,
     src_local_ip = l, src_remote_ip = r \<rparr>"

definition add_thread_session ::
  "'s session_ops \<Rightarrow> u32 \<Rightarrow> 's \<Rightarrow> ClientIPInfo \<Rightarrow> ClientIPInfo \<Rightarrow> 's CWorkThreadLogic \<Rightarrow> 's CWorkThreadLogic option" where
  "add_thread_session S connect_id s l r w = do {
     i \<leftarrow> thread_index connect_id w;
     m \<leftarrow> thread_logic i w;
     let server_id = so_mark_id S s connect_id;
     let w1 = (if server_id > 0 then w \<lparr> wt_comm := set_connect_id server_id connect_id (wt_comm w) \<rparr> else w);
     let w2 = set_thread i (ml_add_session connect_id s l r m) w1;
     let source = connect_source S connect_id s (work_thread_id m) l r;
     let recv = new_packet \<lparr> msg_command_id := LOGIC_COMMAND_CONNECT \<rparr>;
     let w3 = w2 \<lparr> wt_bridge := regedit_bridge_session_info r (so_io_type S s) connect_id s (wt_bridge w2) \<rparr>;
     let (sync, send) = do_sync_message (wt_sync_functions w3) (msg_command_id recv) source recv new_packet;
     Some (if sync
           then (if length (msg_buffer send) > 0
                 then emit [Do_Write_Immediately s connect_id (msg_buffer send)] w3 else w3)
           else post i (T_Message source recv i) w3) }"

definition delete_thread_session ::
  "'s session_ops \<Rightarrow> u32 \<Rightarrow> 's \<Rightarrow> ClientIPInfo \<Rightarrow> EM_CONNECT_IO_TYPE \<Rightarrow> 's CWorkThreadLogic \<Rightarrow> 's CWorkThreadLogic option" where
  "delete_thread_session S connect_id s l io_type w = do {
     i \<leftarrow> thread_index connect_id w;
     m \<leftarrow> thread_logic i w;
     let server_id = so_mark_id S s connect_id;
     let w1 = (if server_id > 0 then w \<lparr> wt_comm := set_connect_id server_id 0 (wt_comm w) \<rparr> else w);
     let w2 = set_thread i (ml_delete_session connect_id m) w1;
     let w3 = w2 \<lparr> wt_bridge := unregedit_bridge_session_info l io_type connect_id (wt_bridge w2) \<rparr>;
     let recv = new_packet \<lparr> msg_command_id := LOGIC_COMMAND_DISCONNECT \<rparr>;
     let source = CMessage_Source_default \<lparr> src_connect_id := connect_id, src_work_thread_id := work_thread_id m,
       src_type := io_type, src_connect_mark_id := server_id \<rparr>;
     let (sync, send) = do_sync_message (wt_sync_functions w3) (msg_command_id recv) source recv new_packet;
     Some (if sync then w3 else post i (T_Message source recv i) w3) }"

definition close_session_event :: "u32 \<Rightarrow> 's option \<Rightarrow> 's CWorkThreadLogic \<Rightarrow> 's CWorkThreadLogic option" where
  "close_session_event connect_id s w = do {
     i \<leftarrow> thread_index connect_id w;
     m \<leftarrow> thread_logic i w;
     Some (post i (T_Close_Session connect_id s) w) }"

definition assignation_thread_module_logic ::
  "'s session_ops \<Rightarrow> u32 \<Rightarrow> CMessage_Packet list \<Rightarrow> 's \<Rightarrow> 's CWorkThreadLogic \<Rightarrow> 's CWorkThreadLogic option" where
  "assignation_thread_module_logic S connect_id message_list s w = do {
     let source = CMessage_Source_default \<lparr> src_connect_id := connect_id, src_type := so_io_type S s,
       src_connect_mark_id := so_mark_id S s connect_id \<rparr>;
     let (rest, send) = do_sync_message_list (wt_sync_functions w) source message_list new_packet;
     let w1 = (if length (msg_buffer send) > 0
               then emit [Do_Write_Immediately s connect_id (msg_buffer send)] w else w);
     if length rest > 0 then do {
       i \<leftarrow> thread_index connect_id w1;
       m \<leftarrow> thread_logic i w1;
       Some (post i (T_Module_Logic s connect_id rest i) w1) }
     else Some w1 }"

definition assignation_thread_module_logic_iotoio_error ::
  "u32 \<Rightarrow> CMessage_Packet list \<Rightarrow> 's \<Rightarrow> 's CWorkThreadLogic \<Rightarrow> 's CWorkThreadLogic option" where
  "assignation_thread_module_logic_iotoio_error connect_id message_list s w = do {
     i \<leftarrow> thread_index connect_id w;
     m \<leftarrow> thread_logic i w;
     let message_list_iotoio = map (\<lambda>p. p \<lparr> msg_command_id := LOGIC_IOTOIO_CONNECT_NO_EXIST \<rparr>) message_list;
     Some (post i (T_Module_Logic s connect_id message_list_iotoio i) w) }"

definition assignation_thread_module_logic_with_events ::
  "u32 \<Rightarrow> CMessage_Packet list \<Rightarrow> 's \<Rightarrow> 's CWorkThreadLogic \<Rightarrow> 's CWorkThreadLogic option" where
  "assignation_thread_module_logic_with_events connect_id message_list s w = do {
     i \<leftarrow> thread_index connect_id w;
     m \<leftarrow> thread_logic i w;
     Some (post i (T_Module_Logic s connect_id message_list i) w) }"

text \<open>
  The loop of \<open>do_work_thread_module_logic\<close>: the thread logic afterwards and the
  bytes collected in \<open>send_packet.buffer_\<close>.
\<close>

fun module_logic_loop ::
  "'s session_ops \<Rightarrow> int \<Rightarrow> CMessage_Source \<Rightarrow> u32 \<Rightarrow> CMessage_Packet list \<Rightarrow> 's CModuleLogic \<Rightarrow> bytes
     \<Rightarrow> 's CModuleLogic \<times> bytes" where
  "module_logic_loop S now source connect_id [] m out = (m, out)"
| "module_logic_loop S now source connect_id (recv # ms) m out =
     (let ((ret, send), m1) = do_thread_module_logic now source recv new_packet m in
      if length (msg_buffer send) = 0 then module_logic_loop S now source connect_id ms m1 out
      else case ml_get_session connect_id m1 of
        None \<Rightarrow> module_logic_loop S now source connect_id ms m1 out
      | Some io_session \<Rightarrow>
          if so_is_need_send_format S io_session
          then (case so_format_send_packet S io_session connect_id send of
                  Some fmt \<Rightarrow> module_logic_loop S now source connect_id ms m1 (out @ msg_buffer fmt)
                | None \<Rightarrow> module_logic_loop S now source connect_id ms m1 out)
          else module_logic_loop S now source connect_id ms m1 (out @ msg_buffer send))"

definition do_work_thread_module_logic ::
  "'s session_ops \<Rightarrow> int \<Rightarrow> 's \<Rightarrow> u32 \<Rightarrow> CMessage_Packet list \<Rightarrow> nat \<Rightarrow> 's CWorkThreadLogic \<Rightarrow> 's CWorkThreadLogic option" where
  "do_work_thread_module_logic S now s connect_id message_list i w = do {
     m \<leftarrow> thread_logic i w;
     let source = CMessage_Source_default \<lparr> src_connect_id := connect_id, src_work_thread_id := work_thread_id m,
       src_type := so_io_type S s, src_connect_mark_id := so_mark_id S s connect_id \<rparr>;
     let (m1, out) = module_logic_loop S now source connect_id message_list m [];
     let w1 = set_thread i m1 w;
     Some (if length out > 0 then emit [Set_Write_Buffer s connect_id out, Do_Write s connect_id] w1 else w1) }"

definition do_io_message_delivery ::
  "'s session_ops \<Rightarrow> 's session_starter \<Rightarrow> bool \<Rightarrow> u32 \<Rightarrow> CMessage_Packet \<Rightarrow> nat \<Rightarrow> 's CWorkThreadLogic
     \<Rightarrow> 's CWorkThreadLogic option" where
  "do_io_message_delivery S start_session ssl connect_id send i w = do {
     m \<leftarrow> thread_logic i w;
     Some (case ml_get_session connect_id m of
       Some s \<Rightarrow>
         if so_is_need_send_format S s
         then (case so_format_send_packet S s connect_id send of
                 None \<Rightarrow> w
               | Some fmt \<Rightarrow> emit [Do_Write_Immediately s connect_id (msg_buffer fmt)] w)
         else emit [Do_Write_Immediately s connect_id (msg_buffer send)] w
     | None \<Rightarrow>
         let server_id = get_server_id connect_id (wt_comm w) in
         if server_id > 0
         then w \<lparr> wt_comm := reset_connect start_session ssl server_id (wt_comm w) \<rparr> else w) }"

definition do_work_thread_frame_events ::
  "int \<Rightarrow> u16 \<Rightarrow> u32 \<Rightarrow> string \<Rightarrow> u16 \<Rightarrow> EM_CONNECT_IO_TYPE \<Rightarrow> 's CWorkThreadLogic \<Rightarrow> 's CWorkThreadLogic option" where
  "do_work_thread_frame_events now command_id mark_id remote_ip remote_port io_type w = do {
     m \<leftarrow> thread_logic 0 w;
     let recv = new_packet \<lparr> msg_command_id := command_id \<rparr>;
     let src0 = CMessage_Source_default;
     let src1 = (if command_id = LOGIC_CONNECT_SERVER_ERROR
       then src0 \<lparr> src_connect_id := 0, src_work_thread_id := work_thread_id m, src_connect_mark_id := mark_id,
              src_remote_ip := ClientIPInfo remote_ip remote_port \<rparr>
       else if command_id = LOGIC_LISTEN_SERVER_ERROR
       then src0 \<lparr> src_connect_id := 0, src_work_thread_id := work_thread_id m, src_connect_mark_id := mark_id,
              src_local_ip := ClientIPInfo remote_ip remote_port \<rparr>
       else src0);
     let source = src1 \<lparr> src_type := io_type \<rparr>;
     Some (set_thread 0 (snd (do_thread_module_logic now source recv new_packet m)) w) }"

definition add_frame_events ::
  "u16 \<Rightarrow> u32 \<Rightarrow> string \<Rightarrow> u16 \<Rightarrow> EM_CONNECT_IO_TYPE \<Rightarrow> 's CWorkThreadLogic \<Rightarrow> 's CWorkThreadLogic" where
  "add_frame_events command_id mark_id remote_ip remote_port io_type w =
     post 0 (T_Frame_Events command_id mark_id remote_ip remote_port io_type) w"

text \<open>\<open>do_plugin_thread_module_logic\<close> for the logic object \<open>k\<close>: posted to the thread with the id it carries.\<close>

definition plugin_logic :: "nat \<Rightarrow> 's CWorkThreadLogic \<Rightarrow> 's CModuleLogic option" where
  "plugin_logic k w = (if k < length (plugin_logic_objects w) then Some (plugin_logic_objects w ! k) else None)"

definition do_plugin_thread_module_logic ::
  "nat \<Rightarrow> string \<Rightarrow> CMessage_Packet \<Rightarrow> 's CWorkThreadLogic \<Rightarrow> 's CWorkThreadLogic option" where
  "do_plugin_thread_module_logic k message_tag recv w = do {
     m \<leftarrow> plugin_logic k w;
     Some (post (unat (work_thread_id m)) (T_Plugin_Message message_tag recv k) w) }"

definition run_plugin_message ::
  "int \<Rightarrow> string \<Rightarrow> CMessage_Packet \<Rightarrow> nat \<Rightarrow> 's CWorkThreadLogic \<Rightarrow> 's CWorkThreadLogic option" where
  "run_plugin_message now message_tag recv k w = do {
     m \<leftarrow> plugin_logic k w;
     let source = CMessage_Source_default \<lparr> src_work_thread_id := work_thread_id m,
       src_remote_ip := ClientIPInfo message_tag (m_u2Port ClientIPInfo_default),
       src_type := CONNECT_IO_FRAME \<rparr>;
     Some (w \<lparr> plugin_logic_objects := (plugin_logic_objects w)[k :=
       snd (do_thread_module_logic now source recv new_packet m)] \<rparr>) }"

text \<open>The body \<open>create_frame_work_thread\<close> shares with start-up.\<close>

definition new_plugin_thread :: "int \<Rightarrow> string \<Rightarrow> u32 \<Rightarrow> 's CWorkThreadLogic \<Rightarrow> 's CWorkThreadLogic" where
  "new_plugin_thread now tid thread_id w =
     w \<lparr> plugin_logic_objects := plugin_logic_objects w @ [init_logic now (wt_module_functions w) (ucast thread_id)],
         plugin_work_thread_list := (plugin_work_thread_list w)(thread_id \<mapsto> length (plugin_logic_objects w)),
         wt_tms := snd (CreateLogic tid thread_id (wt_tms w)) \<rparr>"

definition create_frame_work_thread ::
  "int \<Rightarrow> string \<Rightarrow> u32 \<Rightarrow> 's CWorkThreadLogic \<Rightarrow> bool \<times> 's CWorkThreadLogic" where
  "create_frame_work_thread now tid thread_id w =
    (if thread_id < ucast (thread_count w) then (False, w)
     else if \<not> module_init_finish w
     then (True, w \<lparr> plugin_work_thread_buffer_list := plugin_work_thread_buffer_list w @ [thread_id] \<rparr>)
     else case plugin_work_thread_list w thread_id of
       Some _ \<Rightarrow> (False, w)
     | None \<Rightarrow> (True, new_plugin_thread now tid thread_id w))"

text \<open>\<open>close_frame_work_thread\<close> empties the handlers of the logic object, which lambdas may still hold.\<close>

definition close_frame_work_thread :: "u32 \<Rightarrow> 's CWorkThreadLogic \<Rightarrow> bool \<times> 's CWorkThreadLogic" where
  "close_frame_work_thread thread_id w =
    (if thread_id < ucast (thread_count w) then (False, w)
     else case plugin_work_thread_list w thread_id of
       Some k \<Rightarrow> (True, w \<lparr> plugin_logic_objects := (plugin_logic_objects w)[k := ml_close (plugin_logic_objects w ! k)],
         plugin_work_thread_list := (plugin_work_thread_list w)(thread_id := None) \<rparr>)
     | None \<Rightarrow> (False, w))"

text \<open>\<open>timer.lock()\<close>: the timer object lives as long as the manager's queue refers to it.\<close>

definition delete_frame_message_timer :: "u64 \<Rightarrow> 's CWorkThreadLogic \<Rightarrow> bool \<times> 's CWorkThreadLogic" where
  "delete_frame_message_timer timer_id w =
    (case plgin_timer_list w timer_id of
       Some k \<Rightarrow> (True, w \<lparr> wt_timers := (if k \<in> set (mTimers (wt_timers w))
           then cancel_timer k (wt_timers w) else wt_timers w),
         plgin_timer_list := (plgin_timer_list w)(timer_id := None) \<rparr>)
     | None \<Rightarrow> (False, w))"

text \<open>A delayed item is put into the timer manager; only a timer with an id can be deleted.\<close>

definition add_delayed :: "timer_lambda \<Rightarrow> CFrame_Message_Delay \<Rightarrow> 's CWorkThreadLogic \<Rightarrow> 's CWorkThreadLogic" where
  "add_delayed d delay w =
    (let k = length (tm_store (wt_timers w));
         w1 = w \<lparr> wt_timers := addTimer (10 ^ 9 * int (delay_seconds delay)) d (wt_timers w) \<rparr> in
     if delay_timer_id delay > 0
     then w1 \<lparr> plgin_timer_list := (plgin_timer_list w1)(delay_timer_id delay \<mapsto> k) \<rparr> else w1)"

definition do_frame_message ::
  "u16 \<Rightarrow> string \<Rightarrow> CMessage_Packet \<Rightarrow> CFrame_Message_Delay \<Rightarrow> 's CWorkThreadLogic \<Rightarrow> (bool \<times> 's CWorkThreadLogic) option" where
  "do_frame_message tag_thread_id message_tag send delay w =
    (case plugin_work_thread_list w (ucast tag_thread_id) of
       None \<Rightarrow> Some (False, w)
     | Some k \<Rightarrow>
         if delay_seconds delay = 0
         then map_option (Pair True) (do_plugin_thread_module_logic k message_tag send w)
         else Some (True, add_delayed (Timer_Message k message_tag send delay) delay w))"

definition send_frame_message ::
  "u16 \<Rightarrow> string \<Rightarrow> CMessage_Packet \<Rightarrow> CFrame_Message_Delay \<Rightarrow> 's CWorkThreadLogic \<Rightarrow> (bool \<times> 's CWorkThreadLogic) option" where
  "send_frame_message tag_thread_id message_tag send delay w =
    (if \<not> module_init_finish w
     then Some (True, w \<lparr> plugin_work_thread_buffer_message_list := plugin_work_thread_buffer_message_list w
            @ [\<lparr> pm_tag_thread_id = tag_thread_id, pm_message_tag = message_tag, pm_send_packet = send,
                 pm_delay_timer = delay \<rparr>] \<rparr>)
     else do_frame_message tag_thread_id message_tag send delay w)"

definition do_work_thread_logic ::
  "u16 \<Rightarrow> CFrame_Message_Delay \<Rightarrow> nat \<Rightarrow> 's CWorkThreadLogic \<Rightarrow> bool \<times> 's CWorkThreadLogic" where
  "do_work_thread_logic tag_thread_id delay func w =
    (case plugin_work_thread_list w (ucast tag_thread_id) of
       None \<Rightarrow> (False, w)
     | Some k \<Rightarrow>
         (True, if delay_seconds delay = 0 then post (unat tag_thread_id) (T_Function func) w
                else add_delayed (Timer_Function tag_thread_id func delay) delay w))"

definition run_work_thread_logic ::
  "u16 \<Rightarrow> CFrame_Message_Delay \<Rightarrow> nat \<Rightarrow> 's CWorkThreadLogic \<Rightarrow> bool \<times> 's CWorkThreadLogic" where
  "run_work_thread_logic tag_thread_id delay func w =
    (if \<not> module_init_finish w
     then (True, w \<lparr> plugin_work_thread_buffer_Func_list := plugin_work_thread_buffer_Func_list w
            @ [\<lparr> pf_tag_thread_id = tag_thread_id, pf_delay_timer = delay, pf_func = func \<rparr>] \<rparr>)
     else do_work_thread_logic tag_thread_id delay func w)"

text \<open>What the lambda of an expired timer does.\<close>

definition delayed_callback :: "timer_lambda \<Rightarrow> 's CWorkThreadLogic \<Rightarrow> 's CWorkThreadLogic option" where
  "delayed_callback d w =
    (case d of
       Timer_Message k tag send delay \<Rightarrow>
         do_plugin_thread_module_logic k tag send
           (w \<lparr> plgin_timer_list := (plgin_timer_list w)(delay_timer_id delay := None) \<rparr>)
     | Timer_Function t func delay \<Rightarrow>
         Some (post (unat t) (T_Function func)
           (w \<lparr> plgin_timer_list := (plgin_timer_list w)(delay_timer_id delay := None) \<rparr>))
     | Timer_Check timeout_seconds \<Rightarrow> Some (post 0 (T_Run_Check timeout_seconds) w))"

definition send_io_message :: "u32 \<Rightarrow> CMessage_Packet \<Rightarrow> 's CWorkThreadLogic \<Rightarrow> 's CWorkThreadLogic option" where
  "send_io_message connect_id send w = do {
     i \<leftarrow> thread_index connect_id w;
     m \<leftarrow> thread_logic i w;
     Some (post i (T_Delivery connect_id send i) w) }"

definition wt_get_session_interface :: "u32 \<Rightarrow> 's CWorkThreadLogic \<Rightarrow> 's option option" where
  "wt_get_session_interface connect_id w = do {
     i \<leftarrow> thread_index connect_id w;
     m \<leftarrow> thread_logic i w;
     Some (ml_get_session connect_id m) }"

definition send_io_bridge_message ::
  "u32 \<Rightarrow> CMessage_Packet \<Rightarrow> 's CWorkThreadLogic \<Rightarrow> (bool \<times> 's CWorkThreadLogic) option" where
  "send_io_bridge_message peer send w = do {
     i \<leftarrow> thread_index peer w;
     m \<leftarrow> thread_logic i w;
     Some (case ml_get_session peer m of
       Some s \<Rightarrow> (True, emit [Do_Write_Immediately s peer (msg_buffer send)] w)
     | None \<Rightarrow> (False, w)) }"

definition send_io_bridge_message_fail ::
  "'s session_ops \<Rightarrow> u32 \<Rightarrow> CMessage_Packet \<Rightarrow> 's \<Rightarrow> 's CWorkThreadLogic \<Rightarrow> 's CWorkThreadLogic option" where
  "send_io_bridge_message_fail S connect_id bridge_packet s w =
     assignation_thread_module_logic S connect_id [bridge_packet \<lparr> msg_command_id := LOGIC_IOTOIO_DATA_ERROR \<rparr>] s w"

text \<open>\<open>do_io_bridge_data\<close> copies \<open>length\<close> bytes from the start of the receive buffer.\<close>

definition do_io_bridge_data ::
  "'s session_ops \<Rightarrow> u32 \<Rightarrow> u32 \<Rightarrow> CSessionBuffer \<Rightarrow> nat \<Rightarrow> 's \<Rightarrow> 's CWorkThreadLogic
     \<Rightarrow> (int \<times> CSessionBuffer \<times> 's CWorkThreadLogic) option" where
  "do_io_bridge_data S connect_id peer sb len s w =
    (if len > length (sb_buffer sb) then None
     else do {
       let packet = new_packet \<lparr> msg_buffer := mem_slice (read_ptr sb) len (sb_buffer sb) \<rparr>;
       if peer > 0 then do {
         (sent, w1) \<leftarrow> send_io_bridge_message peer packet w;
         if sent then Some (0, move_buffer len sb, w1)
         else do {
           w2 \<leftarrow> send_io_bridge_message_fail S connect_id packet s w1;
           Some (1, move_buffer len sb, w2) } }
       else do {
         w1 \<leftarrow> send_io_bridge_message_fail S connect_id packet s w;
         Some (2, move_buffer len sb, w1) } })"

definition connect_io_server ::
  "'s session_starter \<Rightarrow> bool \<Rightarrow> CConnect_IO_Info \<Rightarrow> EM_CONNECT_IO_TYPE \<Rightarrow> 's CWorkThreadLogic \<Rightarrow> bool \<times> 's CWorkThreadLogic" where
  "connect_io_server start_session ssl io_info io_type w =
    (if is_exist (ci_server_id io_info) (wt_comm w) then (False, w)
     else let (r, c) = add_connect start_session ssl io_info io_type (wt_comm w) in (r, w \<lparr> wt_comm := c \<rparr>))"

definition wt_get_connect_id :: "u32 \<Rightarrow> 's CWorkThreadLogic \<Rightarrow> u32" where
  "wt_get_connect_id server_id w =
    (if is_exist server_id (wt_comm w) then get_connect_id server_id (wt_comm w) else 0)"

definition close_io_server :: "u32 \<Rightarrow> 's CWorkThreadLogic \<Rightarrow> 's CWorkThreadLogic" where
  "close_io_server server_id w = w \<lparr> wt_comm := close_connect server_id (wt_comm w) \<rparr>"

text \<open>The text \<open>do_work_thread_timeout\<close> sends, built from the four string constants of the header.\<close>

definition dead_lock_text :: "nat \<Rightarrow> nat \<Rightarrow> nat \<Rightarrow> string" where
  "dead_lock_text thread_id command_id timeout =
     ''{\"thread id\":'' @ to_string thread_id @ '', \"command id\":\"'' @ to_string command_id
     @ ''\", \"work_thread_timeout\":'' @ to_string timeout @ ''\"}''"

definition do_work_thread_timeout ::
  "int \<Rightarrow> u16 \<Rightarrow> u16 \<Rightarrow> int \<Rightarrow> 's CWorkThreadLogic \<Rightarrow> 's CWorkThreadLogic option" where
  "do_work_thread_timeout now thread_id command_id timeout w = do {
     m \<leftarrow> thread_logic 0 w;
     let source = CMessage_Source_default \<lparr> src_work_thread_id := thread_id \<rparr>;
     let recv = new_packet \<lparr> msg_command_id := LOGIC_THREAD_DEAD_LOCK,
       msg_buffer := bytes_of_string (dead_lock_text (unat thread_id) (unat command_id) (nat timeout)) \<rparr>;
     Some (set_thread 0 (snd (do_thread_module_logic now source recv new_packet m)) w) }"

text \<open>The two loops of \<open>run_check_task\<close>, over the indices of the thread list.\<close>

fun check_dead_locks :: "int \<Rightarrow> u32 \<Rightarrow> nat list \<Rightarrow> 's CWorkThreadLogic \<Rightarrow> 's CWorkThreadLogic option" where
  "check_dead_locks now timeout_seconds [] w = Some w"
| "check_dead_locks now timeout_seconds (i # is) w = do {
     m \<leftarrow> thread_logic i w;
     let timeout = get_work_thread_timeout now m;
     if timeout > sint timeout_seconds then do {
       w1 \<leftarrow> do_work_thread_timeout now (work_thread_id m) (last_dispose_command_id m) timeout w;
       check_dead_locks now timeout_seconds is w1 }
     else check_dead_locks now timeout_seconds is w }"

definition post_idle_check :: "u32 \<Rightarrow> nat \<Rightarrow> 's CWorkThreadLogic \<Rightarrow> 's CWorkThreadLogic" where
  "post_idle_check connect_timeout i w =
    (case thread_logic i w of
       Some m \<Rightarrow> post (unat (work_thread_id m)) (T_Idle_Check connect_timeout i) w
     | None \<Rightarrow> w)"

definition wt_run_check_task :: "int \<Rightarrow> u32 \<Rightarrow> 's CWorkThreadLogic \<Rightarrow> 's CWorkThreadLogic option" where
  "wt_run_check_task now timeout_seconds w = do {
     w1 \<leftarrow> check_dead_locks now timeout_seconds [0..<length (thread_module_list w)] w;
     Some (if wt_connect_timeout w1 > 0
           then fold (post_idle_check (wt_connect_timeout w1)) [0..<length (thread_module_list w1)] w1
           else w1) }"

text \<open>\<open>CModuleLogic::check_session_io_timeout\<close> posts a close for every idle session.\<close>

fun close_sessions :: "(u32 \<times> 's option) list \<Rightarrow> 's CWorkThreadLogic \<Rightarrow> 's CWorkThreadLogic option" where
  "close_sessions [] w = Some w"
| "close_sessions ((connect_id, s) # xs) w = do {
     w1 \<leftarrow> close_session_event connect_id s w;
     close_sessions xs w1 }"

definition ml_check_session_io_timeout ::
  "'s session_ops \<Rightarrow> int \<Rightarrow> u32 \<Rightarrow> nat \<Rightarrow> 's CWorkThreadLogic \<Rightarrow> 's CWorkThreadLogic option" where
  "ml_check_session_io_timeout S now connect_timeout i w = do {
     m \<leftarrow> thread_logic i w;
     let (idle, t) = check_session_io_timeout (so_io_type S) (so_recv_time S) now connect_timeout (sessions_interface m);
     close_sessions (map (apsnd Some) idle) (set_thread i (m \<lparr> sessions_interface := t \<rparr>) w) }"

text \<open>The lambdas posted to the task threads.\<close>

fun run_task ::
  "'s session_ops \<Rightarrow> 's session_starter \<Rightarrow> bool \<Rightarrow> int \<Rightarrow> 's wt_task \<Rightarrow> 's CWorkThreadLogic \<Rightarrow> 's CWorkThreadLogic option" where
  "run_task S st ssl now (T_Module_Logic s connect_id ms i) w = do_work_thread_module_logic S now s connect_id ms i w"
| "run_task S st ssl now (T_Message source recv i) w = do {
     m \<leftarrow> thread_logic i w;
     Some (set_thread i (snd (do_thread_module_logic now source recv new_packet m)) w) }"
| "run_task S st ssl now (T_Close_Session connect_id s) w =
     Some (case s of None \<Rightarrow> w | Some s \<Rightarrow> emit [Close_Session s connect_id] w)"
| "run_task S st ssl now (T_Delivery connect_id send i) w = do_io_message_delivery S st ssl connect_id send i w"
| "run_task S st ssl now (T_Frame_Events command_id mark_id ip port ty) w =
     do_work_thread_frame_events now command_id mark_id ip port ty w"
| "run_task S st ssl now (T_Plugin_Message tag recv k) w = run_plugin_message now tag recv k w"
| "run_task S st ssl now (T_Idle_Check connect_timeout i) w = ml_check_session_io_timeout S now connect_timeout i w"
| "run_task S st ssl now (T_Close_All i) w = do {
     m \<leftarrow> thread_logic i w;
     close_sessions (map (\<lambda>k. (k, ml_get_session k m)) (each_session_id (sessions_interface m))) w }"
| "run_task S st ssl now (T_Run_Check timeout_seconds) w = wt_run_check_task now timeout_seconds w"
| "run_task S st ssl now (T_Function f) w = Some w"

text \<open>
  One step of task thread \<open>i\<close>: of its loop, and of the task it took.  \<open>None\<close> when
  the thread is blocked or does not exist, \<open>Some None\<close> when the task is undefined.
\<close>

definition work_step ::
  "'s session_ops \<Rightarrow> 's session_starter \<Rightarrow> bool \<Rightarrow> int \<Rightarrow> u32 \<Rightarrow> 's CWorkThreadLogic \<Rightarrow> 's CWorkThreadLogic option option" where
  "work_step S st ssl now i w =
    (case m_mapLogicList (wt_tms w) i of
       None \<Rightarrow> None
     | Some t \<Rightarrow>
         (case svc_step t of
            None \<Rightarrow> None
          | Some (task, t1) \<Rightarrow>
              let w1 = w \<lparr> wt_tms := (wt_tms w) \<lparr> m_mapLogicList := (m_mapLogicList (wt_tms w))(i \<mapsto> t1) \<rparr> \<rparr> in
              Some (case task of None \<Rightarrow> Some w1 | Some x \<Rightarrow> run_task S st ssl now x w1)))"

text \<open>
  \<open>init_work_thread_logic\<close>, with the handler tables the plugins registered and the
  ids the system gives the new threads.
\<close>

definition create_work_thread :: "int \<Rightarrow> (u32 \<Rightarrow> string) \<Rightarrow> nat \<Rightarrow> 's CWorkThreadLogic \<Rightarrow> 's CWorkThreadLogic" where
  "create_work_thread now tids i w =
     w \<lparr> thread_module_list := thread_module_list w @ [init_logic now (wt_module_functions w) (of_nat i)],
         wt_tms := snd (CreateLogic (tids (of_nat i)) (of_nat i) (wt_tms w)) \<rparr>"

definition create_buffered_thread :: "int \<Rightarrow> (u32 \<Rightarrow> string) \<Rightarrow> u32 \<Rightarrow> 's CWorkThreadLogic \<Rightarrow> 's CWorkThreadLogic" where
  "create_buffered_thread now tids thread_id w =
    (case plugin_work_thread_list w thread_id of
       Some _ \<Rightarrow> w
     | None \<Rightarrow> new_plugin_thread now (tids thread_id) thread_id w)"

definition submit_message :: "CDelayPluginMessage \<Rightarrow> 's CWorkThreadLogic \<Rightarrow> 's CWorkThreadLogic" where
  "submit_message e w =
    (case do_frame_message (pm_tag_thread_id e) (pm_message_tag e) (pm_send_packet e) (pm_delay_timer e) w of
       Some (_, w') \<Rightarrow> w' | None \<Rightarrow> w)"

definition submit_function :: "CDelayPluginFunc \<Rightarrow> 's CWorkThreadLogic \<Rightarrow> 's CWorkThreadLogic" where
  "submit_function e w = snd (do_work_thread_logic (pf_tag_thread_id e) (pf_delay_timer e) (pf_func e) w)"

text \<open>The parts of start-up: the tables, the work threads, the buffered plugin work, the check timer.\<close>

definition configure_threads :: "handlers \<Rightarrow> handlers \<Rightarrow> nat \<Rightarrow> u32 \<Rightarrow> 's CWorkThreadLogic \<Rightarrow> 's CWorkThreadLogic" where
  "configure_threads async_tab sync_tab threads connect_timeout w =
     w \<lparr> thread_count := of_nat threads, wt_connect_timeout := connect_timeout,
         wt_module_functions := async_tab, wt_sync_functions := sync_tab \<rparr>"

definition start_buffered_threads :: "int \<Rightarrow> (u32 \<Rightarrow> string) \<Rightarrow> 's CWorkThreadLogic \<Rightarrow> 's CWorkThreadLogic" where
  "start_buffered_threads now tids w =
    (let w' = fold (create_buffered_thread now tids) (plugin_work_thread_buffer_list w) w in
     w' \<lparr> wt_tms := Start (wt_tms w'), plugin_work_thread_buffer_list := [] \<rparr>)"

definition submit_buffered :: "'s CWorkThreadLogic \<Rightarrow> 's CWorkThreadLogic" where
  "submit_buffered w =
    (let w1 = fold submit_message (plugin_work_thread_buffer_message_list w) w;
         w2 = fold submit_function (plugin_work_thread_buffer_Func_list w1) w1 in
     w2 \<lparr> plugin_work_thread_buffer_message_list := [], plugin_work_thread_buffer_Func_list := [] \<rparr>)"

definition start_check_timer :: "u16 \<Rightarrow> 's CWorkThreadLogic \<Rightarrow> 's CWorkThreadLogic" where
  "start_check_timer timeout_seconds w = w \<lparr> wt_timers :=
     addTimer_loop 0 (10 ^ 9 * int (unat timeout_seconds)) (Timer_Check (ucast timeout_seconds)) (wt_timers w) \<rparr>"

definition init_work_thread_logic ::
  "int \<Rightarrow> (u32 \<Rightarrow> string) \<Rightarrow> handlers \<Rightarrow> handlers \<Rightarrow> nat \<Rightarrow> u16 \<Rightarrow> u32 \<Rightarrow> 's CWorkThreadLogic \<Rightarrow> 's CWorkThreadLogic" where
  "init_work_thread_logic now tids async_tab sync_tab threads timeout_seconds connect_timeout w =
    (let w1 = fold (create_work_thread now tids) [0..<threads] (configure_threads async_tab sync_tab threads connect_timeout w);
         w2 = w1 \<lparr> module_init_finish := True \<rparr> in
     start_check_timer timeout_seconds (submit_buffered (start_buffered_threads now tids w2)))"

definition CWorkThreadLogic_init :: "'s CWorkThreadLogic" where
  "CWorkThreadLogic_init = \<lparr> thread_module_list = [], wt_module_functions = Map.empty,
     wt_sync_functions = Map.empty, thread_count = 0, module_init_finish = False,
     plugin_work_thread_buffer_list = [], plugin_work_thread_buffer_message_list = [],
     plugin_work_thread_buffer_Func_list = [], plugin_logic_objects = [],
     plugin_work_thread_list = Map.empty, plgin_timer_list = Map.empty, wt_connect_timeout = 0,
     wt_timers = timer_service, wt_tms = TMS_init, wt_bridge = CIoBridge_init,
     wt_comm = CCommunicationService_init, wt_out = [] \<rparr>"

definition wt_close :: "'s CWorkThreadLogic \<Rightarrow> 's CWorkThreadLogic" where
  "wt_close w =
    (let w1 = w \<lparr> wt_comm := close_service (wt_comm w) \<rparr>;
         w2 = fold (\<lambda>i w. case thread_logic i w of
                Some m \<Rightarrow> post (unat (work_thread_id m)) (T_Close_All i) w | None \<Rightarrow> w)
              [0..<length (thread_module_list w1)] w1;
         w3 = w2 \<lparr> plugin_logic_objects := map ml_close (plugin_logic_objects w2),
                   wt_tms := Close_tms (wt_tms w2) \<rparr> in
     w3 \<lparr> thread_module_list := [] \<rparr>)"

text \<open>
  A running server: as many thread logics as configured, each with its index as
  its id, and a task thread for each of them.
\<close>

definition wt_inv :: "'s CWorkThreadLogic \<Rightarrow> bool" where
  "wt_inv w \<longleftrightarrow> thread_count w > 0 \<and> length (thread_module_list w) = unat (thread_count w) \<and>
     (\<forall>i < length (thread_module_list w). work_thread_id (thread_module_list w ! i) = of_nat i \<and>
        m_mapLogicList (wt_tms w) (of_nat i) \<noteq> None) \<and>
     tms_is_start (wt_tms w)"

text \<open>The tasks waiting for thread \<open>i\<close>.\<close>

definition mailbox_of :: "nat \<Rightarrow> 's CWorkThreadLogic \<Rightarrow> 's wt_task list" where
  "mailbox_of i w = pending (of_nat i) (wt_tms w)"

end
