(* ===== verification/Work_Thread_Safety.thy ===== *)
theory Work_Thread_Safety
  imports Work_Thread
begin

text \<open>
  The properties of \<open>Work_Thread\<close>: every index the dispatcher stores is the index
  of an existing object, tasks reach the thread of their connection in order, and
  answers carry the replies of the handlers in order.
\<close>


section \<open>Correctness of the dispatcher\<close>


subsection \<open>Definitions\<close>

text \<open>
  Everything that refers to a thread or to a logic object by its index refers to
  an existing one.
\<close>

fun task_ok :: "nat \<Rightarrow> nat \<Rightarrow> 's wt_task \<Rightarrow> bool" where
  "task_ok n k (T_Module_Logic s c ms i) = (i < n)"
| "task_ok n k (T_Message source recv i) = (i < n)"
| "task_ok n k (T_Delivery c send i) = (i < n)"
| "task_ok n k (T_Idle_Check t i) = (i < n)"
| "task_ok n k (T_Close_All i) = (i < n)"
| "task_ok n k (T_Plugin_Message tag recv j) = (j < k)"
| "task_ok n k _ = True"

fun lambda_ok :: "nat \<Rightarrow> timer_lambda \<Rightarrow> bool" where
  "lambda_ok k (Timer_Message j tag send d) = (j < k)"
| "lambda_ok k _ = True"

definition queued :: "'s CWorkThreadLogic \<Rightarrow> 's wt_task set" where
  "queued w = {x. \<exists>i t msg. m_mapLogicList (wt_tms w) i = Some t \<and> msg \<in> set (mq_queue (m_thread_queue t)) \<and>
     m_func msg = Some x}"

definition wt_safe :: "'s CWorkThreadLogic \<Rightarrow> bool" where
  "wt_safe w \<longleftrightarrow> wt_inv w \<and> module_init_finish w \<and>
     (\<forall>x \<in> queued w. task_ok (length (thread_module_list w)) (length (plugin_logic_objects w)) x) \<and>
     (\<forall>t \<in> set (tm_store (wt_timers w)). \<forall>c. mCallback t = Some c \<longrightarrow>
        lambda_ok (length (plugin_logic_objects w)) c) \<and>
     (\<forall>j k. plugin_work_thread_list w j = Some k \<longrightarrow> k < length (plugin_logic_objects w))"

text \<open>The state start-up reaches from a configured one.\<close>

definition started :: "'s CWorkThreadLogic \<Rightarrow> 's CWorkThreadLogic" where
  "started w = w \<lparr> wt_tms := (wt_tms w) \<lparr> tms_is_start := True \<rparr>, module_init_finish := True \<rparr>"

text \<open>A call that ends, and ends in a safe state.\<close>

definition ends_safe :: "'s CWorkThreadLogic option \<Rightarrow> bool" where
  "ends_safe r = (case r of Some w \<Rightarrow> wt_safe w | None \<Rightarrow> False)"

text \<open>The calls sessions, plugins and timers make on a running server, and the steps of its task threads.\<close>

datatype 's wt_op =
    W_Connect u32 's ClientIPInfo ClientIPInfo
  | W_Disconnect u32 's ClientIPInfo EM_CONNECT_IO_TYPE
  | W_Close_Session u32 "'s option"
  | W_Messages u32 "CMessage_Packet list" 's
  | W_Bridge_Error u32 "CMessage_Packet list" 's
  | W_Events u32 "CMessage_Packet list" 's
  | W_Send u32 CMessage_Packet
  | W_Frame_Event u16 u32 string u16 EM_CONNECT_IO_TYPE
  | W_Create_Thread string u32
  | W_Close_Thread u32
  | W_Delete_Timer u64
  | W_Frame_Message u16 string CMessage_Packet CFrame_Message_Delay
  | W_Run_Logic u16 CFrame_Message_Delay nat
  | W_Connect_Server CConnect_IO_Info EM_CONNECT_IO_TYPE
  | W_Close_Server u32
  | W_Timer nat
  | W_Thread u32

fun wt_apply ::
  "'s session_ops \<Rightarrow> 's session_starter \<Rightarrow> bool \<Rightarrow> int \<Rightarrow> 's wt_op \<Rightarrow> 's CWorkThreadLogic \<Rightarrow> 's CWorkThreadLogic option" where
  "wt_apply S st ssl now (W_Connect c s l r) w = add_thread_session S c s l r w"
| "wt_apply S st ssl now (W_Disconnect c s l ty) w = delete_thread_session S c s l ty w"
| "wt_apply S st ssl now (W_Close_Session c s) w = close_session_event c s w"
| "wt_apply S st ssl now (W_Messages c ms s) w = assignation_thread_module_logic S c ms s w"
| "wt_apply S st ssl now (W_Bridge_Error c ms s) w = assignation_thread_module_logic_iotoio_error c ms s w"
| "wt_apply S st ssl now (W_Events c ms s) w = assignation_thread_module_logic_with_events c ms s w"
| "wt_apply S st ssl now (W_Send c send) w = send_io_message c send w"
| "wt_apply S st ssl now (W_Frame_Event cmd mark ip port ty) w = Some (add_frame_events cmd mark ip port ty w)"
| "wt_apply S st ssl now (W_Create_Thread tid j) w = Some (snd (create_frame_work_thread now tid j w))"
| "wt_apply S st ssl now (W_Close_Thread j) w = Some (snd (close_frame_work_thread j w))"
| "wt_apply S st ssl now (W_Delete_Timer j) w = Some (snd (delete_frame_message_timer j w))"
| "wt_apply S st ssl now (W_Frame_Message t tag send d) w = map_option snd (send_frame_message t tag send d w)"
| "wt_apply S st ssl now (W_Run_Logic t d f) w = Some (snd (run_work_thread_logic t d f w))"
| "wt_apply S st ssl now (W_Connect_Server info ty) w = Some (snd (connect_io_server st ssl info ty w))"
| "wt_apply S st ssl now (W_Close_Server j) w = Some (close_io_server j w)"
| "wt_apply S st ssl now (W_Timer k) w =
     (case (if k < length (tm_store (wt_timers w)) then mCallback (tm_store (wt_timers w) ! k) else None) of
        None \<Rightarrow> Some w
      | Some c \<Rightarrow> delayed_callback c w)"
| "wt_apply S st ssl now (W_Thread i) w =
     (case work_step S st ssl now i w of None \<Rightarrow> Some w | Some r \<Rightarrow> r)"

fun wt_run ::
  "'s session_ops \<Rightarrow> 's session_starter \<Rightarrow> bool \<Rightarrow> (int \<times> 's wt_op) list \<Rightarrow> 's CWorkThreadLogic \<Rightarrow> 's CWorkThreadLogic option" where
  "wt_run S st ssl [] w = Some w"
| "wt_run S st ssl ((now, x) # xs) w =
     (case wt_apply S st ssl now x w of None \<Rightarrow> None | Some w' \<Rightarrow> wt_run S st ssl xs w')"

text \<open>A server with two work threads and an echo handler for command 9, for the examples.\<close>

definition echo_ops :: "nat session_ops" where
  "echo_ops = \<lparr> so_io_type = (\<lambda>_. CONNECT_IO_TCP), so_mark_id = (\<lambda>_ _. 0), so_recv_time = (\<lambda>_ _. 0),
     so_is_need_send_format = (\<lambda>_. False), so_format_send_packet = (\<lambda>_ _ _. None) \<rparr>"

definition echo_handlers :: handlers where
  "echo_handlers = [9 \<mapsto> (\<lambda>source recv send. (0, send \<lparr> msg_buffer := msg_buffer recv \<rparr>))]"

definition echo_server :: "nat CWorkThreadLogic" where
  "echo_server = init_work_thread_logic 0 (\<lambda>_. []) echo_handlers Map.empty 2 1 0 CWorkThreadLogic_init"

text \<open>The messages of connection \<open>c\<close> among the tasks of a mailbox, in order.\<close>

fun messages_for :: "u32 \<Rightarrow> 's wt_task list \<Rightarrow> CMessage_Packet list" where
  "messages_for c [] = []"
| "messages_for c (T_Module_Logic s c' ms i # ts) = (if c = c' then ms @ messages_for c ts else messages_for c ts)"
| "messages_for c (_ # ts) = messages_for c ts"

text \<open>A sequence of calls that hand over messages: connection, messages, session.\<close>

fun assign_all ::
  "'s session_ops \<Rightarrow> (u32 \<times> CMessage_Packet list \<times> 's) list \<Rightarrow> 's CWorkThreadLogic \<Rightarrow> 's CWorkThreadLogic option" where
  "assign_all S [] w = Some w"
| "assign_all S ((c, ms, s) # cs) w =
     (case assignation_thread_module_logic S c ms s w of None \<Rightarrow> None | Some w' \<Rightarrow> assign_all S cs w')"

text \<open>The messages of connection \<open>c\<close> in such a sequence that no synchronous handler takes.\<close>

definition async_messages ::
  "handlers \<Rightarrow> u32 \<Rightarrow> (u32 \<times> CMessage_Packet list \<times> 's) list \<Rightarrow> CMessage_Packet list" where
  "async_messages sync c cs = concat (map (\<lambda>(c', ms, s). if c' = c
     then filter (\<lambda>m. sync (msg_command_id m) = None) ms else []) cs)"

text \<open>What one message contributes to the answer of a connection with session \<open>io\<close>.\<close>

definition reply_bytes ::
  "'s session_ops \<Rightarrow> handlers \<Rightarrow> 's option \<Rightarrow> CMessage_Source \<Rightarrow> u32 \<Rightarrow> CMessage_Packet \<Rightarrow> bytes" where
  "reply_bytes S tab io source connect_id recv =
    (let send = snd (do_module_message tab source recv new_packet) in
     if msg_buffer send = [] then []
     else case io of
       None \<Rightarrow> []
     | Some s \<Rightarrow>
         if so_is_need_send_format S s
         then (case so_format_send_packet S s connect_id send of Some fmt \<Rightarrow> msg_buffer fmt | None \<Rightarrow> [])
         else msg_buffer send)"


subsection \<open>What the building blocks keep\<close>

lemma post_fields [simp]:
  "thread_module_list (post i x w) = thread_module_list w" "thread_count (post i x w) = thread_count w"
  "plugin_logic_objects (post i x w) = plugin_logic_objects w" "wt_timers (post i x w) = wt_timers w"
  "plugin_work_thread_list (post i x w) = plugin_work_thread_list w"
  "module_init_finish (post i x w) = module_init_finish w" "wt_out (post i x w) = wt_out w"
  "wt_sync_functions (post i x w) = wt_sync_functions w"
  by (simp_all add: post_def)

lemma emit_fields [simp]:
  "thread_module_list (emit es w) = thread_module_list w" "thread_count (emit es w) = thread_count w"
  "wt_tms (emit es w) = wt_tms w" "wt_out (emit es w) = wt_out w @ es"
  "wt_sync_functions (emit es w) = wt_sync_functions w"
  by (simp_all add: emit_def)

lemma set_thread_fields [simp]:
  "thread_module_list (set_thread i m w) = (thread_module_list w)[i := m]"
  "thread_count (set_thread i m w) = thread_count w" "wt_tms (set_thread i m w) = wt_tms w"
  "wt_out (set_thread i m w) = wt_out w" "wt_bridge (set_thread i m w) = wt_bridge w"
  "wt_sync_functions (set_thread i m w) = wt_sync_functions w"
  by (simp_all add: set_thread_def)

lemma module_logic_id [simp]:
  "work_thread_id (ml_add_session c s l r m) = work_thread_id m"
  "work_thread_id (ml_delete_session c m) = work_thread_id m"
  "work_thread_id (snd (do_thread_module_logic now source recv send m)) = work_thread_id m"
  by (simp_all add: ml_add_session_def ml_delete_session_def do_thread_module_logic_def begin_module_logic_def Let_def)

lemma module_logic_loop_id [simp]:
  "work_thread_id (fst (module_logic_loop S now source c ms m out)) = work_thread_id m"
  by (induction S now source c ms m out rule: module_logic_loop.induct)
    (auto simp: do_thread_module_logic_def begin_module_logic_def Let_def split: prod.splits option.splits)

lemma queued_tms: "wt_tms w' = wt_tms w \<Longrightarrow> queued w' = queued w"
  by (simp add: queued_def)

lemma queued_frame [simp]:
  "queued (emit es w) = queued w" "queued (w \<lparr> wt_comm := c \<rparr>) = queued w" "queued (w \<lparr> wt_bridge := b \<rparr>) = queued w"
  "queued (w \<lparr> plgin_timer_list := l \<rparr>) = queued w" "queued (w \<lparr> wt_timers := tm \<rparr>) = queued w"
  "queued (w \<lparr> plugin_logic_objects := os \<rparr>) = queued w" "queued (set_thread i m w) = queued w"
  "queued (w \<lparr> plugin_work_thread_list := pl \<rparr>) = queued w"
  by (simp_all add: queued_tms [of _ w] queued_def)

lemma wt_inv_frame [simp]:
  "wt_inv (emit es w) = wt_inv w" "wt_inv (w \<lparr> wt_comm := c \<rparr>) = wt_inv w" "wt_inv (w \<lparr> wt_bridge := b \<rparr>) = wt_inv w"
  "wt_inv (w \<lparr> plgin_timer_list := l \<rparr>) = wt_inv w" "wt_inv (w \<lparr> wt_timers := tm \<rparr>) = wt_inv w"
  "wt_inv (w \<lparr> plugin_logic_objects := os \<rparr>) = wt_inv w" "wt_inv (w \<lparr> plugin_work_thread_list := pl \<rparr>) = wt_inv w"
  by (simp_all add: wt_inv_def)

lemma wt_safe_frame [simp]:
  "wt_safe (emit es w) = wt_safe w" "wt_safe (w \<lparr> wt_comm := c \<rparr>) = wt_safe w"
  "wt_safe (w \<lparr> wt_bridge := b \<rparr>) = wt_safe w" "wt_safe (w \<lparr> plgin_timer_list := l \<rparr>) = wt_safe w"
  "wt_safe (w \<lparr> plugin_work_thread_buffer_list := bl \<rparr>) = wt_safe w"
  "wt_safe (w \<lparr> plugin_work_thread_buffer_message_list := bm \<rparr>) = wt_safe w"
  "wt_safe (w \<lparr> plugin_work_thread_buffer_Func_list := bf \<rparr>) = wt_safe w"
  by (simp_all add: wt_safe_def) (simp_all add: emit_def wt_inv_def queued_def)

lemma AddMessage_started [simp]: "tms_is_start (snd (AddMessage i x s)) = tms_is_start s"
  by (simp add: AddMessage_def split: option.split)

lemma AddMessage_dom:
  "m_mapLogicList s j \<noteq> None \<Longrightarrow> m_mapLogicList (snd (AddMessage i x s)) j \<noteq> None"
  by (auto simp: AddMessage_def split: option.split)

lemma queued_post: "queued (post i x w) \<subseteq> insert x (queued w)"
  by (auto simp: queued_def post_def AddMessage_def Put_def Push_def notify_one_def run_message_def
      split: if_splits option.splits)

lemma wt_safe_post:
  assumes "wt_safe w" "task_ok (length (thread_module_list w)) (length (plugin_logic_objects w)) x"
  shows "wt_safe (post i x w)"
proof -
  have "wt_inv (post i x w)" using assms(1) by (auto simp: wt_safe_def wt_inv_def post_def AddMessage_dom)
  moreover have "\<forall>y \<in> queued (post i x w). task_ok (length (thread_module_list w)) (length (plugin_logic_objects w)) y"
    using queued_post [of i x w] assms unfolding wt_safe_def by blast
  ultimately show ?thesis using assms(1) by (simp add: wt_safe_def)
qed

lemma nth_update_id:
  "work_thread_id m = work_thread_id (ms ! i) \<Longrightarrow> work_thread_id (ms[i := m] ! j) = work_thread_id (ms ! j)"
  by (cases "i = j"; cases "i < length ms") (simp_all add: list_update_beyond)

lemma wt_safe_set_thread:
  assumes "wt_safe w" "work_thread_id m = work_thread_id (thread_module_list w ! i)"
  shows "wt_safe (set_thread i m w)"
proof -
  have "wt_inv (set_thread i m w)"
    using assms by (auto simp: wt_safe_def wt_inv_def nth_update_id)
  with assms(1) show ?thesis by (simp add: wt_safe_def) (simp add: set_thread_def)
qed

lemma task_ok_mono: "task_ok n k x \<Longrightarrow> k \<le> k' \<Longrightarrow> task_ok n k' x"
  by (cases x) auto

lemma lambda_ok_mono: "lambda_ok k c \<Longrightarrow> k \<le> k' \<Longrightarrow> lambda_ok k' c"
  by (cases c) auto

lemma wt_safe_object:
  "wt_safe w \<Longrightarrow> wt_safe (w \<lparr> plugin_logic_objects := (plugin_logic_objects w)[k := m] \<rparr>)"
  by (simp add: wt_safe_def)

lemma wt_safe_timers:
  assumes "wt_safe w" "\<forall>t \<in> set (tm_store tm). \<forall>c. mCallback t = Some c \<longrightarrow>
    lambda_ok (length (plugin_logic_objects w)) c"
  shows "wt_safe (w \<lparr> wt_timers := tm \<rparr>)"
  using assms by (simp add: wt_safe_def)

lemma wt_safe_thread: "wt_safe w \<Longrightarrow> i < length (thread_module_list w) \<Longrightarrow>
    thread_logic i w = Some (thread_module_list w ! i)"
  by (simp add: thread_logic_def)

lemma wt_safe_index:
  assumes "wt_safe w"
  obtains i where "thread_index c w = Some i" "i < length (thread_module_list w)"
    "i = unat c mod unat (thread_count w)"
  using assms by (auto simp: wt_safe_def wt_inv_def thread_index_def unat_gt_0 word_neq_0_conv)

lemma ends_safe_Some [simp]: "ends_safe (Some w) = wt_safe w"
  by (simp add: ends_safe_def)

lemma ends_safeE: "ends_safe r \<Longrightarrow> (\<And>w. r = Some w \<Longrightarrow> wt_safe w \<Longrightarrow> P) \<Longrightarrow> P"
  by (auto simp: ends_safe_def split: option.splits)


subsection \<open>Every operation is defined and keeps the state safe\<close>

lemma safe_connect: "wt_safe w \<Longrightarrow> ends_safe (add_thread_session S c s l r w)"
  by (rule wt_safe_index [of w c])
    (auto simp: add_thread_session_def thread_logic_def Let_def split: prod.split
      intro!: wt_safe_post wt_safe_set_thread)

lemma safe_disconnect: "wt_safe w \<Longrightarrow> ends_safe (delete_thread_session S c s l ty w)"
  by (rule wt_safe_index [of w c])
    (auto simp: delete_thread_session_def thread_logic_def Let_def split: prod.split
      intro!: wt_safe_post wt_safe_set_thread)

lemma safe_close_session: "wt_safe w \<Longrightarrow> ends_safe (close_session_event c s w)"
  by (rule wt_safe_index [of w c]) (auto simp: close_session_event_def thread_logic_def intro!: wt_safe_post)

lemma safe_assignation:
  "wt_safe w \<Longrightarrow> ends_safe (assignation_thread_module_logic S c ms s w)"
  "wt_safe w \<Longrightarrow> ends_safe (assignation_thread_module_logic_iotoio_error c ms s w)"
  "wt_safe w \<Longrightarrow> ends_safe (assignation_thread_module_logic_with_events c ms s w)"
  by (rule wt_safe_index [of w c]; auto simp: assignation_thread_module_logic_def thread_logic_def Let_def
      thread_index_def assignation_thread_module_logic_iotoio_error_def
      assignation_thread_module_logic_with_events_def
      split: prod.split option.splits if_splits intro!: wt_safe_post)+

lemma safe_send: "wt_safe w \<Longrightarrow> ends_safe (send_io_message c send w)"
  by (rule wt_safe_index [of w c]) (auto simp: send_io_message_def thread_logic_def intro!: wt_safe_post)

lemma safe_plugin_post:
  "wt_safe w \<Longrightarrow> k < length (plugin_logic_objects w) \<Longrightarrow> ends_safe (do_plugin_thread_module_logic k tag recv w)"
  by (simp add: do_plugin_thread_module_logic_def plugin_logic_def wt_safe_post)

lemma CreateLogic_started [simp]: "tms_is_start (snd (CreateLogic tid j s)) = tms_is_start s"
  by (simp add: CreateLogic_def split: option.split)

lemma CreateLogic_dom:
  "m_mapLogicList s i \<noteq> None \<Longrightarrow> m_mapLogicList (snd (CreateLogic tid j s)) i \<noteq> None"
  by (auto simp: CreateLogic_def split: option.split)

lemma queued_create: "queued (w \<lparr> wt_tms := snd (CreateLogic tid j (wt_tms w)) \<rparr>) = queued w"
proof (cases "m_mapLogicList (wt_tms w) j")
  case None
  hence "m_mapLogicList (wt_tms w) i = Some t \<Longrightarrow> i \<noteq> j" for i t by auto
  with None show ?thesis
    by (auto simp: queued_def CreateLogic_def start_task_def mq_empty_def split: if_splits)
qed (simp add: queued_def CreateLogic_def)

lemma queued_new_plugin [simp]: "queued (new_plugin_thread now tid j w) = queued w"
  using queued_tms [of "new_plugin_thread now tid j w" "w \<lparr> wt_tms := snd (CreateLogic tid j (wt_tms w)) \<rparr>"]
  by (simp add: queued_create new_plugin_thread_def)

lemma wt_safe_new_plugin:
  assumes "wt_safe w" shows "wt_safe (new_plugin_thread now tid j w)"
proof -
  let ?w = "new_plugin_thread now tid j w"
  have "wt_inv ?w" using assms by (auto simp: wt_safe_def wt_inv_def new_plugin_thread_def CreateLogic_dom)
  moreover have "length (plugin_logic_objects ?w) = Suc (length (plugin_logic_objects w))"
    "thread_module_list ?w = thread_module_list w" "wt_timers ?w = wt_timers w"
    "module_init_finish ?w = module_init_finish w"
    "plugin_work_thread_list ?w = (plugin_work_thread_list w)(j \<mapsto> length (plugin_logic_objects w))"
    by (simp_all add: new_plugin_thread_def)
  ultimately show ?thesis using assms unfolding wt_safe_def
    by (fastforce intro: task_ok_mono lambda_ok_mono less_SucI split: if_splits)
qed

lemma safe_create: "wt_safe w \<Longrightarrow> wt_safe (snd (create_frame_work_thread now tid j w))"
  by (simp add: create_frame_work_thread_def wt_safe_new_plugin wt_safe_def [of w] split: option.split)

lemma safe_close_plugin: "wt_safe w \<Longrightarrow> wt_safe (snd (close_frame_work_thread j w))"
  by (auto simp: close_frame_work_thread_def wt_safe_def split: option.split if_splits)

lemma safe_delete_timer:
  assumes "wt_safe w" shows "wt_safe (snd (delete_frame_message_timer j w))"
proof -
  have "\<forall>t \<in> set (tm_store (cancel_timer k (wt_timers w))). \<forall>c. mCallback t = Some c \<longrightarrow>
      lambda_ok (length (plugin_logic_objects w)) c" for k
    using assms by (auto simp: wt_safe_def cancel_timer_def cancel_def dest!: set_update_subset_insert [THEN subsetD])
  with assms wt_safe_timers [OF assms] show ?thesis
    by (simp add: delete_frame_message_timer_def split: option.split)
qed

lemma safe_add_delayed:
  assumes "wt_safe w" "lambda_ok (length (plugin_logic_objects w)) d"
  shows "wt_safe (add_delayed d delay w)"
proof -
  have "\<forall>t \<in> set (tm_store (addTimer n d (wt_timers w))). \<forall>c. mCallback t = Some c \<longrightarrow>
      lambda_ok (length (plugin_logic_objects w)) c" for n
    using assms by (auto simp: wt_safe_def addTimer_def push_timer_def Timer_ctor_def)
  from wt_safe_timers [OF assms(1) this] show ?thesis by (simp add: add_delayed_def Let_def)
qed

lemma safe_frame_message:
  assumes "wt_safe w" shows "ends_safe (map_option snd (send_frame_message t tag send d w))"
  using assms safe_plugin_post [OF assms]
  by (auto simp: send_frame_message_def do_frame_message_def option.map_comp comp_def option.map_ident
      wt_safe_def [of w] intro!: safe_add_delayed split: option.split)

lemma safe_run_logic: "wt_safe w \<Longrightarrow> wt_safe (snd (run_work_thread_logic t d f w))"
  by (auto simp: run_work_thread_logic_def do_work_thread_logic_def wt_safe_def [of w]
      intro!: safe_add_delayed wt_safe_post split: option.split)

lemma safe_callback:
  "wt_safe w \<Longrightarrow> lambda_ok (length (plugin_logic_objects w)) c \<Longrightarrow> ends_safe (delayed_callback c w)"
  by (cases c) (auto simp: delayed_callback_def intro!: safe_plugin_post wt_safe_post)

lemma module_logic_loop_id':
  "module_logic_loop S now source c ms m out = (m', out') \<Longrightarrow> work_thread_id m' = work_thread_id m"
  using module_logic_loop_id [of S now source c ms m out] by simp

lemma safe_module_logic:
  "wt_safe w \<Longrightarrow> i < length (thread_module_list w) \<Longrightarrow> ends_safe (do_work_thread_module_logic S now s c ms i w)"
  by (auto simp: do_work_thread_module_logic_def thread_logic_def Let_def split: prod.split
      dest!: module_logic_loop_id' intro!: wt_safe_set_thread)

lemma safe_delivery:
  "wt_safe w \<Longrightarrow> i < length (thread_module_list w) \<Longrightarrow> ends_safe (do_io_message_delivery S st ssl c send i w)"
  by (simp add: do_io_message_delivery_def thread_logic_def Let_def split: option.split)

lemma wt_safe_nonempty: "wt_safe w \<Longrightarrow> 0 < length (thread_module_list w)"
  by (simp add: wt_safe_def wt_inv_def unat_gt_0 word_neq_0_conv)

lemma safe_frame_events: "wt_safe w \<Longrightarrow> ends_safe (do_work_thread_frame_events now cmd mark ip port ty w)"
  using wt_safe_nonempty [of w]
  by (simp add: do_work_thread_frame_events_def thread_logic_def Let_def wt_safe_set_thread)

lemma safe_timeout: "wt_safe w \<Longrightarrow> ends_safe (do_work_thread_timeout now i cmd n w)"
  using wt_safe_nonempty [of w]
  by (simp add: do_work_thread_timeout_def thread_logic_def Let_def wt_safe_set_thread)

lemma timeout_length:
  "do_work_thread_timeout now i cmd n w = Some w' \<Longrightarrow> length (thread_module_list w') = length (thread_module_list w)"
  by (auto simp: do_work_thread_timeout_def Let_def split: bind_splits)

lemma safe_dead_locks:
  "wt_safe w \<Longrightarrow> \<forall>i \<in> set is. i < length (thread_module_list w) \<Longrightarrow> ends_safe (check_dead_locks now ts is w)"
proof (induction "is" arbitrary: w)
  case (Cons i "is")
  obtain w' where "do_work_thread_timeout now (work_thread_id (thread_module_list w ! i))
      (last_dispose_command_id (thread_module_list w ! i))
      (get_work_thread_timeout now (thread_module_list w ! i)) w = Some w'" "wt_safe w'"
    by (rule ends_safeE [OF safe_timeout [OF Cons.prems(1)]])
  with Cons timeout_length show ?case by (fastforce simp: thread_logic_def Let_def)
qed simp

lemma safe_idle_posts:
  "wt_safe w \<Longrightarrow> \<forall>i \<in> set is. i < length (thread_module_list w) \<Longrightarrow> wt_safe (fold (post_idle_check ct) is w)"
  by (induction "is" arbitrary: w) (auto simp: post_idle_check_def thread_logic_def wt_safe_post)

lemma safe_run_check: "wt_safe w \<Longrightarrow> ends_safe (wt_run_check_task now ts w)"
  using safe_dead_locks [of w "[0..<length (thread_module_list w)]" now ts]
  by (auto simp: wt_run_check_task_def ends_safe_def safe_idle_posts split: bind_splits option.splits)

lemma safe_close_sessions: "wt_safe w \<Longrightarrow> ends_safe (close_sessions xs w)"
proof (induction xs arbitrary: w)
  case (Cons x xs)
  obtain c s where x: "x = (c, s)" by (cases x)
  obtain w' where "close_session_event c s w = Some w'" "wt_safe w'"
    by (rule ends_safeE [OF safe_close_session [OF Cons.prems]])
  with Cons.IH x show ?case by simp
qed simp

lemma safe_idle_check:
  "wt_safe w \<Longrightarrow> i < length (thread_module_list w) \<Longrightarrow> ends_safe (ml_check_session_io_timeout S now ct i w)"
  by (auto simp: ml_check_session_io_timeout_def thread_logic_def Let_def split: prod.split
      intro!: safe_close_sessions wt_safe_set_thread)

lemma safe_task:
  assumes "wt_safe w" "task_ok (length (thread_module_list w)) (length (plugin_logic_objects w)) x"
  shows "ends_safe (run_task S st ssl now x w)"
  using assms
  by (cases x) (auto simp: thread_logic_def run_plugin_message_def plugin_logic_def Let_def
      wt_safe_set_thread wt_safe_object safe_module_logic safe_delivery safe_frame_events safe_idle_check
      safe_run_check safe_close_sessions split: option.split)

lemma safe_pop:
  assumes "wt_safe w" "m_mapLogicList (wt_tms w) i = Some t" "svc_step t = Some (task, t1)"
  shows "wt_safe (w \<lparr> wt_tms := (wt_tms w) \<lparr> m_mapLogicList := (m_mapLogicList (wt_tms w))(i \<mapsto> t1) \<rparr> \<rparr>)"
    "task = Some x \<Longrightarrow> x \<in> queued w"
proof -
  let ?w = "w \<lparr> wt_tms := (wt_tms w) \<lparr> m_mapLogicList := (m_mapLogicList (wt_tms w))(i \<mapsto> t1) \<rparr> \<rparr>"
  have sub: "set (mq_queue (m_thread_queue t1)) \<subseteq> set (mq_queue (m_thread_queue t))"
    using assms(3) by (auto simp: svc_step_def take_front_def split: svc_pc.splits list.splits if_splits option.splits)
  with assms(2) have "queued ?w \<subseteq> queued w" by (fastforce simp: queued_def split: if_splits)
  moreover have "wt_inv ?w" using assms(1) by (auto simp: wt_safe_def wt_inv_def)
  ultimately show "wt_safe ?w" using assms(1) by (auto simp: wt_safe_def)
  show "x \<in> queued w" if "task = Some x"
    using assms(2, 3) that by (fastforce simp: queued_def svc_step_def take_front_def
        split: svc_pc.splits list.splits if_splits option.splits)
qed

lemma wt_safe_queued:
  "wt_safe w \<Longrightarrow> x \<in> queued w \<Longrightarrow> task_ok (length (thread_module_list w)) (length (plugin_logic_objects w)) x"
  by (simp add: wt_safe_def)

lemma wt_safe_lambda:
  "wt_safe w \<Longrightarrow> k < length (tm_store (wt_timers w)) \<Longrightarrow> mCallback (tm_store (wt_timers w) ! k) = Some c \<Longrightarrow>
   lambda_ok (length (plugin_logic_objects w)) c"
  unfolding wt_safe_def by (meson nth_mem)

lemma safe_thread: "wt_safe w \<Longrightarrow> work_step S st ssl now i w = Some r \<Longrightarrow> ends_safe r"
  by (auto simp: work_step_def Let_def safe_pop intro!: safe_task split: option.splits)
    (rule wt_safe_queued [of w]; simp add: safe_pop(2))

lemma safe_apply:
  assumes "wt_safe w" shows "ends_safe (wt_apply S st ssl now x w)"
proof (cases x)
  case (W_Timer k)
  with assms show ?thesis by (auto simp: safe_callback wt_safe_lambda split: option.split)
next
  case (W_Thread i)
  with assms safe_thread [of w S st ssl now i] show ?thesis by (auto split: option.split)
qed (use assms in \<open>simp_all add: safe_connect safe_disconnect safe_close_session safe_assignation safe_send
    add_frame_events_def wt_safe_post safe_create safe_close_plugin safe_delete_timer safe_frame_message
    safe_run_logic connect_io_server_def close_io_server_def split: prod.split\<close>)

lemma safe_run: "wt_safe w \<Longrightarrow> ends_safe (wt_run S st ssl xs w)"
proof (induction xs arbitrary: w)
  case (Cons x xs)
  obtain now y where x: "x = (now, y)" by (cases x)
  obtain w' where "wt_apply S st ssl now y w = Some w'" "wt_safe w'"
    by (rule ends_safeE [OF safe_apply [OF Cons.prems]])
  with Cons.IH x show ?case by simp
qed simp


subsection \<open>Start-up establishes the invariant\<close>

lemma created_threads:
  fixes w :: "'s CWorkThreadLogic" and now tids
  assumes "thread_module_list w = []" "wt_tms w = TMS_init"
  defines "c \<equiv> \<lambda>n. fold (create_work_thread now tids) [0..<n] w"
  shows "thread_module_list (c n) = map (\<lambda>i. init_logic now (wt_module_functions w) (of_nat i)) [0..<n] \<and>
    wt_module_functions (c n) = wt_module_functions w \<and>
    (\<forall>i < n. m_mapLogicList (wt_tms (c n)) (of_nat i) \<noteq> None) \<and> queued (c n) = {} \<and>
    m_tmsEvents (wt_tms (c n)) = []"
proof (induction n)
  case 0
  with assms show ?case by (simp add: TMS_init_def queued_def)
next
  case (Suc n)
  have "queued (create_work_thread now tids n (c n)) = queued (c n)"
    using queued_tms [of "create_work_thread now tids n (c n)" "c n \<lparr> wt_tms := snd (CreateLogic (tids (of_nat n)) (of_nat n) (wt_tms (c n))) \<rparr>"]
    by (simp add: queued_create create_work_thread_def)
  moreover have "m_tmsEvents (snd (CreateLogic t j s)) = m_tmsEvents s" for t j and s :: "'s wt_task TMS"
    by (simp add: CreateLogic_def split: option.split)
  moreover have "m_mapLogicList (snd (CreateLogic t j s)) j \<noteq> None" for t j and s :: "'s wt_task TMS"
    by (simp add: CreateLogic_def split: option.split)
  ultimately show ?case using Suc CreateLogic_dom [of "wt_tms (c n)"]
    by (auto simp: c_def create_work_thread_def less_Suc_eq)
qed

lemma started_new_plugin: "started (new_plugin_thread now tid j w) = new_plugin_thread now tid j (started w)"
  by (rule CWorkThreadLogic.equality) (simp_all add: started_def new_plugin_thread_def CreateLogic_def split: option.split)

lemma buffered_threads_safe:
  "wt_safe (started w) \<and> m_tmsEvents (wt_tms w) = [] \<and> module_init_finish w \<Longrightarrow>
   wt_safe (started (fold (create_buffered_thread now tids) js w)) \<and>
   m_tmsEvents (wt_tms (fold (create_buffered_thread now tids) js w)) = [] \<and>
   module_init_finish (fold (create_buffered_thread now tids) js w)"
proof (induction js arbitrary: w)
  case (Cons j js)
  have "wt_safe (started (create_buffered_thread now tids j w)) \<and>
      m_tmsEvents (wt_tms (create_buffered_thread now tids j w)) = [] \<and>
      module_init_finish (create_buffered_thread now tids j w)"
    using Cons.prems by (simp add: create_buffered_thread_def started_new_plugin wt_safe_new_plugin split: option.split)
      (simp add: new_plugin_thread_def CreateLogic_def split: option.split)
  from Cons.IH [OF this] show ?case by simp
qed simp

lemma start_buffered_safe:
  assumes "wt_safe (started w)" "m_tmsEvents (wt_tms w) = []" "module_init_finish w"
  shows "wt_safe (start_buffered_threads now tids w)"
proof -
  let ?w = "fold (create_buffered_thread now tids) (plugin_work_thread_buffer_list w) w"
  have *: "wt_safe (started ?w)" "m_tmsEvents (wt_tms ?w) = []" "module_init_finish ?w"
    using buffered_threads_safe [of w now tids] assms by blast+
  have "?w \<lparr> wt_tms := Start (wt_tms ?w) \<rparr> = started ?w"
    using * by (intro CWorkThreadLogic.equality) (simp_all add: started_def Start_def)
  with *(1) show ?thesis by (simp add: start_buffered_threads_def Let_def)
qed

lemma submit_safe:
  "wt_safe w \<Longrightarrow> wt_safe (submit_message e w)" "wt_safe w \<Longrightarrow> wt_safe (submit_function f w)"
proof -
  assume w: "wt_safe w"
  hence "module_init_finish w" by (simp add: wt_safe_def)
  with safe_frame_message [OF w, of "pm_tag_thread_id e" "pm_message_tag e" "pm_send_packet e" "pm_delay_timer e"]
    safe_run_logic [OF w, of "pf_tag_thread_id f" "pf_delay_timer f" "pf_func f"]
  show "wt_safe (submit_message e w)" "wt_safe (submit_function f w)"
    by (auto simp: submit_message_def submit_function_def send_frame_message_def run_work_thread_logic_def
        ends_safe_def split: option.split)
qed

lemma fold_safe: "(\<And>x w. wt_safe w \<Longrightarrow> wt_safe (f x w)) \<Longrightarrow> wt_safe w \<Longrightarrow> wt_safe (fold f xs w)"
  by (induction xs arbitrary: w) simp_all

lemma check_timer_safe: "wt_safe w \<Longrightarrow> wt_safe (start_check_timer ts w)"
  by (auto simp: start_check_timer_def addTimer_loop_def push_timer_def Timer_ctor_def wt_safe_def [of w]
      intro!: wt_safe_timers)

lemma init_safe:
  assumes "0 < n" "n < 2 ^ 16" "thread_module_list w = []" "wt_tms w = TMS_init"
    "plugin_work_thread_list w = Map.empty" "tm_store (wt_timers w) = []"
  shows "wt_safe (init_work_thread_logic now tids async sync n ts ct w)"
proof -
  let ?v = "configure_threads async sync n ct w"
  let ?w = "(fold (create_work_thread now tids) [0..<n] ?v) \<lparr> module_init_finish := True \<rparr>"
  have keep: "thread_count (fold (create_work_thread now tids) is v) = thread_count v \<and>
      plugin_work_thread_list (fold (create_work_thread now tids) is v) = plugin_work_thread_list v \<and>
      wt_timers (fold (create_work_thread now tids) is v) = wt_timers v" for "is" and v :: "'a CWorkThreadLogic"
    by (induction "is" arbitrary: v) (simp_all add: create_work_thread_def)
  have n: "unat (of_nat n :: u16) = n" using assms(2) by (simp add: unat_of_nat take_bit_nat_eq_self)
  have "thread_module_list ?v = []" "wt_tms ?v = TMS_init" using assms by (simp_all add: configure_threads_def)
  note c = created_threads [OF this, of now tids n]
  have "wt_inv (started ?w)" using c n assms(1)
    by (simp add: wt_inv_def started_def keep init_logic_def)
      (simp add: configure_threads_def word_neq_0_conv [symmetric] unat_eq_0 [symmetric] del: unat_eq_0)
  moreover have "queued (started ?w) = {}" using c by (simp add: started_def queued_def)
  ultimately have "wt_safe (started ?w)"
    using assms by (simp add: wt_safe_def started_def keep configure_threads_def)
  moreover have "m_tmsEvents (wt_tms ?w) = []" using c by simp
  ultimately have "wt_safe (start_buffered_threads now tids ?w)" by (simp add: start_buffered_safe)
  hence "wt_safe (submit_buffered (start_buffered_threads now tids ?w))"
    by (simp add: submit_buffered_def Let_def fold_safe submit_safe)
  thus ?thesis by (simp add: init_work_thread_logic_def Let_def check_timer_safe)
qed


subsection \<open>Mailboxes\<close>

lemma of_nat_index_eq:
  "i < 2 ^ 16 \<Longrightarrow> j < 2 ^ 16 \<Longrightarrow> (of_nat i :: u32) = of_nat j \<longleftrightarrow> i = j"
proof -
  have "k < 2 ^ 16 \<Longrightarrow> unat (of_nat k :: u32) = k" for k by (simp add: unat_of_nat take_bit_nat_eq_self)
  thus "i < 2 ^ 16 \<Longrightarrow> j < 2 ^ 16 \<Longrightarrow> (of_nat i :: u32) = of_nat j \<longleftrightarrow> i = j" by metis
qed

lemma index_small: "wt_safe w \<Longrightarrow> i < length (thread_module_list w) \<Longrightarrow> i < 2 ^ 16"
  using unsigned_less [of "thread_count w", where ?'a = nat] by (simp add: wt_safe_def wt_inv_def)

lemma mailbox_post:
  assumes "wt_safe w" "i < length (thread_module_list w)" "j < length (thread_module_list w)"
  shows "mailbox_of j (post i x w) = mailbox_of j w @ (if i = j then [x] else [])"
proof -
  have "tms_is_start (wt_tms w)" "m_mapLogicList (wt_tms w) (of_nat i) \<noteq> None"
    using assms by (simp_all add: wt_safe_def wt_inv_def)
  moreover have "(of_nat i :: u32) = of_nat j \<longleftrightarrow> i = j"
    using index_small assms by (intro of_nat_index_eq) blast+
  ultimately show ?thesis
    by (auto simp: mailbox_of_def post_def AddMessage_def pending_def Put_def Push_def notify_one_def run_message_def)
qed

lemma emit_Nil [simp]: "emit [] w = w"
  by (simp add: emit_def)

lemma mailbox_emit [simp]: "mailbox_of j (emit es w) = mailbox_of j w"
  by (simp add: mailbox_of_def)

lemma messages_for_append [simp]: "messages_for c (xs @ ys) = messages_for c xs @ messages_for c ys"
  by (induction c xs rule: messages_for.induct) simp_all

lemma remove_sync_spec:
  "remove_sync tab source ms send =
    (filter (\<lambda>m. tab (msg_command_id m) = None) ms,
     fold (\<lambda>m send. snd (the (tab (msg_command_id m)) source m send))
       (filter (\<lambda>m. tab (msg_command_id m) \<noteq> None) ms) send)"
  by (induction ms arbitrary: send) (auto simp: do_sync_message_def split: option.split)

lemma assignation_effect:
  assumes "wt_safe w"
  obtains w' where "assignation_thread_module_logic S c ms s w = Some w'" "wt_safe w'"
    "wt_sync_functions w' = wt_sync_functions w" "thread_count w' = thread_count w"
    "\<forall>j < length (thread_module_list w). \<forall>d. messages_for d (mailbox_of j w') = messages_for d (mailbox_of j w) @
      (if d = c \<and> j = unat c mod unat (thread_count w)
       then filter (\<lambda>m. wt_sync_functions w (msg_command_id m) = None) ms else [])"
proof -
  obtain w' where w': "assignation_thread_module_logic S c ms s w = Some w'" "wt_safe w'"
    by (rule ends_safeE [OF safe_assignation(1) [OF assms]])
  obtain i where i: "thread_index c w = Some i" "i < length (thread_module_list w)"
    "i = unat c mod unat (thread_count w)" by (rule wt_safe_index [OF assms])
  let ?rest = "filter (\<lambda>m. wt_sync_functions w (msg_command_id m) = None) ms"
  let ?src = "CMessage_Source_default \<lparr> src_connect_id := c, src_type := so_io_type S s,
    src_connect_mark_id := so_mark_id S s c \<rparr>"
  obtain send where send: "do_sync_message_list (wt_sync_functions w) ?src ms new_packet = (?rest, send)"
    by (simp add: do_sync_message_list_def remove_sync_spec)
  define es where "es = (if length (msg_buffer send) > 0 then [Do_Write_Immediately s c (msg_buffer send)] else [])"
  have es: "w' = (if ?rest = [] then emit es w else post i (T_Module_Logic s c ?rest i) (emit es w))"
    using w'(1) i unfolding assignation_thread_module_logic_def Let_def send es_def
    by (simp add: thread_index_def thread_logic_def split: if_splits)
  have "messages_for d (mailbox_of j w') = messages_for d (mailbox_of j w) @ (if d = c \<and> j = i then ?rest else [])"
    if "j < length (thread_module_list w)" for j d
    using es i that mailbox_post [of "emit es w" i j] assms by auto
  with i(3) have mail: "\<forall>j < length (thread_module_list w). \<forall>d. messages_for d (mailbox_of j w') =
      messages_for d (mailbox_of j w) @ (if d = c \<and> j = unat c mod unat (thread_count w) then ?rest else [])"
    by blast
  have "wt_sync_functions w' = wt_sync_functions w" "thread_count w' = thread_count w" using es by simp_all
  from that [OF w' this mail] show ?thesis .
qed

lemma assign_all_spec:
  "wt_safe w \<Longrightarrow> \<exists>w'. assign_all S cs w = Some w' \<and> (\<forall>c. \<forall>j < unat (thread_count w).
     messages_for c (mailbox_of j w') = messages_for c (mailbox_of j w) @
       (if j = unat c mod unat (thread_count w) then async_messages (wt_sync_functions w) c cs else []))"
proof (induction cs arbitrary: w)
  case (Cons x cs)
  obtain c ms s where x: "x = (c, ms, s)" by (cases x) auto
  obtain w1 where w1: "assignation_thread_module_logic S c ms s w = Some w1" "wt_safe w1"
    "wt_sync_functions w1 = wt_sync_functions w" "thread_count w1 = thread_count w"
    "\<forall>j < length (thread_module_list w). \<forall>d. messages_for d (mailbox_of j w1) = messages_for d (mailbox_of j w) @
      (if d = c \<and> j = unat c mod unat (thread_count w)
       then filter (\<lambda>m. wt_sync_functions w (msg_command_id m) = None) ms else [])"
    by (rule assignation_effect [OF Cons.prems, of S c ms s])
  moreover have "length (thread_module_list w) = unat (thread_count w)"
    using Cons.prems by (simp add: wt_safe_def wt_inv_def)
  ultimately show ?case using Cons.IH [OF w1(2)] x by (auto simp: async_messages_def)
qed (simp add: async_messages_def)


subsection \<open>Answers\<close>

lemma module_logic_loop_spec:
  "snd (module_logic_loop S now source c ms m out) =
     out @ concat (map (reply_bytes S (modules_interface m) (ml_get_session c m) source c) ms)"
proof (induction ms arbitrary: m out)
  case (Cons recv ms)
  obtain ret send where ret: "do_module_message (modules_interface m) source recv new_packet = (ret, send)"
    by (cases "do_module_message (modules_interface m) source recv new_packet")
  then obtain m1 where m1: "do_thread_module_logic now source recv new_packet m = ((ret, send), m1)"
    "modules_interface m1 = modules_interface m" "ml_get_session c m1 = ml_get_session c m"
    by (simp add: do_thread_module_logic_def begin_module_logic_def ml_get_session_def Let_def)
  show ?case
    by (simp add: Cons.IH m1 ret reply_bytes_def [of S "modules_interface m" "ml_get_session c m" source c recv]
        Let_def split: option.split)
qed simp


subsection \<open>Sessions and bridges\<close>

lemma get_session_safe:
  "wt_safe w \<Longrightarrow> wt_get_session_interface c w =
     Some (ml_get_session c (thread_module_list w ! (unat c mod unat (thread_count w))))"
  by (rule wt_safe_index [of w c]) (auto simp: wt_get_session_interface_def thread_logic_def)

lemma ml_get_add:
  "ml_get_session d (ml_add_session c s l r m) =
     (if c = d \<and> ml_get_session c m = None then Some s else ml_get_session d m)"
  using get_add [of d c s l r "sessions_interface m"] by (auto simp: ml_get_session_def ml_add_session_def)

lemma ml_get_delete:
  "ml_get_session d (ml_delete_session c m) = (if c = d then None else ml_get_session d m)"
  by (simp add: ml_get_session_def ml_delete_session_def get_delete)

lemma echo_server_safe: "wt_safe echo_server"
  unfolding echo_server_def by (rule init_safe) (simp_all add: CWorkThreadLogic_init_def TimerMgr_init_def schedule_begin_def)

lemma echo_server_threads:
  "thread_module_list echo_server = [init_logic 0 echo_handlers 0, init_logic 0 echo_handlers 1]"
  "wt_out echo_server = []" "thread_count echo_server = 2" "wt_sync_functions echo_server = Map.empty"
  by (simp_all add: echo_server_def init_work_thread_logic_def configure_threads_def create_work_thread_def
      start_buffered_threads_def submit_buffered_def start_check_timer_def CWorkThreadLogic_init_def Let_def
      upt_conv_Cons)


subsection \<open>Properties\<close>



text \<open>
  C22.  Messages reach the thread of their connection, complete and in order: after
  any sequence of hand-overs, the mailbox of thread \<open>connect_id % thread_count\<close> has
  got, for each connection, exactly the messages without a synchronous handler in
  the order they came, and no other thread got any of them.
\<close>

theorem messages_reach_their_thread_in_order:
  assumes "wt_safe w"
  shows "\<exists>w'. assign_all S cs w = Some w' \<and> (\<forall>c. \<forall>j < unat (thread_count w).
     messages_for c (mailbox_of j w') = messages_for c (mailbox_of j w) @
       (if j = unat c mod unat (thread_count w) then async_messages (wt_sync_functions w) c cs else []))"
  by (rule assign_all_spec [OF assms])

theorem messages_reach_their_thread_in_order_witness:
  "\<exists>w'. assign_all echo_ops [(3, [new_packet \<lparr> msg_command_id := 9 \<rparr>], 7), (4, [new_packet], 8), (3, [new_packet], 7)] echo_server
      = Some w' \<and>
    (\<forall>c. \<forall>j < unat (thread_count echo_server).
     messages_for c (mailbox_of j w') = messages_for c (mailbox_of j echo_server) @
       (if j = unat c mod unat (thread_count echo_server)
        then async_messages (wt_sync_functions echo_server) c
          [(3, [new_packet \<lparr> msg_command_id := 9 \<rparr>], 7 :: nat), (4, [new_packet], 8), (3, [new_packet], 7)] else []))"
  using messages_reach_their_thread_in_order [OF echo_server_safe, of echo_ops
      "[(3, [new_packet \<lparr> msg_command_id := 9 \<rparr>], 7), (4, [new_packet], 8), (3, [new_packet], 7)]"] .

text \<open>
  C36.  One write per batch: running a batch of messages on a work thread writes the
  concatenation of the handlers' answers, formatted where the session asks for it,
  in message order and in one write; without any answer nothing is written.
\<close>

theorem answers_in_one_write:
  assumes "wt_safe w" "i < length (thread_module_list w)"
  shows "let m = thread_module_list w ! i;
      source = CMessage_Source_default \<lparr> src_connect_id := c, src_work_thread_id := work_thread_id m,
        src_type := so_io_type S s, src_connect_mark_id := so_mark_id S s c \<rparr>;
      bs = concat (map (reply_bytes S (modules_interface m) (ml_get_session c m) source c) ms) in
    \<exists>w'. do_work_thread_module_logic S now s c ms i w = Some w' \<and>
      wt_out w' = wt_out w @ (if bs = [] then [] else [Set_Write_Buffer s c bs, Do_Write s c])"
proof -
  let ?m = "thread_module_list w ! i"
  let ?source = "CMessage_Source_default \<lparr> src_connect_id := c, src_work_thread_id := work_thread_id ?m,
      src_type := so_io_type S s, src_connect_mark_id := so_mark_id S s c \<rparr>"
  obtain m1 where "module_logic_loop S now ?source c ms ?m [] =
      (m1, concat (map (reply_bytes S (modules_interface ?m) (ml_get_session c ?m) ?source c) ms))"
    using module_logic_loop_spec [of S now ?source c ms ?m "[]"]
    by (cases "module_logic_loop S now ?source c ms ?m []") simp
  thus ?thesis using assms(2)
    by (simp add: do_work_thread_module_logic_def thread_logic_def Let_def)
qed

theorem answers_in_one_write_witness:
  "\<exists>w'. do_work_thread_module_logic echo_ops 5 7 3
      [new_packet \<lparr> msg_command_id := 9, msg_buffer := [1, 2] \<rparr>, new_packet, new_packet \<lparr> msg_command_id := 9, msg_buffer := [3] \<rparr>]
      1 (set_thread 1 (ml_add_session 3 7 ClientIPInfo_default ClientIPInfo_default (init_logic 0 echo_handlers 1)) echo_server)
      = Some w' \<and> wt_out w' = [Set_Write_Buffer 7 3 [1, 2, 3], Do_Write 7 3]"
proof -
  let ?w = "set_thread 1 (ml_add_session 3 7 ClientIPInfo_default ClientIPInfo_default (init_logic 0 echo_handlers 1)) echo_server"
  have "wt_safe ?w" by (intro wt_safe_set_thread echo_server_safe) (simp add: echo_server_threads)
  from answers_in_one_write [OF this, where i = 1 and c = 3 and S = echo_ops and s = 7 and now = 5 and
      ms = "[new_packet \<lparr> msg_command_id := 9, msg_buffer := [1, 2] \<rparr>, new_packet, new_packet \<lparr> msg_command_id := 9, msg_buffer := [3] \<rparr>]"]
  show ?thesis
    by (simp add: Let_def echo_server_threads ml_add_session_def ml_get_session_def reply_bytes_def
        do_module_message_def echo_handlers_def echo_ops_def new_packet_def init_logic_def
        add_session_interface_def get_session_interface_def start_check_def CSessionInterface_init_def)
qed

text \<open>
  Synchronous and asynchronous handling split a batch exactly: every message with
  a synchronous handler is handled by it once, in order, on the same answer packet,
  and every other message is kept, in order.
\<close>

theorem sync_messages_split:
  "do_sync_message_list tab source ms send =
    (filter (\<lambda>m. tab (msg_command_id m) = None) ms,
     fold (\<lambda>m send. snd (the (tab (msg_command_id m)) source m send))
       (filter (\<lambda>m. tab (msg_command_id m) \<noteq> None) ms) send)"
  by (simp only: do_sync_message_list_def remove_sync_spec)

text \<open>
  A connection can be looked up exactly between its connect and its disconnect:
  \<open>get_session_interface\<close> returns the session after \<open>add_thread_session\<close>, null after
  \<open>delete_thread_session\<close>, and the entries of other connections do not change.
\<close>

theorem session_visible_while_connected:
  assumes "wt_safe w" "wt_get_session_interface c w = Some None"
  shows "\<exists>w1 w2. add_thread_session S c s l r w = Some w1 \<and> delete_thread_session S c s l ty w1 = Some w2 \<and>
    wt_get_session_interface c w1 = Some (Some s) \<and> wt_get_session_interface c w2 = Some None \<and>
    (\<forall>d. d \<noteq> c \<longrightarrow> wt_get_session_interface d w1 = wt_get_session_interface d w \<and>
       wt_get_session_interface d w2 = wt_get_session_interface d w)"
proof -
  obtain w1 where w1: "add_thread_session S c s l r w = Some w1" "wt_safe w1"
    by (rule ends_safeE [OF safe_connect [OF assms(1)]])
  obtain w2 where w2: "delete_thread_session S c s l ty w1 = Some w2" "wt_safe w2"
    by (rule ends_safeE [OF safe_disconnect [OF w1(2)]])
  let ?i = "unat c mod unat (thread_count w)"
  have i: "?i < length (thread_module_list w)" using assms(1) by (auto elim: wt_safe_index [of _ c])
  have 1: "thread_module_list w1 = (thread_module_list w)[?i := ml_add_session c s l r (thread_module_list w ! ?i)]"
    "thread_count w1 = thread_count w"
    using w1(1) i by (auto simp: add_thread_session_def thread_index_def thread_logic_def Let_def
        split: if_splits prod.splits)
  have 2: "thread_module_list w2 = (thread_module_list w1)[?i := ml_delete_session c (thread_module_list w1 ! ?i)]"
    "thread_count w2 = thread_count w"
    using w2(1) 1 i by (auto simp: delete_thread_session_def thread_index_def thread_logic_def Let_def
        split: if_splits prod.splits)
  have "wt_get_session_interface d w1 = (if d = c then Some (Some s) else wt_get_session_interface d w)" for d
    using 1 i assms get_session_safe [OF w1(2), of d] get_session_safe [OF assms(1)]
    by (auto simp: nth_list_update ml_get_add)
  moreover have "wt_get_session_interface d w2 = (if d = c then Some None else wt_get_session_interface d w1)" for d
    using 1 2 i get_session_safe [OF w2(2), of d] get_session_safe [OF w1(2), of d]
    by (auto simp: nth_list_update ml_get_delete)
  ultimately show ?thesis using w1(1) w2(1) by auto
qed

theorem session_visible_while_connected_witness:
  "\<exists>w1 w2. add_thread_session echo_ops 3 7 ClientIPInfo_default ClientIPInfo_default echo_server = Some w1 \<and>
    delete_thread_session echo_ops 3 7 ClientIPInfo_default CONNECT_IO_TCP w1 = Some w2 \<and>
    wt_get_session_interface 3 w1 = Some (Some 7) \<and> wt_get_session_interface 3 w2 = Some None"
proof -
  have "wt_get_session_interface 3 echo_server = Some None"
    by (simp add: wt_get_session_interface_def thread_index_def thread_logic_def echo_server_threads
        ml_get_session_def init_logic_def get_session_interface_def start_check_def CSessionInterface_init_def)
  from session_visible_while_connected [OF echo_server_safe this, where S = echo_ops and s = 7
      and l = ClientIPInfo_default and r = ClientIPInfo_default and ty = CONNECT_IO_TCP]
  show ?thesis by blast
qed

text \<open>
  Bridged data is never dropped silently: \<open>do_io_bridge_data\<close> consumes exactly the
  received bytes, and either writes them to the peer's session (result 0), or hands
  them back to the work thread of the sender with \<open>LOGIC_IOTOIO_DATA_ERROR\<close>, because
  the peer has gone (result 1) or there is none (result 2).
\<close>

theorem bridge_data_delivered_or_reported:
  assumes "wt_safe w" "len \<le> length (sb_buffer sb)"
  shows "let bs = take len (sb_buffer sb);
      report = assignation_thread_module_logic S c
        [new_packet \<lparr> msg_buffer := bs, msg_command_id := LOGIC_IOTOIO_DATA_ERROR \<rparr>] s w in
    \<exists>w'. report = Some w' \<and>
    do_io_bridge_data S c peer sb len s w =
      (if peer = 0 then Some (2, move_buffer len sb, w')
       else case wt_get_session_interface peer w of
         Some (Some t) \<Rightarrow> Some (0, move_buffer len sb, emit [Do_Write_Immediately t peer bs] w)
       | _ \<Rightarrow> Some (1, move_buffer len sb, w'))"
proof -
  let ?p = "new_packet \<lparr> msg_buffer := take len (sb_buffer sb), msg_command_id := LOGIC_IOTOIO_DATA_ERROR \<rparr>"
  obtain w' where w': "assignation_thread_module_logic S c [?p] s w = Some w'"
    by (rule ends_safeE [OF safe_assignation(1) [OF assms(1), of S c "[?p]" s]])
  obtain i where i: "thread_index peer w = Some i" "i < length (thread_module_list w)"
    by (rule wt_safe_index [OF assms(1)])
  show ?thesis using assms(2) w' i
    by (auto simp: do_io_bridge_data_def send_io_bridge_message_fail_def send_io_bridge_message_def Let_def
        wt_get_session_interface_def thread_logic_def read_ptr_def mem_slice_def word_neq_0_conv [symmetric]
        split: option.split)
qed

theorem bridge_data_delivered_or_reported_witness:
  "\<exists>w'. do_io_bridge_data echo_ops 3 4 \<lparr> sb_buffer = [1, 2, 3], sb_write_size = 2, sb_max_buff_size = 3 \<rparr> 2 7 echo_server
     = Some (1, move_buffer 2 \<lparr> sb_buffer = [1, 2, 3], sb_write_size = 2, sb_max_buff_size = 3 \<rparr>, w')"
proof -
  have "wt_get_session_interface 4 echo_server = Some None"
    by (simp add: wt_get_session_interface_def thread_index_def thread_logic_def echo_server_threads
        ml_get_session_def init_logic_def get_session_interface_def start_check_def CSessionInterface_init_def)
  with bridge_data_delivered_or_reported [OF echo_server_safe, where len = 2 and S = echo_ops and c = 3 and peer = 4
      and sb = "\<lparr> sb_buffer = [1, 2, 3], sb_write_size = 2, sb_max_buff_size = 3 \<rparr>" and s = 7]
  show ?thesis by (auto simp: Let_def)
qed

text \<open>
  The dead-lock report is not JSON: whatever the numbers, the text sent to the
  plugins has an odd number of quotation marks.
\<close>

theorem dead_lock_text_unbalanced:
  "odd (count_list (dead_lock_text thread_id command_id timeout) CHR 0x22)"
proof -
  have "count_list (to_string n) CHR 0x22 = 0" for n
    using to_string_digits [of "CHR 0x22" n] by (intro count_notin) auto
  thus ?thesis by (simp add: dead_lock_text_def count_list_append)
qed

text \<open>
  A thread that was idle looks dead-locked as soon as it works: while a handler
  runs, the reported time counts from the end of the previous message, not from the
  start of this one, so a thread idle for longer than the limit is reported at once.
\<close>

theorem idle_thread_reported_dead_locked:
  assumes "10 ^ 9 * (limit + 1) \<le> idle"
  shows "limit < get_work_thread_timeout (t + idle)
    (begin_module_logic next (snd (do_thread_module_logic t source recv send m)))"
  using assms by (simp add: get_work_thread_timeout_def begin_module_logic_def do_thread_module_logic_def Let_def)

theorem idle_thread_reported_dead_locked_witness:
  "(30 :: int) < get_work_thread_timeout (31 * 10 ^ 9)
    (begin_module_logic new_packet
      (snd (do_thread_module_logic 0 CMessage_Source_default new_packet new_packet (init_logic 0 echo_handlers 1 :: nat CModuleLogic))))"
  using idle_thread_reported_dead_locked [of 30 "31 * 10 ^ 9" 0 new_packet CMessage_Source_default new_packet new_packet
      "init_logic 0 echo_handlers 1 :: nat CModuleLogic"]
  by simp

end
