(* ===== verification/Packet_Parse.thy ===== *)
theory Packet_Parse
  imports Session_Buffer Frame_Types
begin

text \<open>
  The binary packet parser: a packet has a header of 40 bytes (version, command
  id, body length, session string) and a body.  On a stream the parser cuts the
  committed bytes of the receive buffer into packets; a datagram is one packet.

  The parser reads the array itself.  A read outside the allocated array is
  undefined, \<open>None\<close>; a read behind the committed bytes but inside the array is a
  read of old contents and is modelled as such.  The loop of the stream parser
  decreases a \<open>size_t\<close> that may wrap around, so it is a \<open>partial_function\<close>: a
  loop that does not end is \<open>None\<close> as well.
\<close>


section \<open>The binary packet parser (PacketParse\_Interface/PacketParse\_Interface.cpp)\<close>


subsection \<open>Definitions\<close>

definition is_need_send_format :: bool where
  "is_need_send_format = False"

text \<open>The header fields the parser uses, at offset \<open>pos\<close>.\<close>

definition header_command :: "nat \<Rightarrow> bytes \<Rightarrow> u16" where
  "header_command pos mem = le_word (mem_slice (pos + 2) 2 mem)"

definition header_body_length :: "nat \<Rightarrow> bytes \<Rightarrow> u32" where
  "header_body_length pos mem = le_word (mem_slice (pos + 4) 4 mem)"

definition logic_packet :: "nat \<Rightarrow> nat \<Rightarrow> bytes \<Rightarrow> CMessage_Packet" where
  "logic_packet pos len mem =
     \<lparr> msg_param_arg = [], msg_buffer = mem_slice pos len mem, msg_command_id = header_command pos mem \<rparr>"

type_synonym parse_result = "bool \<times> CSessionBuffer \<times> CMessage_Packet list"

partial_function (option) stream_loop ::
  "CSessionBuffer \<Rightarrow> u32 \<Rightarrow> u64 \<Rightarrow> CMessage_Packet list \<Rightarrow> parse_result option" where
  "stream_loop sb packet_pos buff_length message_list =
    (if buff_length < 40 then Some (True, move_buffer (unat packet_pos) sb, message_list)
     else if unat packet_pos + 40 > length (sb_buffer sb) then None
     else
       let packet_body_length = header_body_length (unat packet_pos) (sb_buffer sb) in
       if packet_body_length \<ge> 1024000 then Some (False, sb, message_list)
       else if packet_body_length = 0
       then stream_loop sb (packet_pos + 40) (buff_length - 40)
              (message_list @ [logic_packet (unat packet_pos) 40 (sb_buffer sb)])
       else if buff_length < ucast packet_body_length
       then Some (True, move_buffer (unat packet_pos) sb, message_list)
       else if unat packet_pos + (40 + unat packet_body_length) > length (sb_buffer sb) then None
       else
         let curr_packet_size = 40 + packet_body_length in
         stream_loop sb (packet_pos + curr_packet_size) (buff_length - ucast curr_packet_size)
           (message_list @ [logic_packet (unat packet_pos) (40 + unat packet_body_length) (sb_buffer sb)]))"

definition parse_packet_from_recv_buffer_stream ::
  "CSessionBuffer \<Rightarrow> CMessage_Packet list \<Rightarrow> parse_result option" where
  "parse_packet_from_recv_buffer_stream sb message_list =
     stream_loop sb 0 (of_nat (get_write_size sb)) message_list"

text \<open>A datagram: \<open>buff_length\<close> is a \<open>size_t\<close> and wraps around like in the loop above.\<close>

definition parse_packet_from_recv_buffer_single ::
  "CSessionBuffer \<Rightarrow> CMessage_Packet list \<Rightarrow> parse_result option" where
  "parse_packet_from_recv_buffer_single sb message_list =
    (let buff_length = (of_nat (get_write_size sb) :: u64) in
     if buff_length < 40 then Some (False, move_buffer (unat buff_length) sb, message_list)
     else if 40 > length (sb_buffer sb) then None
     else
       let packet_body_length = header_body_length 0 (sb_buffer sb) in
       if packet_body_length \<ge> 1024000 then Some (False, move_buffer (unat buff_length) sb, message_list)
       else if packet_body_length = 0
       then Some (True, move_buffer (unat (buff_length - 40)) sb, message_list @ [logic_packet 0 40 (sb_buffer sb)])
       else if buff_length < ucast packet_body_length
       then Some (False, move_buffer (unat buff_length) sb, message_list)
       else if 40 + unat packet_body_length > length (sb_buffer sb) then None
       else Some (True, move_buffer (unat (buff_length - ucast (40 + packet_body_length))) sb,
              message_list @ [logic_packet 0 (40 + unat packet_body_length) (sb_buffer sb)]))"

definition parse_packet_from_recv_buffer ::
  "EM_CONNECT_IO_TYPE \<Rightarrow> CSessionBuffer \<Rightarrow> CMessage_Packet list \<Rightarrow> parse_result option" where
  "parse_packet_from_recv_buffer emIOType sb message_list =
    (if emIOType = CONNECT_IO_SERVER_TCP \<or> emIOType = CONNECT_IO_TCP
     then parse_packet_from_recv_buffer_stream sb message_list
     else if emIOType = CONNECT_IO_SERVER_UDP \<or> emIOType = CONNECT_IO_UDP
     then parse_packet_from_recv_buffer_single sb message_list
     else if emIOType = CONNECT_IO_KCP then parse_packet_from_recv_buffer_single sb message_list
     else parse_packet_from_recv_buffer_stream sb message_list)"

definition parse_packet_format_send_buffer :: "CMessage_Packet \<Rightarrow> CMessage_Packet option" where
  "parse_packet_format_send_buffer message = None"

text \<open>The packets of the protocol, for the specification.\<close>

record packet =
  pk_version :: u16
  pk_command :: u16
  pk_session :: bytes
  pk_body :: bytes

definition valid_packet :: "packet \<Rightarrow> bool" where
  "valid_packet p \<longleftrightarrow> length (pk_session p) = 32 \<and> length (pk_body p) < 1024000"

definition packet_bytes :: "packet \<Rightarrow> bytes" where
  "packet_bytes p = le_bytes 2 (pk_version p) @ le_bytes 2 (pk_command p) @
     le_bytes 4 (of_nat (length (pk_body p)) :: u32) @ pk_session p @ pk_body p"

definition packet_message :: "packet \<Rightarrow> CMessage_Packet" where
  "packet_message p = \<lparr> msg_param_arg = [], msg_buffer = packet_bytes p, msg_command_id = pk_command p \<rparr>"

text \<open>The rests on which the parser waits for more: the header, or not even as many bytes as the body has.\<close>

definition waiting :: "bytes \<Rightarrow> bool" where
  "waiting rest \<longleftrightarrow> length rest < 40 \<or>
     (header_body_length 0 rest < 1024000 \<and> length rest < unat (header_body_length 0 rest))"


subsection \<open>Packets in memory\<close>

lemma length_packet_bytes: "length (packet_bytes p) = 8 + length (pk_session p) + length (pk_body p)"
  by (simp add: packet_bytes_def)

lemma packet_length: "valid_packet p \<Longrightarrow> length (packet_bytes p) = 40 + length (pk_body p)"
  by (simp add: length_packet_bytes valid_packet_def)

lemma mem_slice_at:
  "length pre = pos \<Longrightarrow> mem_slice (pos + off) n (pre @ mem) = mem_slice off n mem"
  by (simp add: mem_slice_def)

lemma header_at:
  "length pre = pos \<Longrightarrow> header_command pos (pre @ mem) = header_command 0 mem"
  "length pre = pos \<Longrightarrow> header_body_length pos (pre @ mem) = header_body_length 0 mem"
  by (simp_all add: header_command_def header_body_length_def mem_slice_at del: add_2_eq_Suc')

lemma header_packet:
  "header_command 0 (packet_bytes p @ mem) = pk_command p"
  "header_body_length 0 (packet_bytes p @ mem) = of_nat (length (pk_body p))"
  by (simp_all add: header_command_def header_body_length_def packet_bytes_def mem_slice_def)

lemma body_length_small:
  assumes "valid_packet p"
  shows "unat (of_nat (length (pk_body p)) :: u32) = length (pk_body p)"
    "(of_nat (length (pk_body p)) :: u32) < 1024000"
    "(of_nat (length (pk_body p)) :: u32) = 0 \<longleftrightarrow> pk_body p = []"
proof -
  show *: "unat (of_nat (length (pk_body p)) :: u32) = length (pk_body p)"
    using assms by (simp add: valid_packet_def unat_of_nat take_bit_nat_eq_self)
  show "(of_nat (length (pk_body p)) :: u32) < 1024000"
    using assms * by (simp add: word_less_nat_alt valid_packet_def)
  show "(of_nat (length (pk_body p)) :: u32) = 0 \<longleftrightarrow> pk_body p = []"
    unfolding unat_eq_0 [symmetric] * by simp
qed

lemma logic_packet_at:
  assumes "length pre = pos" "valid_packet p"
  shows "logic_packet pos (40 + length (pk_body p)) (pre @ packet_bytes p @ mem) = packet_message p"
  using assms mem_slice_at [of pre pos 0] packet_length [of p]
  by (simp add: logic_packet_def packet_message_def header_at header_packet mem_slice_def)

lemma unat_small: "n < 2 ^ 32 \<Longrightarrow> unat (of_nat n :: u32) = n" "n < 2 ^ 32 \<Longrightarrow> unat (of_nat n :: u64) = n"
  by (simp_all add: unat_of_nat take_bit_nat_eq_self)

lemma less_small: "n < 2 ^ 32 \<Longrightarrow> m < 2 ^ 32 \<Longrightarrow> (of_nat n :: u64) < of_nat m \<longleftrightarrow> n < m"
  by (simp add: word_less_nat_alt unat_small)

lemma ucast_of_nat32: "n < 2 ^ 32 \<Longrightarrow> (ucast (of_nat n :: u32) :: u64) = of_nat n"
  by (simp add: word_unat_eq_iff unsigned_ucast_eq unat_small take_bit_nat_eq_self)


subsection \<open>The loop\<close>

lemma stream_loop_step:
  assumes "valid_packet p" "sb_buffer sb = pre @ packet_bytes p @ mem" "length (sb_buffer sb) < 2 ^ 32"
    "length (packet_bytes p) + n \<le> length (packet_bytes p @ mem)"
  shows "stream_loop sb (of_nat (length pre)) (of_nat (length (packet_bytes p) + n)) ms =
    stream_loop sb (of_nat (length pre + length (packet_bytes p))) (of_nat n) (ms @ [packet_message p])"
proof -
  let ?b = "length (pk_body p)"
  have len: "length (packet_bytes p) = 40 + ?b" by (rule packet_length [OF assms(1)])
  have total: "length pre + (40 + ?b) + n \<le> length (sb_buffer sb)" using assms(2, 4) len by simp
  have pos: "unat (of_nat (length pre) :: u32) = length pre" using assms(3) total by (intro unat_small) simp
  have hd: "header_body_length (length pre) (sb_buffer sb) = of_nat ?b"
    using assms(2) by (simp add: header_at header_packet)
  have lp: "logic_packet (length pre) (40 + ?b) (sb_buffer sb) = packet_message p"
    unfolding assms(2) by (rule logic_packet_at [OF refl assms(1)])
  have "\<not> (of_nat (40 + ?b + n) :: u64) < of_nat 40" "\<not> (of_nat (40 + ?b + n) :: u64) < of_nat ?b"
    using assms(3) total by (subst less_small; simp)+
  hence guards: "\<not> (of_nat (40 + ?b + n) :: u64) < 40" "\<not> (of_nat (40 + ?b + n) :: u64) < ucast (of_nat ?b :: u32)"
    using assms(3) total by (simp_all add: ucast_of_nat32)
  have "(of_nat (length pre) :: u32) + (40 + of_nat ?b) = of_nat (length pre + (40 + ?b))"
    "(of_nat (40 + ?b + n) :: u64) - ucast (40 + of_nat ?b :: u32) = of_nat n"
    using assms(3) total ucast_of_nat32 [of "40 + ?b"] by simp_all
  note next_loop = this
  have small: "\<not> 1024000 \<le> (of_nat ?b :: u32)" "(of_nat ?b :: u32) = 0 \<longleftrightarrow> pk_body p = []"
    "unat (of_nat ?b :: u32) = ?b"
    using body_length_small [OF assms(1)] by (simp_all add: not_le)
  have "\<not> length (sb_buffer sb) < length pre + 40" "\<not> length (sb_buffer sb) < length pre + (40 + ?b)"
    using total by simp_all
  thus ?thesis
    unfolding len by (subst stream_loop.simps)
      (cases "pk_body p = []"; use next_loop small lp guards in \<open>simp add: pos hd Let_def del: of_nat_add\<close>)
qed

lemma stream_loop_packets:
  assumes "list_all valid_packet ps" "sb_buffer sb = pre @ concat (map packet_bytes ps) @ rest @ tail"
    "length (sb_buffer sb) < 2 ^ 32"
  shows "stream_loop sb (of_nat (length pre)) (of_nat (length (concat (map packet_bytes ps)) + length rest)) ms =
    stream_loop sb (of_nat (length (pre @ concat (map packet_bytes ps)))) (of_nat (length rest))
      (ms @ map packet_message ps)"
  using assms
proof (induction ps arbitrary: pre ms)
  case (Cons p ps)
  let ?c = "concat (map packet_bytes ps)"
  have "stream_loop sb (of_nat (length pre)) (of_nat (length (packet_bytes p) + (length ?c + length rest))) ms =
      stream_loop sb (of_nat (length pre + length (packet_bytes p))) (of_nat (length ?c + length rest))
        (ms @ [packet_message p])"
    using Cons.prems by (intro stream_loop_step [where mem = "?c @ rest @ tail"]) simp_all
  with Cons.IH [of "pre @ packet_bytes p" "ms @ [packet_message p]"] Cons.prems show ?case
    by (simp add: add.assoc del: of_nat_add)
qed simp

lemma stream_loop_end:
  assumes "sb_buffer sb = pre @ rest @ tail" "length (sb_buffer sb) < 2 ^ 32"
  shows "waiting rest \<Longrightarrow>
      stream_loop sb (of_nat (length pre)) (of_nat (length rest)) ms = Some (True, move_buffer (length pre) sb, ms)"
    "40 \<le> length rest \<Longrightarrow> 1024000 \<le> header_body_length 0 rest \<Longrightarrow>
      stream_loop sb (of_nat (length pre)) (of_nat (length rest)) ms = Some (False, sb, ms)"
proof -
  have pos: "unat (of_nat (length pre) :: u32) = length pre" and n: "unat (of_nat (length rest) :: u64) = length rest"
    using assms by (intro unat_small; simp)+
  have hd: "40 \<le> length rest \<Longrightarrow> header_body_length (length pre) (sb_buffer sb) = header_body_length 0 rest"
    unfolding assms(1) by (simp add: header_at) (simp add: header_body_length_def mem_slice_def)
  have room: "40 \<le> length rest \<Longrightarrow> \<not> length (sb_buffer sb) < length pre + 40" using assms(1) by simp
  have head: "(of_nat (length rest) :: u64) < 40 \<longleftrightarrow> length rest < 40" by (simp add: word_less_nat_alt n)
  have body: "(of_nat (length rest) :: u64) < ucast w \<longleftrightarrow> length rest < unat w" for w :: u32
    using unsigned_less [of w, where ?'a = nat]
    by (simp add: word_less_nat_alt n unsigned_ucast_eq take_bit_nat_eq_self)
  show "stream_loop sb (of_nat (length pre)) (of_nat (length rest)) ms = Some (True, move_buffer (length pre) sb, ms)"
    if "waiting rest"
  proof (cases "length rest < 40")
    case True
    thus ?thesis by (subst stream_loop.simps) (simp add: head pos)
  next
    case False
    with that have w: "\<not> 1024000 \<le> header_body_length 0 rest" "length rest < unat (header_body_length 0 rest)"
      by (auto simp: waiting_def not_le)
    hence "header_body_length 0 rest \<noteq> 0" by auto
    with False w hd room show ?thesis by (subst stream_loop.simps) (simp add: head body pos Let_def)
  qed
  show "stream_loop sb (of_nat (length pre)) (of_nat (length rest)) ms = Some (False, sb, ms)"
    if "40 \<le> length rest" "1024000 \<le> header_body_length 0 rest"
    using that hd room by (subst stream_loop.simps) (simp add: head pos Let_def)
qed

lemma contents_split:
  assumes "sb_inv sb" "contents sb = c @ rest"
  obtains tail where "sb_buffer sb = c @ rest @ tail" "sb_write_size sb = length c + length rest"
proof
  show "sb_buffer sb = c @ rest @ drop (sb_write_size sb) (sb_buffer sb)"
    using assms(2) append_take_drop_id [of "sb_write_size sb" "sb_buffer sb"] by (simp add: contents_def)
  show "sb_write_size sb = length c + length rest"
    using assms length_contents [of sb] by simp
qed


subsection \<open>Behind the committed bytes\<close>

lemma stream_loop_zeros:
  assumes "\<forall>i. pos \<le> i \<longrightarrow> i < length (sb_buffer sb) \<longrightarrow> sb_buffer sb ! i = 0" "length (sb_buffer sb) < 2 ^ 32 - 40"
    "pos \<le> length (sb_buffer sb)" "length (sb_buffer sb) - pos + 40 \<le> unat bl"
  shows "stream_loop sb (of_nat pos) bl ms = None"
  using assms
proof (induction "length (sb_buffer sb) - pos" arbitrary: pos bl ms rule: less_induct)
  case less
  have pos: "unat (of_nat pos :: u32) = pos" using less.prems by (intro unat_small) simp
  have bl: "\<not> bl < 40" using less.prems(4) by (simp add: word_less_nat_alt)
  show ?case
  proof (cases "pos + 40 > length (sb_buffer sb)")
    case True
    with pos bl show ?thesis by (subst stream_loop.simps) simp
  next
    case False
    have "mem_slice (pos + 4) 4 (sb_buffer sb) = replicate 4 0"
      using False less.prems(1) by (intro nth_equalityI) (auto simp: mem_slice_def)
    hence "header_body_length pos (sb_buffer sb) = 0"
      by (simp add: header_body_length_def numeral_eq_Suc)
    with False pos bl have "stream_loop sb (of_nat pos) bl ms =
        stream_loop sb (of_nat (pos + 40)) (bl - 40) (ms @ [logic_packet pos 40 (sb_buffer sb)])"
      by (subst stream_loop.simps) (simp add: Let_def)
    moreover have "unat (bl - 40) = unat bl - 40" using bl by (simp add: unat_sub not_less)
    ultimately show ?thesis using less.hyps [of "pos + 40" "bl - 40"] less.prems False by simp
  qed
qed


subsection \<open>Properties\<close>

lemma stream_parse_packets:
  assumes "sb_inv sb" "length (sb_buffer sb) < 2 ^ 32" "list_all valid_packet ps"
    "contents sb = concat (map packet_bytes ps) @ rest" "waiting rest"
  shows "parse_packet_from_recv_buffer CONNECT_IO_TCP sb [] =
    Some (True, move_buffer (length (concat (map packet_bytes ps))) sb, map packet_message ps)"
proof -
  let ?c = "concat (map packet_bytes ps)"
  obtain tail where sb: "sb_buffer sb = ?c @ rest @ tail" "sb_write_size sb = length ?c + length rest"
    by (rule contents_split [OF assms(1, 4)])
  show ?thesis
    using stream_loop_packets [of ps sb "[]" rest tail "[]"] stream_loop_end(1) [of sb ?c rest tail] sb assms
    by (simp add: parse_packet_from_recv_buffer_def parse_packet_from_recv_buffer_stream_def get_write_size_def)
qed

text \<open>
  C6.  A stream is cut exactly at its packet boundaries: when the receive buffer holds
  packets followed by a rest on which the parser waits, the parser succeeds,
  delivers the packets in order with their command ids, bytes and nothing else, and
  leaves exactly the rest in the buffer.
\<close>

theorem stream_parse_exact:
  assumes "sb_inv sb" "length (sb_buffer sb) < 2 ^ 32" "list_all valid_packet ps"
    "contents sb = concat (map packet_bytes ps) @ rest" "waiting rest"
  shows "\<exists>sb'. parse_packet_from_recv_buffer CONNECT_IO_TCP sb [] = Some (True, sb', map packet_message ps) \<and>
    contents sb' = rest \<and> sb_inv sb'"
  using stream_parse_packets [OF assms] assms by (simp add: contents_move_buffer move_buffer_inv)

theorem stream_parse_exact_witness:
  "let p = \<lparr> pk_version = 1, pk_command = 9, pk_session = replicate 32 0, pk_body = [5] \<rparr>;
       sb = \<lparr> sb_buffer = packet_bytes p @ [1, 0, 0], sb_write_size = 42, sb_max_buff_size = 44 \<rparr> in
   \<exists>sb'. parse_packet_from_recv_buffer CONNECT_IO_TCP sb [] = Some (True, sb', [packet_message p]) \<and>
     contents sb' = [1] \<and> sb_inv sb'"
proof -
  let ?p = "\<lparr> pk_version = 1, pk_command = 9, pk_session = replicate 32 0, pk_body = [5] \<rparr>"
  let ?sb = "\<lparr> sb_buffer = packet_bytes ?p @ [1, 0, 0], sb_write_size = 42, sb_max_buff_size = 44 \<rparr>"
  have "length (packet_bytes ?p) = 41" by (simp add: length_packet_bytes)
  thus ?thesis using stream_parse_exact [of ?sb "[?p]" "[1]"]
    by (simp add: Let_def sb_inv_def contents_def valid_packet_def waiting_def)
qed

text \<open>
  An oversized packet closes the connection: when the packets in the buffer are
  followed by a header that announces a body of 1024000 bytes or more, the parser
  fails, having delivered exactly the packets before it.
\<close>

theorem stream_parse_oversized:
  assumes "sb_inv sb" "length (sb_buffer sb) < 2 ^ 32" "list_all valid_packet ps"
    "contents sb = concat (map packet_bytes ps) @ rest" "40 \<le> length rest" "1024000 \<le> header_body_length 0 rest"
  shows "parse_packet_from_recv_buffer CONNECT_IO_TCP sb [] = Some (False, sb, map packet_message ps)"
proof -
  let ?c = "concat (map packet_bytes ps)"
  obtain tail where sb: "sb_buffer sb = ?c @ rest @ tail" "sb_write_size sb = length ?c + length rest"
    by (rule contents_split [OF assms(1, 4)])
  thus ?thesis
    using stream_loop_packets [of ps sb "[]" rest tail "[]"] stream_loop_end(2) [of sb ?c rest tail] assms
    by (simp add: parse_packet_from_recv_buffer_def parse_packet_from_recv_buffer_stream_def get_write_size_def)
qed

theorem stream_parse_oversized_witness:
  "let sb = \<lparr> sb_buffer = [0, 0, 0, 0, 255, 255, 255, 255] @ replicate 32 0, sb_write_size = 40, sb_max_buff_size = 40 \<rparr> in
   parse_packet_from_recv_buffer CONNECT_IO_TCP sb [] = Some (False, sb, [])"
  using stream_parse_oversized [of "\<lparr> sb_buffer = [0, 0, 0, 0, 255, 255, 255, 255] @ replicate 32 0,
      sb_write_size = 40, sb_max_buff_size = 40 \<rparr>" "[]" "[0, 0, 0, 0, 255, 255, 255, 255] @ replicate 32 0"]
  by (simp add: Let_def sb_inv_def contents_def header_body_length_def mem_slice_def)



text \<open>
  A datagram with a whole packet is delivered as that packet, whatever bytes
  follow it in the datagram; a datagram shorter than a header is refused and
  dropped.
\<close>

theorem datagram_parse:
  assumes "sb_inv sb" "length (sb_buffer sb) < 2 ^ 32"
  shows "(valid_packet p \<and> contents sb = packet_bytes p @ extra \<longrightarrow>
      (\<exists>sb'. parse_packet_from_recv_buffer CONNECT_IO_UDP sb [] = Some (True, sb', [packet_message p]))) \<and>
    (sb_write_size sb < 40 \<longrightarrow>
      (\<exists>sb'. parse_packet_from_recv_buffer CONNECT_IO_UDP sb [] = Some (False, sb', []) \<and> contents sb' = []))"
proof
  have n: "unat (of_nat (sb_write_size sb) :: u64) = sb_write_size sb"
    using assms by (intro unat_small) (simp add: sb_inv_def)
  thus "sb_write_size sb < 40 \<longrightarrow>
      (\<exists>sb'. parse_packet_from_recv_buffer CONNECT_IO_UDP sb [] = Some (False, sb', []) \<and> contents sb' = [])"
    using assms(1) by (simp add: parse_packet_from_recv_buffer_def parse_packet_from_recv_buffer_single_def
        get_write_size_def word_less_nat_alt contents_move_buffer)
  show "valid_packet p \<and> contents sb = packet_bytes p @ extra \<longrightarrow>
      (\<exists>sb'. parse_packet_from_recv_buffer CONNECT_IO_UDP sb [] = Some (True, sb', [packet_message p]))"
  proof
    assume p: "valid_packet p \<and> contents sb = packet_bytes p @ extra"
    obtain tail where sb: "sb_buffer sb = packet_bytes p @ extra @ tail"
      "sb_write_size sb = length (packet_bytes p) + length extra"
      using contents_split [OF assms(1)] p by blast
    have len: "length (packet_bytes p) = 40 + length (pk_body p)" using p by (simp add: packet_length)
    have small: "\<not> 1024000 \<le> (of_nat (length (pk_body p)) :: u32)"
      "(of_nat (length (pk_body p)) :: u32) = 0 \<longleftrightarrow> pk_body p = []"
      "unat (of_nat (length (pk_body p)) :: u32) = length (pk_body p)"
      "\<not> (of_nat (sb_write_size sb) :: u64) < ucast (of_nat (length (pk_body p)) :: u32)"
      using body_length_small [of p] p assms(2) n sb len
      by (simp_all add: not_le word_less_nat_alt ucast_of_nat32 unat_small)
    show "\<exists>sb'. parse_packet_from_recv_buffer CONNECT_IO_UDP sb [] = Some (True, sb', [packet_message p])"
      using small n sb len p header_packet [of p "extra @ tail"] logic_packet_at [of "[]" 0 p "extra @ tail"]
      by (cases "pk_body p = []") (simp_all add: parse_packet_from_recv_buffer_def
          parse_packet_from_recv_buffer_single_def get_write_size_def word_less_nat_alt Let_def)
  qed
qed

theorem datagram_parse_witness:
  "let p = \<lparr> pk_version = 1, pk_command = 9, pk_session = replicate 32 0, pk_body = [5] \<rparr> in
   \<exists>sb'. parse_packet_from_recv_buffer CONNECT_IO_UDP
     \<lparr> sb_buffer = packet_bytes p @ [3, 0], sb_write_size = 42, sb_max_buff_size = 43 \<rparr> []
     = Some (True, sb', [packet_message p])"
proof -
  let ?p = "\<lparr> pk_version = 1, pk_command = 9, pk_session = replicate 32 0, pk_body = [5] \<rparr>"
  have "length (packet_bytes ?p) = 41" by (simp add: length_packet_bytes)
  thus ?thesis
    using datagram_parse [of "\<lparr> sb_buffer = packet_bytes ?p @ [3, 0], sb_write_size = 42, sb_max_buff_size = 43 \<rparr>" ?p "[3]"]
    by (simp add: Let_def sb_inv_def contents_def valid_packet_def)
qed

end
