(* ===== verification/Base64.thy ===== *)
theory Base64
  imports Prelude
begin

text \<open>
  Base64 as the websocket handshake uses it: the encoder collects three bytes and
  writes four characters, the decoder collects four characters and writes three
  bytes; both handle an incomplete last group separately.  Strings are lists of
  bytes, as in the code (\<open>unsigned char\<close>).
\<close>


section \<open>Base64 (PacketParse\_Http/Base64.hpp)\<close>

unbundle bit_operations_syntax


subsection \<open>Definitions\<close>

definition base64_chars :: bytes where
  "base64_chars = bytes_of_string
     ''ABCDEFGHIJKLMNOPQRSTUVWXYZabcdefghijklmnopqrstuvwxyz0123456789+/''"

text \<open>\<open>isalnum\<close> in the C locale.\<close>

definition is_base64 :: "u8 \<Rightarrow> bool" where
  "is_base64 c \<longleftrightarrow> (48 \<le> c \<and> c \<le> 57) \<or> (65 \<le> c \<and> c \<le> 90) \<or> (97 \<le> c \<and> c \<le> 122) \<or> c = 43 \<or> c = 47"

text \<open>\<open>char_array_4\<close> computed from \<open>char_array_3\<close>.\<close>

definition to_sextets :: "u8 \<Rightarrow> u8 \<Rightarrow> u8 \<Rightarrow> u8 list" where
  "to_sextets a b c =
    [drop_bit 2 (a AND 0xfc),
     push_bit 4 (a AND 0x03) + drop_bit 4 (b AND 0xf0),
     push_bit 2 (b AND 0x0f) + drop_bit 6 (c AND 0xc0),
     c AND 0x3f]"

definition encode_sextet :: "u8 \<Rightarrow> u8" where
  "encode_sextet x = base64_chars ! unat x"

fun base64_encode :: "bytes \<Rightarrow> bytes" where
  "base64_encode (a # b # c # rest) = map encode_sextet (to_sextets a b c) @ base64_encode rest"
| "base64_encode [a, b] = map encode_sextet (take 3 (to_sextets a b 0)) @ [61]"
| "base64_encode [a] = map encode_sextet (take 2 (to_sextets a 0 0)) @ [61, 61]"
| "base64_encode [] = []"

text \<open>\<open>(unsigned char)base64_chars.find(c)\<close>; \<open>npos\<close> becomes 255.\<close>

fun find_index :: "u8 \<Rightarrow> bytes \<Rightarrow> nat option" where
  "find_index c [] = None"
| "find_index c (x # xs) = (if x = c then Some 0 else map_option Suc (find_index c xs))"

definition decode_char :: "u8 \<Rightarrow> u8" where
  "decode_char c = (case find_index c base64_chars of Some i \<Rightarrow> of_nat i | None \<Rightarrow> 255)"

text \<open>\<open>char_array_3\<close> computed from \<open>char_array_4\<close>.\<close>

definition from_sextets :: "u8 \<Rightarrow> u8 \<Rightarrow> u8 \<Rightarrow> u8 \<Rightarrow> u8 list" where
  "from_sextets a b c d =
    [push_bit 2 a + drop_bit 4 (b AND 0x30),
     push_bit 4 (b AND 0xf) + drop_bit 2 (c AND 0x3c),
     push_bit 6 (c AND 0x3) + d]"

text \<open>The characters the loop of the decoder reads, up to the first that ends it.\<close>

definition decodable :: "bytes \<Rightarrow> bytes" where
  "decodable s = takeWhile (\<lambda>c. c \<noteq> 61 \<and> is_base64 c) s"

text \<open>Whole groups, and the last group filled up with \<open>'\\0'\<close>, of which \<open>i - 1\<close> bytes are kept.\<close>

fun decode_groups :: "bytes \<Rightarrow> bytes" where
  "decode_groups (a # b # c # d # rest) =
     from_sextets (decode_char a) (decode_char b) (decode_char c) (decode_char d) @ decode_groups rest"
| "decode_groups [a, b, c] = take 2 (from_sextets (decode_char a) (decode_char b) (decode_char c) (decode_char 0))"
| "decode_groups [a, b] = take 1 (from_sextets (decode_char a) (decode_char b) (decode_char 0) (decode_char 0))"
| "decode_groups [a] = []"
| "decode_groups [] = []"

definition base64_decode :: "bytes \<Rightarrow> bytes" where
  "base64_decode encoded_string = decode_groups (decodable encoded_string)"


subsection \<open>The alphabet\<close>

lemma base64_chars_codes: "base64_chars =
   [65, 66, 67, 68, 69, 70, 71, 72, 73, 74, 75, 76, 77, 78, 79, 80,
    81, 82, 83, 84, 85, 86, 87, 88, 89, 90, 97, 98, 99, 100, 101, 102,
    103, 104, 105, 106, 107, 108, 109, 110, 111, 112, 113, 114, 115, 116, 117, 118,
    119, 120, 121, 122, 48, 49, 50, 51, 52, 53, 54, 55, 56, 57, 43, 47]"
  by code_simp

lemma base64_chars_index:
  "\<forall>i \<in> set [0..<64]. find_index (base64_chars ! i) base64_chars = Some i \<and> is_base64 (base64_chars ! i) \<and>
     base64_chars ! i \<noteq> 61"
  unfolding base64_chars_codes by code_simp

lemma decode_encode_sextet:
  assumes "x < 64" shows "decode_char (encode_sextet x) = x" "is_base64 (encode_sextet x)" "encode_sextet x \<noteq> 61"
proof -
  have "unat x \<in> set [0..<64]" using assms by (simp add: word_less_nat_alt)
  with base64_chars_index show "decode_char (encode_sextet x) = x" "is_base64 (encode_sextet x)" "encode_sextet x \<noteq> 61"
    by (simp_all add: decode_char_def encode_sextet_def)
qed


subsection \<open>Six bits and eight bits\<close>

lemma byte_eqI:
  fixes x y :: u8
  assumes "bit x 0 = bit y 0" "bit x 1 = bit y 1" "bit x 2 = bit y 2" "bit x 3 = bit y 3"
    "bit x 4 = bit y 4" "bit x 5 = bit y 5" "bit x 6 = bit y 6" "bit x 7 = bit y 7"
  shows "x = y"
proof (rule bit_word_eqI)
  fix n assume "n < LENGTH(8)"
  hence "n \<in> {0, 1, 2, 3, 4, 5, 6, 7}" by auto
  with assms show "bit x n = bit y n" by auto
qed

lemma byte_add_or: "x AND y = 0 \<Longrightarrow> x + y = x OR y" for x y :: u8
  by (rule disjunctive_add) (metis bit_0_eq bit_and_iff bot_apply bot_bool_def)

lemma sextets_or:
  "to_sextets a b c =
    [drop_bit 2 (a AND 0xfc), push_bit 4 (a AND 0x03) OR drop_bit 4 (b AND 0xf0),
     push_bit 2 (b AND 0x0f) OR drop_bit 6 (c AND 0xc0), c AND 0x3f]"
  unfolding to_sextets_def
  by (subst byte_add_or, rule byte_eqI; simp add: bit_simps)+

lemma sextet_less: "x \<in> set (to_sextets a b c) \<Longrightarrow> x < 64"
proof -
  have "take_bit 6 x = x \<Longrightarrow> x < 64" for x :: u8
    using unsigned_take_bit_eq [of 6 x, where ?'a = nat] take_bit_nat_less_exp [of 6 "unat x"]
    by (simp add: word_less_nat_alt)
  moreover have "x \<in> set (to_sextets a b c) \<Longrightarrow> take_bit 6 x = x"
    unfolding sextets_or by (auto intro!: byte_eqI simp: bit_simps)
  ultimately show "x \<in> set (to_sextets a b c) \<Longrightarrow> x < 64" by blast
qed

lemma from_sextets_parts:
  fixes a b c :: u8
  defines "w \<equiv> drop_bit 2 (a AND 0xfc)" and "x \<equiv> push_bit 4 (a AND 0x03) OR drop_bit 4 (b AND 0xf0)"
    and "y \<equiv> push_bit 2 (b AND 0x0f) OR drop_bit 6 (c AND 0xc0)" and "z \<equiv> c AND 0x3f"
  shows "push_bit 2 w + drop_bit 4 (x AND 0x30) = a"
    "push_bit 4 (x AND 0xf) + drop_bit 2 (y AND 0x3c) = b"
    "push_bit 6 (y AND 0x3) + z = c"
  unfolding w_def x_def y_def z_def
  by (subst byte_add_or; rule byte_eqI; simp add: bit_simps)+


subsection \<open>Round trip\<close>

lemma decodable_append: "\<forall>c \<in> set xs. c \<noteq> 61 \<and> is_base64 c \<Longrightarrow> decodable (xs @ ys) = xs @ decodable ys"
  by (simp add: decodable_def takeWhile_append2)

lemma encode_sextets:
  assumes "x \<in> set (to_sextets a b c)"
  shows "decode_char (encode_sextet x) = x" "is_base64 (encode_sextet x)" "encode_sextet x \<noteq> 61"
  using decode_encode_sextet [OF sextet_less [OF assms]] by blast+

lemma to_sextets_elems:
  "drop_bit 2 (a AND 0xfc) \<in> set (to_sextets a b c)"
  "push_bit 4 (a AND 0x03) OR drop_bit 4 (b AND 0xf0) \<in> set (to_sextets a b c)"
  "push_bit 2 (b AND 0x0f) OR drop_bit 6 (c AND 0xc0) \<in> set (to_sextets a b c)"
  "c AND 0x3f \<in> set (to_sextets a b c)"
  by (simp_all add: sextets_or)

text \<open>The length of the encoding, with its padding.\<close>

lemma base64_length: "length (base64_encode xs) = 4 * ((length xs + 2) div 3)"
  by (induction xs rule: base64_encode.induct) (simp_all add: to_sextets_def, presburger)


lemma decode_encode: "base64_decode (base64_encode xs) = xs"
  unfolding base64_decode_def
proof (induction xs rule: base64_encode.induct)
  case (1 a b c rest)
  note e = encode_sextets [of _ a b c, OF to_sextets_elems(1)] encode_sextets [of _ a b c, OF to_sextets_elems(2)]
    encode_sextets [of _ a b c, OF to_sextets_elems(3)] encode_sextets [of _ a b c, OF to_sextets_elems(4)]
  have "decodable (base64_encode (a # b # c # rest)) =
      map encode_sextet (to_sextets a b c) @ decodable (base64_encode rest)"
    by (simp only: base64_encode.simps, rule decodable_append) (auto simp: encode_sextets)
  with 1 e from_sextets_parts(1) [where a = a and b = b]
      from_sextets_parts(2) [where a = a and b = b and c = c] from_sextets_parts(3) [where b = b and c = c] show ?case by (simp add: sextets_or from_sextets_def)
next
  case (2 a b)
  note e = encode_sextets [of _ a b 0, OF to_sextets_elems(1)] encode_sextets [of _ a b 0, OF to_sextets_elems(2)]
    encode_sextets [of _ a b 0, OF to_sextets_elems(3)]
  thus ?case using from_sextets_parts(1) [where a = a and b = b]
      from_sextets_parts(2) [where a = a and b = b and c = 0] from_sextets_parts(3) [where b = b and c = 0] by (simp add: sextets_or decodable_def from_sextets_def)
next
  case (3 a)
  note e = encode_sextets [of _ a 0 0, OF to_sextets_elems(1)] encode_sextets [of _ a 0 0, OF to_sextets_elems(2)]
  thus ?case using from_sextets_parts(1) [where a = a and b = 0]
      from_sextets_parts(2) [where a = a and b = 0 and c = 0] from_sextets_parts(3) [where b = 0 and c = 0] by (simp add: sextets_or decodable_def from_sextets_def)
qed (simp add: decodable_def)


subsection \<open>Properties\<close>

text \<open>
  Decoding what was encoded gives the original bytes back, for inputs of every
  length.
\<close>

theorem base64_roundtrip: "base64_decode (base64_encode xs) = xs"
  by (rule decode_encode)

end
