(* ===== verification/Sha1.thy ===== *)
theory Sha1
  imports Prelude
begin

text \<open>
  The SHA-1 class the websocket handshake uses.  \<open>Transform\<close> works on a circular
  block of 16 words and rotates the roles of its five registers from macro call to
  macro call; here the registers are listed in the roles of the next call.
  \<open>Update\<close> may be called with any pieces of the message.

  \<open>sha1_digest\<close> is the definition of the standard (FIPS 180-4): padding, a schedule
  of 80 words, 80 rounds per block.  The theorem of this theory is that the class
  computes it.  Data passed to one \<open>Update\<close> is shorter than \<open>2 ^ 32 - 64\<close> bytes, where
  the 32-bit index arithmetic of the code does not wrap around.
\<close>


section \<open>SHA-1 (PacketParse\_Http/SHA1.hpp)\<close>

unbundle bit_operations_syntax


subsection \<open>Definitions: the class\<close>

definition ROL32 :: "u32 \<Rightarrow> nat \<Rightarrow> u32" where
  "ROL32 p n = push_bit n p OR drop_bit (32 - n) p"

definition SHABLK0 :: "nat \<Rightarrow> u32 list \<Rightarrow> u32 list" where
  "SHABLK0 i l = l[i := (ROL32 (l ! i) 24 AND 0xFF00FF00) OR (ROL32 (l ! i) 8 AND 0x00FF00FF)]"

definition SHABLK :: "nat \<Rightarrow> u32 list \<Rightarrow> u32 list" where
  "SHABLK i l = l[i mod 16 := ROL32 (l ! ((i + 13) mod 16) XOR l ! ((i + 8) mod 16) XOR
     l ! ((i + 2) mod 16) XOR l ! (i mod 16)) 1]"

text \<open>The five macros: which function and constant a round uses, and where it takes its word from.\<close>

definition round_function :: "nat \<Rightarrow> u32 \<Rightarrow> u32 \<Rightarrow> u32 \<Rightarrow> u32" where
  "round_function i w x y =
    (if i < 20 then (w AND (x XOR y)) XOR y
     else if i < 40 then w XOR x XOR y
     else if i < 60 then ((w OR x) AND y) OR (w AND x)
     else w XOR x XOR y)"

definition round_constant :: "nat \<Rightarrow> u32" where
  "round_constant i = (if i < 20 then 0x5A827999 else if i < 40 then 0x6ED9EBA1
     else if i < 60 then 0x8F1BBCDC else 0xCA62C1D6)"

type_synonym registers = "u32 \<times> u32 \<times> u32 \<times> u32 \<times> u32"

definition S_R :: "nat \<Rightarrow> registers \<times> u32 list \<Rightarrow> registers \<times> u32 list" where
  "S_R i = (\<lambda>((v, w, x, y, z), l).
     let l' = (if i < 16 then SHABLK0 i l else SHABLK i l);
         z' = z + (round_function i w x y + l' ! (i mod 16) + round_constant i + ROL32 v 5) in
     ((z', v, ROL32 w 30, x, y), l'))"

text \<open>\<open>memcpy(m_block, pBuffer, 64)\<close>: 16 words as the little-endian machine reads them.\<close>

definition load_block :: "bytes \<Rightarrow> u32 list" where
  "load_block buf = map (\<lambda>i. le_word (mem_slice (4 * i) 4 buf)) [0..<16]"

definition Transform :: "registers \<Rightarrow> bytes \<Rightarrow> registers" where
  "Transform state buf =
    (let (s0, s1, s2, s3, s4) = state;
         ((a, b, c, d, e), _) = fold S_R [0..<80] (state, load_block buf) in
     (s0 + a, s1 + b, s2 + c, s3 + d, s4 + e))"

record CSHA1 =
  m_state :: registers
  m_count0 :: u32
  m_count1 :: u32
  m_buffer :: bytes
  m_digest :: bytes

definition initial_state :: registers where
  "initial_state = (0x67452301, 0xEFCDAB89, 0x98BADCFE, 0x10325476, 0xC3D2E1F0)"

definition Reset :: "CSHA1 \<Rightarrow> CSHA1" where
  "Reset s = s \<lparr> m_state := initial_state, m_count0 := 0, m_count1 := 0 \<rparr>"

text \<open>The constructor; the arrays \<open>m_buffer\<close> and \<open>m_digest\<close> are not initialised.\<close>

definition CSHA1_ctor :: "bytes \<Rightarrow> bytes \<Rightarrow> CSHA1" where
  "CSHA1_ctor buffer digest = Reset \<lparr> m_state = initial_state, m_count0 = 0, m_count1 = 0,
     m_buffer = buffer, m_digest = digest \<rparr>"

text \<open>The loop over whole blocks: the state, and the data behind them.\<close>

function transform_blocks :: "registers \<Rightarrow> bytes \<Rightarrow> registers \<times> bytes" where
  "transform_blocks state bs =
    (if length bs < 64 then (state, bs) else transform_blocks (Transform state (take 64 bs)) (drop 64 bs))"
  by pat_completeness auto

termination by (relation "measure (\<lambda>(_, bs). length bs)") auto

declare transform_blocks.simps [simp del]

definition Update :: "bytes \<Rightarrow> CSHA1 \<Rightarrow> CSHA1" where
  "Update pbData s =
    (let uLen = of_nat (length pbData) :: u32;
         j = unat (drop_bit 3 (m_count0 s) AND 0x3F);
         c0 = m_count0 s + push_bit 3 uLen;
         c1 = (if c0 < push_bit 3 uLen then m_count1 s + 1 else m_count1 s) + drop_bit 29 uLen;
         s1 = s \<lparr> m_count0 := c0, m_count1 := c1 \<rparr> in
     if j + length pbData > 63
     then let i = 64 - j;
              buf = blit j (take i pbData) (m_buffer s1);
              (st, rest) = transform_blocks (Transform (m_state s1) buf) (drop i pbData) in
          s1 \<lparr> m_state := st, m_buffer := blit 0 rest buf \<rparr>
     else s1 \<lparr> m_buffer := blit j pbData (m_buffer s1) \<rparr>)"

partial_function (option) pad_loop :: "CSHA1 \<Rightarrow> CSHA1 option" where
  "pad_loop s = (if m_count0 s AND 504 \<noteq> 448 then pad_loop (Update [0] s) else Some s)"

definition final_count :: "CSHA1 \<Rightarrow> bytes" where
  "final_count s = map (\<lambda>i. ucast (drop_bit ((3 - i mod 4) * 8) (if i \<ge> 4 then m_count0 s else m_count1 s) AND 0xFF)) [0..<8]"

definition digest_of :: "registers \<Rightarrow> bytes" where
  "digest_of state = (case state of (a, b, c, d, e) \<Rightarrow>
     map (\<lambda>i. ucast (drop_bit ((3 - i mod 4) * 8) ([a, b, c, d, e] ! (i div 4)) AND 0xFF)) [0..<20])"

text \<open>\<open>Final\<close>, with the wiping of the variables at its end.\<close>

definition Final :: "CSHA1 \<Rightarrow> CSHA1 option" where
  "Final s =
    (let pbFinalCount = final_count s in
     case pad_loop (Update [0x80] s) of
       None \<Rightarrow> None
     | Some s1 \<Rightarrow>
         let s2 = Update pbFinalCount s1 in
         Some (s2 \<lparr> m_digest := digest_of (m_state s2), m_buffer := replicate 64 0, m_count0 := 0, m_count1 := 0,
           m_state := Transform (0, 0, 0, 0, 0) (replicate 64 0) \<rparr>))"

definition GetHash :: "CSHA1 \<Rightarrow> bytes" where
  "GetHash s = m_digest s"


subsection \<open>Definitions: the standard\<close>

text \<open>The big-endian words of a block and the message schedule.\<close>

definition be_word :: "bytes \<Rightarrow> u32" where
  "be_word bs = le_word (rev bs)"

fun schedule :: "bytes \<Rightarrow> nat \<Rightarrow> u32" where
  "schedule M t = (if t < 16 then be_word (mem_slice (4 * t) 4 M)
     else ROL32 (schedule M (t - 3) XOR schedule M (t - 8) XOR schedule M (t - 14) XOR schedule M (t - 16)) 1)"

declare schedule.simps [simp del]

definition f_t :: "nat \<Rightarrow> u32 \<Rightarrow> u32 \<Rightarrow> u32 \<Rightarrow> u32" where
  "f_t t x y z =
    (if t < 20 then (x AND y) XOR (NOT x AND z)
     else if t < 40 then x XOR y XOR z
     else if t < 60 then (x AND y) XOR (x AND z) XOR (y AND z)
     else x XOR y XOR z)"

definition fips_round :: "bytes \<Rightarrow> nat \<Rightarrow> registers \<Rightarrow> registers" where
  "fips_round M t = (\<lambda>(a, b, c, d, e).
     (ROL32 a 5 + f_t t b c d + e + round_constant t + schedule M t, a, ROL32 b 30, c, d))"

definition compress :: "registers \<Rightarrow> bytes \<Rightarrow> registers" where
  "compress H M =
    (let (h0, h1, h2, h3, h4) = H; (a, b, c, d, e) = fold (fips_round M) [0..<80] H in
     (a + h0, b + h1, c + h2, d + h3, e + h4))"

definition be_bytes64 :: "nat \<Rightarrow> bytes" where
  "be_bytes64 n = rev (le_bytes 8 (of_nat n :: u64))"

definition pad :: "bytes \<Rightarrow> bytes" where
  "pad msg = msg @ [0x80] @ replicate ((119 - length msg mod 64) mod 64) 0 @ be_bytes64 (8 * length msg)"

function full_blocks :: "bytes \<Rightarrow> bytes list" where
  "full_blocks bs = (if length bs < 64 then [] else take 64 bs # full_blocks (drop 64 bs))"
  by pat_completeness auto

termination by (relation "measure length") auto

declare full_blocks.simps [simp del]

definition be_bytes32 :: "u32 \<Rightarrow> bytes" where
  "be_bytes32 w = rev (le_bytes 4 w)"

definition sha1_digest :: "bytes \<Rightarrow> bytes" where
  "sha1_digest msg = (case foldl compress initial_state (full_blocks (pad msg)) of (a, b, c, d, e) \<Rightarrow>
     be_bytes32 a @ be_bytes32 b @ be_bytes32 c @ be_bytes32 d @ be_bytes32 e)"


subsection \<open>Definitions: the correspondence\<close>

text \<open>The circular block before round \<open>t\<close>: the last 16 words of the schedule, then words still unread.\<close>

definition block_ok :: "bytes \<Rightarrow> nat \<Rightarrow> u32 list \<Rightarrow> bool" where
  "block_ok M t l \<longleftrightarrow> length l = 16 \<and>
     (\<forall>k. k < t \<longrightarrow> t \<le> k + 16 \<longrightarrow> l ! (k mod 16) = schedule M k) \<and>
     (\<forall>j. t \<le> j \<longrightarrow> j < 16 \<longrightarrow> l ! j = le_word (mem_slice (4 * j) 4 M))"

text \<open>The bytes behind the last whole block.\<close>

definition tail_of :: "bytes \<Rightarrow> bytes" where
  "tail_of bs = drop (64 * (length bs div 64)) bs"

text \<open>The object after data \<open>d\<close> has been hashed in.\<close>

definition sha_inv :: "bytes \<Rightarrow> CSHA1 \<Rightarrow> bool" where
  "sha_inv d s \<longleftrightarrow> m_state s = foldl Transform initial_state (full_blocks d) \<and>
     m_count0 s = of_nat (8 * length d) \<and> m_count1 s = of_nat (8 * length d div 2 ^ 32) \<and>
     length (m_buffer s) = 64 \<and> take (length d mod 64) (m_buffer s) = tail_of d"


subsection \<open>One block\<close>

lemma round_function_f_t: "round_function i w x y = f_t i w x y"
  by (auto simp: round_function_def f_t_def bit_simps intro!: bit_word_eqI)

lemma word32_eqI: "list_all (\<lambda>n. bit x n = bit y n) [0..<32] \<Longrightarrow> x = y" for x y :: u32
  by (rule bit_word_eqI) (simp add: list_all_iff)

lemma byte_swap:
  assumes "length bs = 4"
  shows "(ROL32 (le_word bs) 24 AND 0xFF00FF00) OR (ROL32 (le_word bs) 8 AND 0x00FF00FF) = be_word bs"
proof -
  obtain b0 b1 b2 b3 where bs: "bs = [b0, b1, b2, b3]"
    using assms by (auto simp: length_Suc_conv numeral_eq_Suc)
  show ?thesis unfolding bs
    by (rule word32_eqI) (simp add: upt_conv_Cons be_word_def ROL32_def bit_simps)
qed

lemma block_ok_load: "block_ok M 0 (load_block M)"
  by (simp add: block_ok_def load_block_def)

lemma block_ok_0:
  assumes "block_ok M t l" "t < 16" "length M = 64"
  shows "block_ok M (Suc t) (SHABLK0 t l)" "SHABLK0 t l ! t = schedule M t"
proof -
  have "l ! t = le_word (mem_slice (4 * t) 4 M)" "length l = 16" using assms by (simp_all add: block_ok_def)
  moreover have "length (mem_slice (4 * t) 4 M) = 4" using assms by (simp add: mem_slice_def)
  ultimately show *: "SHABLK0 t l ! t = schedule M t"
    using assms(2) by (simp add: SHABLK0_def byte_swap schedule.simps [of M t])
  show "block_ok M (Suc t) (SHABLK0 t l)"
    using assms * by (auto simp: block_ok_def SHABLK0_def less_Suc_eq)
qed

lemma mod_shift: "16 \<le> t \<Longrightarrow> k \<le> 16 \<Longrightarrow> (t + k) mod 16 = (t - (16 - k)) mod (16 :: nat)"
  using mod_add_self2 [of "t - (16 - k)" 16] by simp

lemma block_ok_16:
  assumes "block_ok M t l" "16 \<le> t"
  shows "block_ok M (Suc t) (SHABLK t l)" "SHABLK t l ! (t mod 16) = schedule M t"
proof -
  have l: "length l = 16" "\<And>k. k < t \<Longrightarrow> t \<le> k + 16 \<Longrightarrow> l ! (k mod 16) = schedule M k"
    using assms(1) by (auto simp: block_ok_def)
  have "(t + 13) mod 16 = (t - 3) mod 16" "(t + 8) mod 16 = (t - 8) mod 16" "(t + 2) mod 16 = (t - 14) mod 16"
    "t mod 16 = (t - 16) mod 16"
    using mod_shift [OF assms(2), of 13] mod_shift [OF assms(2), of 8] mod_shift [OF assms(2), of 2]
      mod_shift [OF assms(2), of 0] by simp_all
  with l(2) [of "t - 3"] l(2) [of "t - 8"] l(2) [of "t - 14"] l(2) [of "t - 16"] assms(2) l(1)
  show *: "SHABLK t l ! (t mod 16) = schedule M t"
    by (simp add: SHABLK_def schedule.simps [of M t])
  have "t mod 16 \<noteq> k mod 16" if "k < t" "Suc t \<le> k + 16" for k
    using that mod_eq_dvd_iff_nat [of k t 16] dvd_imp_le [of 16 "t - k"] by auto
  hence "SHABLK t l ! (k mod 16) = schedule M k" if "k < t" "Suc t \<le> k + 16" for k
    using that l(2) [of k] by (simp add: SHABLK_def)
  moreover have "length (SHABLK t l) = 16" using l(1) by (simp add: SHABLK_def)
  ultimately show "block_ok M (Suc t) (SHABLK t l)"
    using assms(2) * unfolding block_ok_def by (metis le_trans less_Suc_eq not_less not_less_eq_eq)
qed

lemma S_R_step:
  "S_R i ((v, w, x, y, z), l) =
    (let l' = (if i < 16 then SHABLK0 i l else SHABLK i l) in
     ((z + (round_function i w x y + l' ! (i mod 16) + round_constant i + ROL32 v 5), v, ROL32 w 30, x, y), l'))"
  by (simp add: S_R_def Let_def)

lemma fips_step:
  "fips_round M t (a, b, c, d, e) =
    (ROL32 a 5 + f_t t b c d + e + round_constant t + schedule M t, a, ROL32 b 30, c, d)"
  by (simp add: fips_round_def)

lemma rounds_fips:
  assumes "length M = 64"
  shows "fst (fold S_R [0..<t] (S, load_block M)) = fold (fips_round M) [0..<t] S \<and>
    block_ok M t (snd (fold S_R [0..<t] (S, load_block M)))"
proof (induction t)
  case (Suc t)
  obtain v w x y z l where st: "fold S_R [0..<t] (S, load_block M) = ((v, w, x, y, z), l)"
    by (metis surj_pair)
  with Suc have "block_ok M t l" "fold (fips_round M) [0..<t] S = (v, w, x, y, z)" by simp_all
  with block_ok_0 [of M t l] block_ok_16 [of M t l] st assms show ?case
    by (cases "t < 16") (simp_all add: S_R_step fips_step round_function_f_t add.commute add.left_commute)
qed (simp add: block_ok_load)

lemma Transform_compress: "length M = 64 \<Longrightarrow> Transform S M = compress S M"
proof -
  assume "length M = 64"
  obtain a b c d e l where f: "fold S_R [0..<80] (S, load_block M) = ((a, b, c, d, e), l)" by (metis surj_pair)
  obtain s0 s1 s2 s3 s4 where S: "S = (s0, s1, s2, s3, s4)" by (metis surj_pair)
  have "fold (fips_round M) [0..<80] S = (a, b, c, d, e)"
    using rounds_fips [OF \<open>length M = 64\<close>, of 80 S] f by (simp only: fst_conv)
  with f show ?thesis unfolding Transform_def compress_def S Let_def by (simp only: prod.case add.commute)
qed


subsection \<open>Blocks of the message\<close>

lemma length_tail_of: "length (tail_of bs) = length bs mod 64"
  by (simp add: tail_of_def minus_mult_div_eq_mod)

lemma tail_of_short: "length bs < 64 \<Longrightarrow> tail_of bs = bs"
  by (simp add: tail_of_def)

lemma tail_of_long: "64 \<le> length bs \<Longrightarrow> tail_of bs = tail_of (drop 64 bs)"
  by (simp add: tail_of_def le_div_geq drop_drop [symmetric] del: drop_drop) (simp add: add.commute)

lemma blocks_append:
  "full_blocks (x @ y) = full_blocks x @ full_blocks (tail_of x @ y) \<and> tail_of (x @ y) = tail_of (tail_of x @ y)"
proof (induction x rule: full_blocks.induct)
  case (1 x)
  show ?case
  proof (cases "length x < 64")
    case True
    thus ?thesis by (simp add: full_blocks.simps [of x] tail_of_short)
  next
    case False
    with 1 have "full_blocks (drop 64 x @ y) = full_blocks (drop 64 x) @ full_blocks (tail_of (drop 64 x) @ y)"
      "tail_of (drop 64 x @ y) = tail_of (tail_of (drop 64 x) @ y)" by auto
    with False show ?thesis
      by (simp add: full_blocks.simps [of x] full_blocks.simps [of "x @ y"] tail_of_long [of x] tail_of_long [of "x @ y"])
  qed
qed

lemma blocks_cons:
  assumes "length b = 64"
  shows "full_blocks (b @ r) = b # full_blocks r" "tail_of (b @ r) = tail_of r"
  using assms by (simp_all add: full_blocks.simps [of "b @ r"] tail_of_long)

lemma transform_blocks_spec: "transform_blocks st bs = (foldl Transform st (full_blocks bs), tail_of bs)"
  by (induction st bs rule: transform_blocks.induct)
    (subst transform_blocks.simps, subst full_blocks.simps, simp add: tail_of_short tail_of_long)

lemma full_blocks_length: "b \<in> set (full_blocks bs) \<Longrightarrow> length b = 64"
  by (induction bs rule: full_blocks.induct) (subst (asm) full_blocks.simps, auto split: if_splits)

lemma foldl_Transform: "\<forall>b \<in> set bs. length b = 64 \<Longrightarrow> foldl Transform st bs = foldl compress st bs"
  by (induction bs arbitrary: st) (simp_all add: Transform_compress)


subsection \<open>Counting\<close>

lemma carry_iff: "x + y < y \<longleftrightarrow> 2 ^ 32 \<le> unat x + unat y" for x y :: u32
proof -
  have "unat x < 2 ^ 32" "unat y < 2 ^ 32"
    using unsigned_less [of x, where ?'a = nat] unsigned_less [of y, where ?'a = nat] by simp_all
  thus ?thesis by (auto simp: word_less_nat_alt unat_word_ariths mod_if)
qed

lemma div_add_carry:
  "(D + N) div 2 ^ 32 = D div 2 ^ 32 + N div 2 ^ 32 + (if 2 ^ 32 \<le> D mod 2 ^ 32 + N mod 2 ^ 32 then 1 else 0)" for D N :: nat
  using div_add1_eq [of D N "2 ^ 32"] mod_less_divisor [of "2 ^ 32" D] mod_less_divisor [of "2 ^ 32" N]
  by (auto simp: div_if)

lemma unat_of_nat32: "unat (of_nat n :: u32) = n mod 2 ^ 32"
  by (simp add: unat_of_nat take_bit_eq_mod)

lemma push_bit_3: "push_bit 3 (of_nat n :: u32) = of_nat (8 * n)"
  by (simp add: push_bit_eq_mult)

lemma drop_bit_29: "n < 2 ^ 32 \<Longrightarrow> drop_bit 29 (of_nat n :: u32) = of_nat (8 * n div 2 ^ 32)"
  unfolding word_unat_eq_iff unsigned_drop_bit_eq unat_of_nat32
  by (simp add: drop_bit_eq_div unat_of_nat32 take_bit_eq_mod)

lemma buffer_position: "unat (drop_bit 3 (of_nat (8 * n) :: u32) AND 0x3F) = n mod 64"
proof -
  have "w AND 0x3F = take_bit 6 w" for w :: u32 by (simp add: take_bit_eq_mask mask_numeral)
  moreover have "unat (take_bit 6 (drop_bit 3 w)) = unat w div 8 mod 64" for w :: u32
  proof -
    have "unat (take_bit 6 (drop_bit 3 w)) = take_bit 6 (drop_bit 3 (take_bit 32 (unat w)))"
      by (simp only: unsigned_take_bit_eq unsigned_drop_bit_eq) simp
    thus ?thesis using unsigned_less [of w, where ?'a = nat]
      by (simp add: take_bit_nat_eq_self) (simp add: take_bit_eq_mod drop_bit_eq_div)
  qed
  ultimately have "unat (drop_bit 3 (of_nat (8 * n) :: u32) AND 0x3F) = 8 * n mod 2 ^ 32 div 8 mod 64"
    by (simp only: unat_of_nat32)
  also have "8 * n mod 2 ^ 32 = 8 * (n mod 2 ^ 29)" using mod_mult_mult1 [of 8 n "2 ^ 29"] by simp
  also have "8 * (n mod 2 ^ 29) div 8 mod 64 = n mod 64" by (simp add: mod_mod_cancel)
  finally show ?thesis .
qed

lemma Update_counts:
  assumes "m_count0 s = of_nat (8 * length d)" "m_count1 s = of_nat (8 * length d div 2 ^ 32)" "length bs < 2 ^ 32"
  shows "m_count0 s + push_bit 3 (of_nat (length bs)) = of_nat (8 * length (d @ bs))"
    "(if m_count0 s + push_bit 3 (of_nat (length bs)) < push_bit 3 (of_nat (length bs)) then m_count1 s + 1
      else m_count1 s) + drop_bit 29 (of_nat (length bs)) = of_nat (8 * length (d @ bs) div 2 ^ 32)"
proof -
  show "m_count0 s + push_bit 3 (of_nat (length bs)) = of_nat (8 * length (d @ bs))"
    by (simp add: assms(1) push_bit_3 algebra_simps)
  have "8 * length (d @ bs) = 8 * length d + 8 * length bs" by simp
  thus "(if m_count0 s + push_bit 3 (of_nat (length bs)) < push_bit 3 (of_nat (length bs)) then m_count1 s + 1
      else m_count1 s) + drop_bit 29 (of_nat (length bs)) = of_nat (8 * length (d @ bs) div 2 ^ 32)"
    by (simp only: carry_iff push_bit_3 assms unat_of_nat32 div_add_carry drop_bit_29) simp
qed


subsection \<open>Hashing in pieces\<close>

lemma blit_full:
  assumes "j \<le> length buf" "length bs = length buf - j"
  shows "blit j bs buf = take j buf @ bs"
  using assms by (simp add: blit_def)

lemma blit_prefix:
  "length x \<le> length buf \<Longrightarrow> take (length x) (blit 0 x buf) = x \<and> length (blit 0 x buf) = length buf"
  by (simp add: blit_def)

lemma Update_cases:
  assumes "sha_inv d s" "length bs < 2 ^ 32"
  defines "s1 \<equiv> s \<lparr> m_count0 := of_nat (8 * length (d @ bs)), m_count1 := of_nat (8 * length (d @ bs) div 2 ^ 32) \<rparr>"
    and "j \<equiv> length d mod 64"
  shows "Update bs s =
    (if j + length bs > 63
     then let buf = blit j (take (64 - j) bs) (m_buffer s);
              rest = drop (64 - j) bs in
          s1 \<lparr> m_state := foldl Transform (Transform (m_state s) buf) (full_blocks rest), m_buffer := blit 0 (tail_of rest) buf \<rparr>
     else s1 \<lparr> m_buffer := blit j bs (m_buffer s) \<rparr>)"
proof -
  have c: "m_count0 s = of_nat (8 * length d)" "m_count1 s = of_nat (8 * length d div 2 ^ 32)"
    using assms(1) by (simp_all only: sha_inv_def)
  note counts = Update_counts [OF c assms(2)]
  have "unat (drop_bit 3 (m_count0 s) AND 0x3F) = j" unfolding c j_def by (rule buffer_position)
  thus ?thesis unfolding Update_def Let_def transform_blocks_spec counts(2) unfolding counts(1) s1_def by simp
qed

lemma sha_inv_Update:
  assumes "sha_inv d s" "length bs < 2 ^ 32"
  shows "sha_inv (d @ bs) (Update bs s)"
proof -
  let ?j = "length d mod 64"
  have inv: "m_state s = foldl Transform initial_state (full_blocks d)" "take ?j (m_buffer s) = tail_of d"
    "length (m_buffer s) = 64"
    using assms(1) by (simp_all add: sha_inv_def)
  have ab: "full_blocks (d @ bs) = full_blocks d @ full_blocks (tail_of d @ bs)" "tail_of (d @ bs) = tail_of (tail_of d @ bs)"
    using blocks_append by blast+
  have lt: "length (tail_of d) = ?j" by (rule length_tail_of)
  have lm: "length (d @ bs) mod 64 = (?j + length bs) mod 64" by (simp add: mod_add_left_eq)
  show ?thesis
  proof (cases "?j + length bs > 63")
    case False
    hence "full_blocks (tail_of d @ bs) = []" "tail_of (tail_of d @ bs) = tail_of d @ bs" "length (d @ bs) mod 64 = ?j + length bs"
      using lt lm by (simp_all add: full_blocks.simps [of "tail_of d @ bs"] tail_of_short)
    moreover have "take (?j + length bs) (blit ?j bs (m_buffer s)) = tail_of d @ bs" "length (blit ?j bs (m_buffer s)) = 64"
      using False inv lt by (simp_all add: blit_def)
    ultimately show ?thesis
      unfolding sha_inv_def Update_cases [OF assms] ab using False inv by (simp del: length_append)
  next
    case True
    let ?i = "64 - ?j"
    let ?buf = "tail_of d @ take ?i bs"
    have i: "?i \<le> length bs" "?j < 64" using True by simp_all
    have b: "blit ?j (take ?i bs) (m_buffer s) = ?buf" using inv i by (simp add: blit_full)
    have split: "tail_of d @ bs = ?buf @ drop ?i bs" and len: "length ?buf = 64" using i lt by simp_all
    have fb: "full_blocks (tail_of d @ bs) = ?buf # full_blocks (drop ?i bs)" "tail_of (tail_of d @ bs) = tail_of (drop ?i bs)"
      unfolding split by (rule blocks_cons [OF len])+
    have "length (tail_of (drop ?i bs)) = length (d @ bs) mod 64"
      using length_tail_of [of "tail_of d @ bs"] fb(2) lm lt by simp
    moreover have "length (tail_of (drop ?i bs)) \<le> length ?buf" unfolding len length_tail_of by simp
    ultimately have "take (length (d @ bs) mod 64) (blit 0 (tail_of (drop ?i bs)) ?buf) = tail_of (drop ?i bs)"
      "length (blit 0 (tail_of (drop ?i bs)) ?buf) = 64"
      using blit_prefix [of "tail_of (drop ?i bs)" ?buf] len by simp_all
    with True show ?thesis
      unfolding sha_inv_def Update_cases [OF assms] ab fb using inv b by (simp add: Let_def del: length_append)
  qed
qed

lemma sha_inv_ctor: "length buffer = 64 \<Longrightarrow> sha_inv [] (CSHA1_ctor buffer digest)"
  by (simp add: sha_inv_def CSHA1_ctor_def Reset_def full_blocks.simps tail_of_def)

lemma pad_condition: "of_nat (8 * n) AND 504 = (448 :: u32) \<longleftrightarrow> n mod 64 = 56"
proof -
  have "x AND 504 = push_bit 3 (drop_bit 3 x AND 63)" for x :: u32
    by (rule word32_eqI, simp add: upt_conv_Cons bit_simps, simp add: numeral_eq_Suc)
  moreover have "drop_bit 3 (x AND 504) = drop_bit 3 x AND 63" for x :: u32
    by (rule word32_eqI, simp add: upt_conv_Cons bit_simps)
  moreover have "drop_bit 3 (448 :: u32) = 56" "push_bit 3 (56 :: u32) = 448" by simp_all
  ultimately have "x AND 504 = 448 \<longleftrightarrow> drop_bit 3 x AND 63 = 56" for x :: u32 by metis
  moreover have "drop_bit 3 (of_nat (8 * n) :: u32) AND 63 = 56 \<longleftrightarrow> n mod 64 = 56"
    unfolding word_unat_eq_iff buffer_position by simp
  ultimately show ?thesis by blast
qed

lemma pad_length: "m < 64 \<Longrightarrow> (120 - m) mod 64 = (if m \<le> 56 then 56 - m else 120 - m)" for m :: nat
  by (simp add: mod_if)

lemma pad_length_Suc:
  "m < 64 \<Longrightarrow> Suc k = (120 - m) mod 64 \<Longrightarrow> k = (120 - (if m = 63 then 0 else m + 1)) mod 64" for m :: nat
  by (auto simp: pad_length split: if_splits)

lemma pad_loop_spec:
  "sha_inv d s \<Longrightarrow> k = (120 - length d mod 64) mod 64 \<Longrightarrow>
   \<exists>s'. pad_loop s = Some s' \<and> sha_inv (d @ replicate k 0) s'"
proof (induction k arbitrary: d s)
  case 0
  hence "length d mod 64 = 56" using pad_length [of "length d mod 64"] by (simp split: if_splits)
  moreover have "m_count0 s = of_nat (8 * length d)" using 0 by (simp only: sha_inv_def)
  ultimately have "m_count0 s AND 504 = 448" by (simp only: pad_condition)
  with 0 show ?case by (subst pad_loop.simps) simp
next
  case (Suc k)
  have m: "length d mod 64 < 64" "length (d @ [0]) mod 64 = (if length d mod 64 = 63 then 0 else length d mod 64 + 1)"
    by (simp_all add: mod_Suc)
  have "length d mod 64 \<noteq> 56" using Suc.prems(2) by (intro notI) simp
  moreover have "m_count0 s = of_nat (8 * length d)" using Suc.prems by (simp only: sha_inv_def)
  ultimately have "m_count0 s AND 504 \<noteq> 448" by (simp only: pad_condition not_False_eq_True)
  moreover have "k = (120 - length (d @ [0]) mod 64) mod 64"
    unfolding m(2) by (rule pad_length_Suc [OF m(1) Suc.prems(2)])
  moreover have "sha_inv (d @ [0]) (Update [0] s)" by (rule sha_inv_Update [OF Suc.prems(1)]) simp
  ultimately show ?case using Suc.IH [of "d @ [0]" "Update [0] s"] by (subst pad_loop.simps) simp
qed

lemma of_nat_parts:
  "(of_nat N :: u32) = ucast (of_nat N :: u64)"
  "N < 2 ^ 64 \<Longrightarrow> (of_nat (N div 2 ^ 32) :: u32) = ucast (drop_bit 32 (of_nat N :: u64))"
  unfolding word_unat_eq_iff unsigned_ucast_eq unsigned_drop_bit_eq unat_of_nat
  by (simp_all add: take_bit_eq_mod drop_bit_eq_div mod_mod_cancel)

lemma ucast_low_byte: "(ucast (x AND 0xFF) :: u8) = ucast x" for x :: u32
proof -
  have "x AND 0xFF = take_bit 8 x" by (simp add: take_bit_eq_mask mask_numeral)
  thus ?thesis by (auto intro!: bit_word_eqI simp: bit_simps)
qed

lemma drop_ucast: "k + 8 \<le> 32 \<Longrightarrow> (ucast (drop_bit k (ucast v :: u32)) :: u8) = ucast (drop_bit k v)" for v :: u64
  by (auto intro!: bit_word_eqI simp: bit_simps)

lemma le_bytes_add: "le_bytes (m + n) w = le_bytes m w @ le_bytes n (drop_bit (8 * m) w)"
  by (induction m arbitrary: w) (simp_all add: algebra_simps)

lemma le_bytes_4: "le_bytes 4 (w :: 'a::len word) = [ucast w, ucast (drop_bit 8 w), ucast (drop_bit 16 w), ucast (drop_bit 24 w)]"
proof -
  have "le_bytes 2 v = [ucast v, ucast (drop_bit 8 v)]" for v :: "'a word" by (simp add: numeral_2_eq_2)
  with le_bytes_add [of 2 2 w] show ?thesis by simp
qed

lemma be_bytes_64:
  "map (\<lambda>i. ucast (drop_bit ((3 - i mod 4) * 8) (if i \<ge> 4 then ucast w else ucast (drop_bit 32 w) :: u32) AND 0xFF)) [0..<8] =
     rev (le_bytes 8 w)" for w :: u64
  using le_bytes_add [of 4 4 w] unfolding ucast_low_byte by (simp add: le_bytes_4 upt_conv_Cons drop_ucast drop_ucast [of 0, simplified])

lemma final_count_bytes:
  assumes "sha_inv d s" "length d < 2 ^ 61"
  shows "final_count s = be_bytes64 (8 * length d)"
proof -
  have "8 * length d < 2 ^ 64" using assms(2) by simp
  hence "m_count0 s = ucast (of_nat (8 * length d) :: u64)" "m_count1 s = ucast (drop_bit 32 (of_nat (8 * length d) :: u64))"
    using assms(1) of_nat_parts(1) [of "8 * length d"] of_nat_parts(2) [of "8 * length d"] by (simp_all only: sha_inv_def)
  thus ?thesis unfolding final_count_def be_bytes64_def by (simp only: be_bytes_64)
qed

lemma digest_bytes:
  "digest_of (a, b, c, d, e) = be_bytes32 a @ be_bytes32 b @ be_bytes32 c @ be_bytes32 d @ be_bytes32 e"
  unfolding digest_of_def prod.case ucast_low_byte be_bytes32_def by (simp add: le_bytes_4 upt_conv_Cons)

lemma fold_Update:
  "sha_inv d s \<Longrightarrow> \<forall>p \<in> set ps. length p < 2 ^ 32 \<Longrightarrow> sha_inv (d @ concat ps) (fold Update ps s)"
  by (induction ps arbitrary: d s) (simp_all add: sha_inv_Update flip: append_assoc)

lemma Final_spec:
  assumes "sha_inv msg s" "length msg < 2 ^ 61"
  shows "\<exists>s'. Final s = Some s' \<and> GetHash s' = sha1_digest msg"
proof -
  let ?k = "(120 - length (msg @ [0x80]) mod 64) mod 64"
  have k: "?k = (119 - length msg mod 64) mod 64"
    using pad_length [of "length msg mod 64"] by (simp add: mod_Suc)
  have "sha_inv (msg @ [0x80]) (Update [0x80] s)" by (rule sha_inv_Update [OF assms(1)]) simp
  then obtain s1 where s1: "pad_loop (Update [0x80] s) = Some s1" "sha_inv ((msg @ [0x80]) @ replicate ?k 0) s1"
    using pad_loop_spec by blast
  have "length (final_count s) < 2 ^ 32" by (simp add: final_count_def)
  from sha_inv_Update [OF s1(2) this] have "sha_inv (pad msg) (Update (final_count s) s1)"
    unfolding final_count_bytes [OF assms] pad_def k by (simp del: length_append)
  hence "m_state (Update (final_count s) s1) = foldl compress initial_state (full_blocks (pad msg))"
    by (simp add: sha_inv_def foldl_Transform full_blocks_length)
  thus ?thesis using s1(1)
    by (cases "foldl compress initial_state (full_blocks (pad msg))")
      (simp add: Final_def GetHash_def sha1_digest_def digest_bytes)
qed


subsection \<open>Properties\<close>

text \<open>
  C20.  The class computes SHA-1: however the message is cut into pieces for \<open>Update\<close>,
  \<open>Final\<close> ends, and \<open>GetHash\<close> then returns the digest the standard defines for the
  whole message.
\<close>

theorem sha1_computes_standard:
  assumes "length buffer = 64" "\<forall>p \<in> set pieces. length p < 2 ^ 32 - 64" "length (concat pieces) < 2 ^ 61"
  shows "\<exists>s. Final (fold Update pieces (CSHA1_ctor buffer digest)) = Some s \<and> GetHash s = sha1_digest (concat pieces)"
proof -
  have "\<forall>p \<in> set pieces. length p < 2 ^ 32" using assms(2) by auto
  from fold_Update [OF sha_inv_ctor [OF assms(1)] this] show ?thesis
    using Final_spec [of "concat pieces"] assms(3) by simp
qed

theorem sha1_computes_standard_witness:
  "\<exists>s. Final (fold Update [[0x61], [0x62, 0x63]] (CSHA1_ctor (replicate 64 7) [])) = Some s \<and>
     GetHash s = sha1_digest [0x61, 0x62, 0x63]"
  using sha1_computes_standard [of "replicate 64 7" "[[0x61], [0x62, 0x63]]" "[]"] by simp

end
