(* ===== verification/Websocket.thy ===== *)
theory Websocket
  imports Base64 Sha1
begin

text \<open>
  The websocket layer of the HTTP packet parser: the handshake answer and the
  building and extraction of frames.  Frames are lists of bytes.  Where the code
  draws the masking bytes from a random generator, they are an argument.  A frame
  whose bytes are not all there yet is \<open>None\<close>.
\<close>


section \<open>Websocket frames (PacketParse\_Http/WebsocketFormat.hpp)\<close>


subsection \<open>Definitions\<close>

text \<open>The frame types are the values of an \<open>enum\<close>; a received frame may carry any four-bit value.\<close>

type_synonym WebSocketFrameType = u8

definition ERROR_FRAME :: WebSocketFrameType where "ERROR_FRAME = 0xff"
definition CONTINUATION_FRAME :: WebSocketFrameType where "CONTINUATION_FRAME = 0x00"
definition TEXT_FRAME :: WebSocketFrameType where "TEXT_FRAME = 0x01"
definition BINARY_FRAME :: WebSocketFrameType where "BINARY_FRAME = 0x02"
definition CLOSE_FRAME :: WebSocketFrameType where "CLOSE_FRAME = 0x08"
definition PING_FRAME :: WebSocketFrameType where "PING_FRAME = 0x09"
definition PONG_FRAME :: WebSocketFrameType where "PONG_FRAME = 0x0A"

definition handshake_guid :: bytes where
  "handshake_guid = bytes_of_string ''258EAFA5-E914-47DA-95CA-C5AB0DC85B11''"

text \<open>\<open>mem\<close> and \<open>digest\<close> are the uninitialised arrays of the hash object on the stack.\<close>

definition wsHandshake :: "bytes \<Rightarrow> bytes \<Rightarrow> bytes \<Rightarrow> bytes option" where
  "wsHandshake mem digest secKey =
    (case Final (Update (secKey @ handshake_guid) (CSHA1_ctor mem digest)) of
       None \<Rightarrow> None
     | Some s1 \<Rightarrow> Some (base64_encode (GetHash s1)))"

text \<open>The length field: one byte, 126 and two bytes, or 127 and eight bytes.\<close>

definition ws_length :: "u64 \<Rightarrow> bytes" where
  "ws_length payloadLen =
    (if payloadLen \<le> 125 then [ucast payloadLen]
     else if payloadLen \<le> 0xFFFF
     then [126, ucast (drop_bit 8 (payloadLen AND 0xFF00)), ucast (payloadLen AND 0x00FF)]
     else [127, 0, 0, 0, 0,
           ucast (drop_bit 24 (payloadLen AND 0xFF000000)), ucast (drop_bit 16 (payloadLen AND 0x00FF0000)),
           ucast (drop_bit 8 (payloadLen AND 0x0000FF00)), ucast (payloadLen AND 0x000000FF)])"

definition apply_mask :: "bytes \<Rightarrow> bytes \<Rightarrow> bytes" where
  "apply_mask masks payload = map (\<lambda>i. payload ! i XOR masks ! (i mod 4)) [0..<length payload]"

definition wsFrameBuild :: "bytes \<Rightarrow> bytes \<Rightarrow> WebSocketFrameType \<Rightarrow> bool \<Rightarrow> bool \<Rightarrow> bytes" where
  "wsFrameBuild masks payload frame_type isFin masking =
    (let head = frame_type OR (if isFin then 0x80 else 0x00);
         frame = head # ws_length (of_nat (length payload)) in
     if masking then frame[1 := frame ! 1 OR 0x80] @ masks @ apply_mask masks payload
     else frame @ payload)"

text \<open>
  \<open>payload\<close>, \<open>outopcode\<close>, \<open>frameSize\<close> and \<open>outfin\<close> are the out-parameters of the
  extraction; the found bytes are appended to \<open>payload\<close>.
\<close>

record ws_frame =
  ws_payload :: bytes
  ws_opcode :: WebSocketFrameType
  ws_size :: nat
  ws_fin :: bool

text \<open>The payload length and the position behind it; the length is at most \<open>INT32_MAX\<close>.\<close>

definition ws_read_length :: "bytes \<Rightarrow> (u32 \<times> u32) option" where
  "ws_read_length buffer =
    (let payloadlen = ucast (buffer ! 1 AND 0x7F) :: u32 in
     if payloadlen = 126
     then (if length buffer < 4 then None
           else Some (push_bit 8 (ucast (buffer ! 2)) + ucast (buffer ! 3), 4))
     else if payloadlen = 127
     then (if length buffer < 10 then None
           else if buffer ! 2 \<noteq> 0 \<or> buffer ! 3 \<noteq> 0 \<or> buffer ! 4 \<noteq> 0 \<or> buffer ! 5 \<noteq> 0 then None
           else if buffer ! 6 AND 0x80 \<noteq> 0 then None
           else Some (push_bit 24 (ucast (buffer ! 6)) + push_bit 16 (ucast (buffer ! 7)) +
                      push_bit 8 (ucast (buffer ! 8)) + ucast (buffer ! 9), 10))
     else Some (payloadlen, 2))"

definition wsFrameExtractBuffer :: "bytes \<Rightarrow> bytes \<Rightarrow> ws_frame option" where
  "wsFrameExtractBuffer buffer payload =
    (if length buffer < 2 then None
     else
       let outfin = (buffer ! 0 AND 0x80 \<noteq> 0);
           outopcode = buffer ! 0 AND 0x0F;
           isMasking = (buffer ! 1 AND 0x80 \<noteq> 0) in
       (case ws_read_length buffer of
          None \<Rightarrow> None
        | Some (payloadlen, pos) \<Rightarrow>
            if isMasking \<and> length buffer < unat (pos + 4) then None
            else
              let masks = mem_slice (unat pos) 4 buffer;
                  pos = (if isMasking then pos + 4 else pos) in
              if length buffer < unat (pos + payloadlen) then None
              else
                let found = mem_slice (unat pos) (unat payloadlen) buffer in
                Some \<lparr> ws_payload = payload @ (if isMasking then apply_mask masks found else found),
                       ws_opcode = outopcode, ws_size = unat (payloadlen + pos), ws_fin = outfin \<rparr>))"

definition wsFrameExtractString :: "bytes \<Rightarrow> bytes \<Rightarrow> ws_frame option" where
  "wsFrameExtractString buffer payload = wsFrameExtractBuffer buffer payload"

text \<open>Whether a frame is masked, and where its payload starts.\<close>

definition masked :: "bytes \<Rightarrow> bool" where
  "masked buffer \<longleftrightarrow> buffer ! 1 AND 0x80 \<noteq> 0"

definition body_start :: "bytes \<Rightarrow> u32 \<Rightarrow> nat" where
  "body_start buffer p = unat p + (if masked buffer then 4 else 0)"


subsection \<open>Masking\<close>

lemma length_apply_mask [simp]: "length (apply_mask masks payload) = length payload"
  by (simp add: apply_mask_def)

lemma apply_mask_twice [simp]: "apply_mask masks (apply_mask masks payload) = payload"
  by (rule nth_equalityI) (simp_all add: apply_mask_def xor.assoc)


subsection \<open>The length field\<close>

lemma push_ucast_nat: "push_bit k (ucast (b :: u8) :: u32) = of_nat (unat b * 2 ^ k)"
  by (simp add: push_bit_eq_mult)

lemma ucast_nat: "(ucast (b :: u8) :: u32) = of_nat (unat b)"
  by simp

lemma bytes_sum: "n < 2 ^ 32 \<Longrightarrow>
   n div 2 ^ 24 mod 256 * 2 ^ 24 + n div 2 ^ 16 mod 256 * 2 ^ 16 + n div 2 ^ 8 mod 256 * 2 ^ 8 + n mod 256 = (n :: nat)"
proof -
  assume n: "n < 2 ^ 32"
  define a where "a = n div 256"
  define b where "b = a div 256"
  define c where "c = b div 256"
  have "n = 256 * a + n mod 256" "a = 256 * b + a mod 256" "b = 256 * c + b mod 256"
    by (simp_all add: a_def b_def c_def)
  moreover have "n div 2 ^ 8 = a" "n div 2 ^ 16 = b" "n div 2 ^ 24 = c"
    by (simp_all add: a_def b_def c_def div_mult2_eq flip: div_mult2_eq)
  moreover have "c < 256" using n by (simp add: a_def b_def c_def)
  ultimately show ?thesis by simp
qed

lemma drop_of_nat: "n < 2 ^ 64 \<Longrightarrow> (ucast (drop_bit k (of_nat n :: u64)) :: u8) = of_nat (n div 2 ^ k)"
proof -
  assume "n < 2 ^ 64"
  hence "unat (drop_bit k (of_nat n :: u64)) = n div 2 ^ k"
    by (simp only: unsigned_drop_bit_eq unsigned_of_nat) (simp add: drop_bit_eq_div take_bit_eq_mod)
  thus ?thesis unfolding word_unat_eq_iff by (simp add: unsigned_ucast_eq unsigned_of_nat take_bit_eq_mod)
qed

lemma masked_byte:
  "(ucast (drop_bit 24 (x AND 0xFF000000)) :: u8) = ucast (drop_bit 24 (x :: u64))"
  "(ucast (drop_bit 16 (x AND 0x00FF0000)) :: u8) = ucast (drop_bit 16 (x :: u64))"
  "(ucast (drop_bit 8 (x AND 0x0000FF00)) :: u8) = ucast (drop_bit 8 (x :: u64))"
  "(ucast (x AND 0x000000FF) :: u8) = ucast (drop_bit 0 (x :: u64))"
  by (rule byte_eqI; simp add: bit_simps)+

lemma ws_length_nat:
  assumes "n < 2 ^ 64"
  shows "ws_length (of_nat n) =
    (if n \<le> 125 then [of_nat n]
     else if n \<le> 0xFFFF then [126, of_nat (n div 2 ^ 8), of_nat n]
     else [127, 0, 0, 0, 0, of_nat (n div 2 ^ 24), of_nat (n div 2 ^ 16), of_nat (n div 2 ^ 8), of_nat n])"
proof -
  have u: "unat (of_nat n :: u64) = n" using assms by (simp add: unsigned_of_nat take_bit_eq_mod)
  have c: "ucast (of_nat n :: u64) = (of_nat n :: u8)" using drop_of_nat [OF assms, of 0] by simp
  show ?thesis using drop_of_nat [OF assms, of 0]
    unfolding ws_length_def masked_byte drop_of_nat [OF assms]
    by (simp add: word_le_nat_alt u c)
qed

lemma byte_bound: "unat (x :: u8) < 256"
  using unsigned_less [of x, where ?'a = nat] by simp

lemma byte_sign_bound: "(x :: u8) AND 0x80 = 0 \<Longrightarrow> unat x < 128"
proof -
  assume "x AND 0x80 = 0"
  hence "bit (x AND 0x80) 7 = False" by simp
  hence "take_bit 7 x = x" by (intro byte_eqI) (simp_all add: bit_simps)
  thus ?thesis using unsigned_take_bit_eq [of 7 x, where ?'a = nat] take_bit_nat_less_exp [of 7 "unat x"] by simp
qed

lemma unat_of_nat_u32: "n < 2 ^ 32 \<Longrightarrow> unat (of_nat n :: u32) = n"
  by (simp add: unsigned_of_nat take_bit_eq_mod)

lemma seven_bits: "unat (x AND 0x7F :: u8) < 128"
  by (rule byte_sign_bound) (rule byte_eqI; simp add: bit_simps)

lemma ws_read_length_bound:
  assumes "ws_read_length buffer = Some (l, p)" "2 \<le> length buffer"
  shows "unat l < 2 ^ 31 \<and> unat p \<le> length buffer \<and> p \<in> {2, 4, 10}"
proof -
  consider "l = ucast (buffer ! 1 AND 0x7F)" "p = 2"
    | "l = of_nat (unat (buffer ! 2) * 2 ^ 8 + unat (buffer ! 3))" "p = 4" "4 \<le> length buffer"
    | "l = of_nat (unat (buffer ! 6) * 2 ^ 24 + unat (buffer ! 7) * 2 ^ 16 + unat (buffer ! 8) * 2 ^ 8 + unat (buffer ! 9))"
      "p = 10" "10 \<le> length buffer" "buffer ! 6 AND 0x80 = 0"
    using assms by (auto simp: ws_read_length_def Let_def push_bit_eq_mult split: if_splits)
  thus ?thesis
  proof cases
    case 1 with seven_bits [of "buffer ! 1"] assms(2) show ?thesis by (simp add: unsigned_ucast_eq take_bit_eq_mod)
  next
    case 2 with byte_bound [of "buffer ! 2"] byte_bound [of "buffer ! 3"] show ?thesis
      by (simp only: 2, subst unat_of_nat_u32) simp_all
  next
    case 3 with byte_sign_bound [of "buffer ! 6"] byte_bound [of "buffer ! 7"] byte_bound [of "buffer ! 8"] byte_bound [of "buffer ! 9"]
    show ?thesis by (simp only: 3(1,2), subst unat_of_nat_u32) simp_all
  qed
qed

lemma ws_read_length_append:
  "ws_read_length xs = Some r \<Longrightarrow> 2 \<le> length xs \<Longrightarrow> ws_read_length (xs @ ys) = Some r"
  by (auto simp: ws_read_length_def Let_def nth_append split: if_splits)

lemma unat_of_nat_byte: "unat (of_nat n :: u8) = n mod 256"
  by (simp add: unsigned_of_nat take_bit_eq_mod)

lemma length_bytes_4:
  assumes "n < 2 ^ 32"
  shows "push_bit 24 (ucast (of_nat (n div 2 ^ 24) :: u8)) + push_bit 16 (ucast (of_nat (n div 2 ^ 16) :: u8)) +
    push_bit 8 (ucast (of_nat (n div 2 ^ 8) :: u8)) + ucast (of_nat n :: u8) = (of_nat n :: u32)"
  using bytes_sum [OF assms]
  unfolding push_ucast_nat unfolding ucast_nat unat_of_nat_byte of_nat_add [symmetric] by (rule arg_cong)

lemma length_bytes_2:
  assumes "n \<le> 0xFFFF"
  shows "push_bit 8 (ucast (of_nat (n div 2 ^ 8) :: u8)) + ucast (of_nat n :: u8) = (of_nat n :: u32)"
proof -
  have "n div 2 ^ 8 mod 256 * 2 ^ 8 + n mod 256 = n" using assms by simp
  thus ?thesis unfolding push_ucast_nat unfolding ucast_nat unat_of_nat_byte of_nat_add [symmetric] by (rule arg_cong)
qed

lemma ws_read_length_short: "b AND 0x7F = of_nat n \<Longrightarrow> n \<le> 125 \<Longrightarrow> ws_read_length (h # b # rest) = Some (of_nat n, 2)"
proof -
  assume b: "b AND 0x7F = of_nat n" and n: "n \<le> 125"
  have "ucast (b AND 0x7F) = (of_nat n :: u32)" unfolding ucast_nat b unat_of_nat_byte using n by simp
  moreover have "of_nat n \<noteq> (126 :: u32)" "of_nat n \<noteq> (127 :: u32)"
    using n unat_of_nat_u32 [of n] by (auto simp: word_unat_eq_iff)
  ultimately show ?thesis by (simp add: ws_read_length_def Let_def)
qed

lemma ws_read_length_16:
  "b AND 0x7F = 126 \<Longrightarrow> ws_read_length (h # b # b1 # b2 # rest) = Some (push_bit 8 (ucast b1) + ucast b2, 4)"
  by (simp add: ws_read_length_def)

lemma ws_read_length_64:
  "b AND 0x7F = 127 \<Longrightarrow> b1 AND 0x80 = 0 \<Longrightarrow> ws_read_length (h # b # 0 # 0 # 0 # 0 # b1 # b2 # b3 # b4 # rest) =
     Some (push_bit 24 (ucast b1) + push_bit 16 (ucast b2) + push_bit 8 (ucast b3) + ucast b4, 10)"
  by (simp add: ws_read_length_def)

lemma no_sign: "unat x < 128 \<Longrightarrow> (x :: u8) AND 0x80 = 0"
proof -
  assume "unat x < 128"
  hence "take_bit 7 x = x" unfolding word_unat_eq_iff unsigned_take_bit_eq by (simp add: take_bit_eq_mod)
  moreover have "take_bit 7 x AND 0x80 = 0" by (rule byte_eqI) (simp_all add: bit_simps)
  ultimately show ?thesis by simp
qed

lemma ws_read_length_build:
  assumes "n < 2 ^ 31" "b AND 0x7F = hd (ws_length (of_nat n))"
  shows "ws_read_length (h # b # tl (ws_length (of_nat n)) @ rest) =
    Some (of_nat n, 1 + of_nat (length (ws_length (of_nat n))))"
proof -
  have n64: "n < 2 ^ 64" and n32: "n < 2 ^ 32" using assms(1) by simp_all
  note len = ws_length_nat [OF n64]
  consider "n \<le> 125" | "125 < n" "n \<le> 0xFFFF" | "0xFFFF < n" by linarith
  thus ?thesis
  proof cases
    case 1 with assms(2) ws_read_length_short [of b n] show ?thesis by (simp add: len)
  next
    case 2 with assms(2) ws_read_length_16 [of b] length_bytes_2 [of n] show ?thesis by (simp add: len)
  next
    case 3
    have "(of_nat (n div 2 ^ 24) :: u8) AND 0x80 = 0"
      by (rule no_sign) (use assms(1) in \<open>simp add: unat_of_nat_byte\<close>)
    with 3 assms(2) ws_read_length_64 [of b] length_bytes_4 [OF n32] show ?thesis by (simp add: len)
  qed
qed


subsection \<open>Frames\<close>

text \<open>The extraction without the machine arithmetic: the lengths are too small to wrap around.\<close>

lemma extract_eq:
  assumes "ws_read_length buffer = Some (l, p)" "2 \<le> length buffer"
  shows "wsFrameExtractBuffer buffer payload =
    (if length buffer < body_start buffer p + unat l then None
     else Some \<lparr> ws_payload = payload @
         (if masked buffer then apply_mask (mem_slice (unat p) 4 buffer) (mem_slice (body_start buffer p) (unat l) buffer)
          else mem_slice (body_start buffer p) (unat l) buffer),
       ws_opcode = buffer ! 0 AND 0x0F, ws_size = body_start buffer p + unat l, ws_fin = (buffer ! 0 AND 0x80 \<noteq> 0) \<rparr>)"
proof -
  note b = ws_read_length_bound [OF assms]
  have q: "unat (p + 4) = unat p + 4" using b by auto
  have "unat p \<le> 10" using b by auto
  have e: "unat (x + y) = unat x + unat y" if "unat x \<le> 14" "unat y < 2 ^ 31" for x y :: u32
    using that by (simp add: unat_word_ariths)
  have "unat (p + l) = unat p + unat l" "unat (p + 4 + l) = unat p + 4 + unat l"
    using e [of p l] e [of "p + 4" l] b q \<open>unat p \<le> 10\<close> by simp_all
  thus ?thesis using assms q
    by (simp add: wsFrameExtractBuffer_def Let_def body_start_def masked_def add.commute [of l])
qed

lemma extract_bounds:
  assumes "wsFrameExtractBuffer buffer payload = Some f"
  shows "2 \<le> ws_size f" "ws_size f \<le> length buffer"
proof -
  have l: "2 \<le> length buffer" using assms by (simp add: wsFrameExtractBuffer_def split: if_splits)
  obtain n p where r: "ws_read_length buffer = Some (n, p)"
    using assms l by (auto simp: wsFrameExtractBuffer_def Let_def split: option.splits)
  have "2 \<le> unat p" using ws_read_length_bound [OF r l] by auto
  thus "2 \<le> ws_size f" "ws_size f \<le> length buffer"
    using assms unfolding extract_eq [OF r l] by (auto simp: body_start_def split: if_splits)
qed

text \<open>Bytes behind a complete frame do not change what is extracted.\<close>

lemma extract_append:
  assumes "wsFrameExtractBuffer xs payload = Some f"
  shows "wsFrameExtractBuffer (xs @ ys) payload = Some f"
proof -
  have l: "2 \<le> length xs" using assms by (simp add: wsFrameExtractBuffer_def split: if_splits)
  hence l': "2 \<le> length (xs @ ys)" by simp
  obtain n p where r: "ws_read_length xs = Some (n, p)"
    using assms l by (auto simp: wsFrameExtractBuffer_def Let_def split: option.splits)
  note r' = ws_read_length_append [OF r l, of ys]
  have m: "masked (xs @ ys) = masked xs" "(xs @ ys) ! 0 = xs ! 0" using l by (auto simp: masked_def nth_append)
  have s: "mem_slice a k (xs @ ys) = mem_slice a k xs" if "a + k \<le> length xs" for a k
    using that by (simp add: mem_slice_def)
  show ?thesis using assms
    unfolding extract_eq [OF r l] extract_eq [OF r' l'] by (auto simp: m s body_start_def split: if_splits)
qed

lemma frame_head:
  "unat op < 16 \<Longrightarrow> (op OR (if fin then 0x80 else 0x00)) AND 0x0F = (op :: u8)"
  "unat op < 16 \<Longrightarrow> (op OR (if fin then 0x80 else 0x00)) AND 0x80 \<noteq> 0 \<longleftrightarrow> fin"
proof -
  assume "unat op < 16"
  hence t: "take_bit 4 op = op" unfolding word_unat_eq_iff unsigned_take_bit_eq by (simp add: take_bit_eq_mod)
  have "(take_bit 4 op OR (if fin then 0x80 else 0x00)) AND 0x0F = take_bit 4 op"
    by (rule byte_eqI) (simp_all add: bit_simps)
  thus "(op OR (if fin then 0x80 else 0x00)) AND 0x0F = op" by (simp only: t)
  have "(take_bit 4 op OR (if fin then 0x80 else 0x00)) AND 0x80 = (if fin then 0x80 else 0)"
    by (rule byte_eqI) (simp_all add: bit_simps)
  thus "(op OR (if fin then 0x80 else 0x00)) AND 0x80 \<noteq> 0 \<longleftrightarrow> fin" by (simp only: t) simp
qed

lemma ws_length_cases:
  assumes "n < 2 ^ 64"
  obtains x xs where "ws_length (of_nat n) = x # xs" "unat x < 128" "length xs < 10"
  using that by (cases "n \<le> 125"; cases "n \<le> 0xFFFF") (simp_all add: ws_length_nat [OF assms] unat_of_nat_byte)

lemma mask_bit:
  assumes "unat x < 128"
  shows "(x :: u8) AND 0x7F = x" "(x OR 0x80) AND 0x7F = x" "x AND 0x80 = 0" "(x OR 0x80) AND 0x80 \<noteq> 0"
proof -
  have t: "take_bit 7 x = x" using assms unfolding word_unat_eq_iff unsigned_take_bit_eq by (simp add: take_bit_eq_mod)
  have "take_bit 7 x AND 0x7F = take_bit 7 x" "(take_bit 7 x OR 0x80) AND 0x7F = take_bit 7 x" "(take_bit 7 x OR 0x80) AND 0x80 = 0x80"
    by (rule byte_eqI; simp add: bit_simps)+
  thus "x AND 0x7F = x" "(x OR 0x80) AND 0x7F = x" "x AND 0x80 = 0" "(x OR 0x80) AND 0x80 \<noteq> 0"
    using no_sign [OF assms] unfolding t by simp_all
qed

lemma frame_layout:
  assumes "length payload < 2 ^ 31" "masking \<longrightarrow> length masks = 4"
  obtains b xs where
    "wsFrameBuild masks payload op fin masking =
       (op OR (if fin then 0x80 else 0x00)) # b # xs @ (if masking then masks @ apply_mask masks payload else payload)"
    "b AND 0x7F = hd (ws_length (of_nat (length payload)))" "xs = tl (ws_length (of_nat (length payload)))"
    "b AND 0x80 \<noteq> 0 \<longleftrightarrow> masking" "length xs < 10"
proof -
  have "length payload < 2 ^ 64" using assms(1) by simp
  then obtain x xs where x: "ws_length (of_nat (length payload)) = x # xs" "unat x < 128" "length xs < 10"
    by (rule ws_length_cases)
  show thesis
    by (rule that [of "if masking then x OR 0x80 else x" xs])
      (use x(1,3) mask_bit [OF x(2)] in \<open>simp_all add: wsFrameBuild_def Let_def\<close>)
qed

lemma drop_head: "drop (6 + k) (a # b # ys) = drop (4 + k) ys"
  by (simp add: numeral_eq_Suc)

lemma extract_build:
  assumes "length payload < 2 ^ 31" "unat op < 16" "masking \<longrightarrow> length masks = 4"
  shows "wsFrameExtractBuffer (wsFrameBuild masks payload op fin masking) acc =
    Some \<lparr> ws_payload = acc @ payload, ws_opcode = op,
      ws_size = length (wsFrameBuild masks payload op fin masking), ws_fin = fin \<rparr>"
proof -
  obtain b xs where f: "wsFrameBuild masks payload op fin masking =
       (op OR (if fin then 0x80 else 0x00)) # b # xs @ (if masking then masks @ apply_mask masks payload else payload)"
    "b AND 0x7F = hd (ws_length (of_nat (length payload)))" "xs = tl (ws_length (of_nat (length payload)))"
    "b AND 0x80 \<noteq> 0 \<longleftrightarrow> masking" "length xs < 10"
    using frame_layout [OF assms(1,3)] by blast
  let ?frame = "wsFrameBuild masks payload op fin masking"
  let ?p = "1 + of_nat (length (ws_length (of_nat (length payload)))) :: u32"
  have r: "ws_read_length ?frame = Some (of_nat (length payload), ?p)"
    unfolding f(1) f(3) by (rule ws_read_length_build [OF assms(1) f(2)])
  have "ws_length (of_nat (length payload)) \<noteq> []"
    by (rule ws_length_cases [of "length payload"]) (use assms(1) in simp_all)
  hence "length (ws_length (of_nat (length payload))) = Suc (length xs)" using f(3) by simp
  hence p: "unat ?p = 2 + length xs" using f(5) unat_of_nat_u32 [of "2 + length xs"] by simp
  have n: "unat (of_nat (length payload) :: u32) = length payload" using assms(1) unat_of_nat_u32 by simp
  have m: "masked ?frame = masking" using f(1,4) by (simp add: masked_def)
  have l: "2 \<le> length ?frame" by (simp add: f(1))
  show ?thesis
    unfolding extract_eq [OF r l] n p body_start_def m unfolding f(1)
    using assms(3) frame_head [OF assms(2)] by (cases masking) (simp_all add: mem_slice_def drop_head)
qed

lemma handshake_digest:
  assumes "length mem = 64" "length secKey < 2 ^ 31"
  shows "wsHandshake mem digest secKey = Some (base64_encode (sha1_digest (secKey @ handshake_guid)))"
proof -
  have "length handshake_guid = 36" by (simp add: handshake_guid_def bytes_of_string_def)
  hence l: "length (secKey @ handshake_guid) < 2 ^ 32" using assms(2) by simp
  have "sha_inv ([] @ (secKey @ handshake_guid)) (Update (secKey @ handshake_guid) (CSHA1_ctor mem digest))"
    by (rule sha_inv_Update [OF sha_inv_ctor [OF assms(1)] l])
  thus ?thesis using Final_spec [of "secKey @ handshake_guid" "Update (secKey @ handshake_guid) (CSHA1_ctor mem digest)"] l
    by (auto simp: wsHandshake_def)
qed

lemma length_sha1_digest: "length (sha1_digest m) = 20"
  by (simp add: sha1_digest_def be_bytes32_def split: prod.splits)


subsection \<open>Properties\<close>

text \<open>
  C19.  A frame that was built, with or without masking and with any bytes behind it, is
  extracted with its payload, its type, its final bit and its size; and no proper
  part of it is taken for a frame.
\<close>

theorem ws_frame_roundtrip:
  assumes "length payload < 2 ^ 31" "unat frame_type < 16" "masking \<longrightarrow> length masks = 4"
  shows "wsFrameExtractBuffer (wsFrameBuild masks payload frame_type isFin masking @ rest) [] =
      Some \<lparr> ws_payload = payload, ws_opcode = frame_type,
        ws_size = length (wsFrameBuild masks payload frame_type isFin masking), ws_fin = isFin \<rparr> \<and>
    (\<forall>k < length (wsFrameBuild masks payload frame_type isFin masking).
       wsFrameExtractBuffer (take k (wsFrameBuild masks payload frame_type isFin masking)) [] = None)"
proof -
  let ?frame = "wsFrameBuild masks payload frame_type isFin masking"
  note e = extract_build [OF assms, of isFin "[]"]
  have "wsFrameExtractBuffer (take k ?frame) [] = None" if "k < length ?frame" for k
  proof (rule ccontr)
    assume "wsFrameExtractBuffer (take k ?frame) [] \<noteq> None"
    then obtain f where f: "wsFrameExtractBuffer (take k ?frame) [] = Some f" by blast
    have "ws_size f = length ?frame" using e extract_append [OF f, of "drop k ?frame"] by auto
    with extract_bounds(2) [OF f] that show False by simp
  qed
  with extract_append [OF e, of rest] show ?thesis by simp
qed

theorem ws_frame_roundtrip_witness:
  "wsFrameExtractBuffer (wsFrameBuild [1, 2, 3, 4] (replicate 300 7) TEXT_FRAME True True @ [9]) [] =
     Some \<lparr> ws_payload = replicate 300 7, ws_opcode = TEXT_FRAME,
       ws_size = length (wsFrameBuild [1, 2, 3, 4] (replicate 300 7) TEXT_FRAME True True), ws_fin = True \<rparr>"
  using ws_frame_roundtrip [of "replicate 300 7" TEXT_FRAME True "[1, 2, 3, 4]" True "[9]"]
  by (simp add: TEXT_FRAME_def)

text \<open>
  The handshake answers with the base64 form, 28 characters, of the SHA-1 digest of
  the client's key and the fixed identifier of the protocol.
\<close>

theorem ws_handshake_answer:
  assumes "length mem = 64" "length secKey < 2 ^ 31"
  shows "\<exists>answer. wsHandshake mem digest secKey = Some answer \<and> length answer = 28 \<and>
    base64_decode answer = sha1_digest (secKey @ handshake_guid)"
  using handshake_digest [OF assms] decode_encode by (simp add: base64_length length_sha1_digest)

theorem ws_handshake_answer_witness:
  "\<exists>answer. wsHandshake (replicate 64 0) [] (replicate 24 65) = Some answer \<and> length answer = 28 \<and>
    base64_decode answer = sha1_digest (replicate 24 65 @ handshake_guid)"
  using ws_handshake_answer [of "replicate 64 0" "replicate 24 65" "[]"] by simp

end
