(* ===== verification/Http_Format.thy ===== *)
theory Http_Format
  imports Prelude
begin

text \<open>
  The HTTP side of the HTTP packet parser.  The HTTP/1 state machine itself is the
  third-party \<open>http_parser\<close>; it is the argument \<open>parser\<close> of the definitions: for a
  request text it yields the callbacks it makes, how many bytes it accepted and its
  upgrade flag.  Every callback of this code returns 0, so what they do cannot change
  what the parser does.  Strings are lists of bytes.
\<close>


section \<open>HTTP requests and answers (PacketParse\_Http/HttpFormat.h, HttpFormat.cpp)\<close>


subsection \<open>Definitions\<close>

record CHttpTextBuffer =
  http_func_name :: string
  http_request_text :: bytes
  http_post_text :: bytes
  is_completed :: bool
  buffer_parse_pos :: int
  is_post_length :: bool
  content_length :: int
  is_upgrade :: bool
  upgrade_field :: bytes
  is_websocket_key :: bool
  websocket_key :: bytes
  head_info_list :: "bytes \<rightharpoonup> bytes"
  head_field :: bytes

definition CHttpTextBuffer_default :: CHttpTextBuffer where
  "CHttpTextBuffer_default = \<lparr> http_func_name = [], http_request_text = [], http_post_text = [], is_completed = False,
     buffer_parse_pos = 0, is_post_length = False, content_length = 0, is_upgrade = False, upgrade_field = [],
     is_websocket_key = False, websocket_key = [], head_info_list = Map.empty, head_field = [] \<rparr>"

definition clear_text_buffer :: "CHttpTextBuffer \<Rightarrow> CHttpTextBuffer" where
  "clear_text_buffer h = h \<lparr> buffer_parse_pos := 0, is_completed := False, http_request_text := [], http_post_text := [],
     http_func_name := [], is_post_length := False, content_length := 0, is_upgrade := False,
     is_websocket_key := False, head_info_list := Map.empty \<rparr>"

text \<open>\<open>::tolower\<close> and \<open>atoi\<close> of the C library, in the C locale.\<close>

definition tolower :: "u8 \<Rightarrow> u8" where
  "tolower c = (if 65 \<le> c \<and> c \<le> 90 then c + 32 else c)"

definition is_space :: "u8 \<Rightarrow> bool" where
  "is_space c \<longleftrightarrow> c = 32 \<or> (9 \<le> c \<and> c \<le> 13)"

definition is_digit :: "u8 \<Rightarrow> bool" where
  "is_digit c \<longleftrightarrow> 48 \<le> c \<and> c \<le> 57"

definition digits_value :: "bytes \<Rightarrow> int" where
  "digits_value s = foldl (\<lambda>n c. 10 * n + (int (unat c) - 48)) 0 (takeWhile is_digit s)"

definition atoi :: "bytes \<Rightarrow> int" where
  "atoi s =
    (case dropWhile is_space s of
       [] \<Rightarrow> 0
     | c # rest \<Rightarrow> if c = 45 then - digits_value rest else if c = 43 then digits_value rest else digits_value (c # rest))"

text \<open>The callbacks.\<close>

definition sChunkComplete :: "CHttpTextBuffer \<Rightarrow> CHttpTextBuffer" where
  "sChunkComplete h = h \<lparr> http_func_name := ''sChunkComplete'' \<rparr>"

definition sUrlCallback :: "bytes \<Rightarrow> CHttpTextBuffer \<Rightarrow> CHttpTextBuffer" where
  "sUrlCallback url h = h \<lparr> http_func_name := ''sUrlCallback'' \<rparr>"

definition sHeaderFieldCallback :: "bytes \<Rightarrow> CHttpTextBuffer \<Rightarrow> CHttpTextBuffer" where
  "sHeaderFieldCallback field h = h \<lparr> http_func_name := ''sHeaderFieldCallback'' \<rparr>"

definition sStatusHandle :: "bytes \<Rightarrow> CHttpTextBuffer \<Rightarrow> CHttpTextBuffer" where
  "sStatusHandle status h = h \<lparr> http_func_name := ''sStatusHandle'' \<rparr>"

definition sBodyHandle :: "bytes \<Rightarrow> CHttpTextBuffer \<Rightarrow> CHttpTextBuffer" where
  "sBodyHandle body h = h \<lparr> http_func_name := ''sBodyHandle'', http_post_text := http_post_text h @ body \<rparr>"

definition sHeadValue :: "bytes \<Rightarrow> CHttpTextBuffer \<Rightarrow> CHttpTextBuffer" where
  "sHeadValue http_data h =
    (let h = h \<lparr> http_func_name := ''sHeadValue'', head_info_list := (head_info_list h)(head_field h \<mapsto> http_data) \<rparr>;
         h = (if is_post_length h then h \<lparr> content_length := atoi http_data, is_post_length := False \<rparr> else h);
         h = (if is_upgrade h
              then h \<lparr> upgrade_field := map tolower (upgrade_field h @ http_data), is_upgrade := False \<rparr> else h) in
     if is_websocket_key h then h \<lparr> websocket_key := websocket_key h @ http_data, is_websocket_key := False \<rparr> else h)"

definition sHeadField :: "bytes \<Rightarrow> CHttpTextBuffer \<Rightarrow> CHttpTextBuffer" where
  "sHeadField field h =
    (let http_data = map tolower field;
         h = h \<lparr> http_func_name := ''sHeadField'', head_field := http_data \<rparr>;
         h = (if http_data = bytes_of_string ''content-length'' then h \<lparr> is_post_length := True \<rparr> else h);
         h = (if http_data = bytes_of_string ''upgrade'' then h \<lparr> is_upgrade := True \<rparr> else h) in
     if http_data = bytes_of_string ''sec-websocket-key'' then h \<lparr> is_websocket_key := True \<rparr> else h)"

definition sHeadComplete :: "CHttpTextBuffer \<Rightarrow> CHttpTextBuffer" where
  "sHeadComplete h = h \<lparr> http_func_name := ''sHeadComplete'' \<rparr>"

definition sMessageBegin :: "CHttpTextBuffer \<Rightarrow> CHttpTextBuffer" where
  "sMessageBegin h = h \<lparr> http_func_name := ''sMessageBegin'' \<rparr>"

definition sMessageEnd :: "CHttpTextBuffer \<Rightarrow> CHttpTextBuffer" where
  "sMessageEnd h = h \<lparr> http_func_name := ''sMessageEnd'' \<rparr>"

definition sChunkHeader :: "CHttpTextBuffer \<Rightarrow> CHttpTextBuffer" where
  "sChunkHeader h = h \<lparr> http_func_name := ''sChunkHeader'' \<rparr>"

text \<open>The callbacks the parser makes, and the functions \<open>init_http_setting\<close> installs for them.\<close>

datatype http_event =
    On_message_begin | On_url bytes | On_status bytes | On_header_field bytes | On_header_value bytes
  | On_headers_complete | On_body bytes | On_message_complete | On_chunk_header | On_chunk_complete

fun http_settings :: "http_event \<Rightarrow> CHttpTextBuffer \<Rightarrow> CHttpTextBuffer" where
  "http_settings (On_url s) = sUrlCallback s"
| "http_settings (On_status s) = sStatusHandle s"
| "http_settings (On_body s) = sBodyHandle s"
| "http_settings (On_header_value s) = sHeadValue s"
| "http_settings (On_header_field s) = sHeadField s"
| "http_settings On_headers_complete = sHeadComplete"
| "http_settings On_message_begin = sMessageBegin"
| "http_settings On_message_complete = sMessageEnd"
| "http_settings On_chunk_header = sChunkHeader"
| "http_settings On_chunk_complete = sChunkComplete"

definition init_http_setting :: "CHttpTextBuffer \<Rightarrow> CHttpTextBuffer" where
  "init_http_setting h = clear_text_buffer h"

record parser_run =
  run_events :: "http_event list"
  run_nparsed :: nat
  run_upgrade :: bool

definition is_websocket :: "CHttpTextBuffer \<Rightarrow> bool" where
  "is_websocket h \<longleftrightarrow> upgrade_field h = bytes_of_string ''websocket''"

text \<open>The cast of a \<open>size_t\<close> to \<open>int\<close>.\<close>

definition to_int :: "nat \<Rightarrow> int" where
  "to_int n = sint (of_nat n :: u32)"

definition try_parse :: "(bytes \<Rightarrow> parser_run) \<Rightarrow> bytes \<Rightarrow> CHttpTextBuffer \<Rightarrow> int \<times> CHttpTextBuffer" where
  "try_parse parser http_text h =
    (let h = (if is_completed h then clear_text_buffer h else h);
         h = h \<lparr> http_request_text := http_request_text h @ http_text \<rparr>;
         run = parser (http_request_text h);
         h = fold http_settings (run_events run) h in
     if run_upgrade run then (0, h)
     else if run_nparsed run \<noteq> length (http_request_text h) then (-1, h \<lparr> buffer_parse_pos := to_int (run_nparsed run) \<rparr>)
     else if is_websocket h then (0, h)
     else if content_length h > 0 \<and> to_int (length (http_post_text h)) < content_length h then (1, h)
     else (0, h \<lparr> is_completed := True \<rparr>))"

definition get_post_text :: "CHttpTextBuffer \<Rightarrow> bytes" where
  "get_post_text h = http_post_text h"

definition get_post_error :: "CHttpTextBuffer \<Rightarrow> string" where
  "get_post_error h =
    (if is_completed h then []
     else ''[error]state='' @ http_func_name h @ '',position='' @
       (if buffer_parse_pos h < 0 then ''-'' @ to_string (nat (- buffer_parse_pos h)) else to_string (nat (buffer_parse_pos h))))"

definition get_websocket_client_key :: "CHttpTextBuffer \<Rightarrow> bytes" where
  "get_websocket_client_key h = websocket_key h"

definition crlf :: bytes where
  "crlf = [13, 10]"

definition get_response_text :: "bytes \<Rightarrow> bytes" where
  "get_response_text data =
     bytes_of_string ''HTTP/1.1 200 OK'' @ crlf @ bytes_of_string ''Content-Type: application/json'' @ crlf @
     bytes_of_string ''Access-Control-Allow-Origin:*'' @ crlf @ bytes_of_string ''Content-Length:'' @
     bytes_of_string (to_string (length data)) @ crlf @ crlf @ data"

definition get_response_websocket_text :: "bytes \<Rightarrow> bytes" where
  "get_response_websocket_text data =
     bytes_of_string ''HTTP/1.1 101 Switching Protocols'' @ crlf @ bytes_of_string ''Upgrade: websocket'' @ crlf @
     bytes_of_string ''Connection: Upgrade'' @ crlf @ bytes_of_string ''Sec-WebSocket-Accept: '' @ data @ crlf @ crlf"

definition get_head_info :: "bytes \<Rightarrow> CHttpTextBuffer \<Rightarrow> bytes" where
  "get_head_info field_name h =
    (case head_info_list h (map tolower field_name) of Some v \<Rightarrow> v | None \<Rightarrow> [])"

text \<open>The body, the announced length and the upgrade headers of a run of the parser, for the specification.\<close>

fun event_body :: "http_event \<Rightarrow> bytes" where
  "event_body (On_body b) = b"
| "event_body _ = []"

definition run_body :: "http_event list \<Rightarrow> bytes" where
  "run_body evs = concat (map event_body evs)"

definition upgrade_header :: "http_event \<Rightarrow> bool" where
  "upgrade_header ev \<longleftrightarrow> (\<exists>f. ev = On_header_field f \<and> map tolower f = bytes_of_string ''upgrade'')"

definition run_length :: "http_event list \<Rightarrow> int" where
  "run_length evs = content_length (fold http_settings evs CHttpTextBuffer_default)"


subsection \<open>What the callbacks collect\<close>

lemmas callback_defs = sChunkComplete_def sUrlCallback_def sStatusHandle_def sBodyHandle_def sHeadValue_def sHeadField_def
  sHeadComplete_def sMessageBegin_def sMessageEnd_def sChunkHeader_def

lemma callback_body [simp]: "http_post_text (http_settings ev h) = http_post_text h @ event_body ev"
  by (cases ev) (simp_all add: callback_defs Let_def)

lemma callbacks_body: "http_post_text (fold http_settings evs h) = http_post_text h @ run_body evs"
  by (induction evs arbitrary: h) (simp_all add: run_body_def)

lemma callback_request [simp]: "http_request_text (http_settings ev h) = http_request_text h"
  by (cases ev) (simp_all add: callback_defs Let_def)

lemma callbacks_request [simp]: "http_request_text (fold http_settings evs h) = http_request_text h"
  by (induction evs arbitrary: h) simp_all

lemma callback_upgrade:
  "\<not> upgrade_header ev \<Longrightarrow> \<not> is_upgrade h \<Longrightarrow>
   \<not> is_upgrade (http_settings ev h) \<and> upgrade_field (http_settings ev h) = upgrade_field h"
  by (cases ev) (auto simp: callback_defs Let_def upgrade_header_def)

lemma callbacks_upgrade:
  "\<forall>ev \<in> set evs. \<not> upgrade_header ev \<Longrightarrow> \<not> is_upgrade h \<Longrightarrow>
   upgrade_field (fold http_settings evs h) = upgrade_field h"
  by (induction evs arbitrary: h) (simp_all add: callback_upgrade)

text \<open>The announced length depends on the length flag and the events only.\<close>

lemma head_field_length:
  "is_post_length (sHeadField f h) \<longleftrightarrow> map tolower f = bytes_of_string ''content-length'' \<or> is_post_length h"
  "content_length (sHeadField f h) = content_length h"
  by (auto simp: sHeadField_def Let_def)

lemma head_value_length:
  "is_post_length (sHeadValue v h) \<longleftrightarrow> False"
  "content_length (sHeadValue v h) = (if is_post_length h then atoi v else content_length h)"
  by (simp_all add: sHeadValue_def Let_def)

lemma callback_length:
  "is_post_length h = is_post_length h' \<Longrightarrow> content_length h = content_length h' \<Longrightarrow>
   is_post_length (http_settings ev h) = is_post_length (http_settings ev h') \<and>
   content_length (http_settings ev h) = content_length (http_settings ev h')"
  by (cases ev) (simp_all add: head_field_length head_value_length sChunkComplete_def sUrlCallback_def sStatusHandle_def
    sBodyHandle_def sHeadComplete_def sMessageBegin_def sMessageEnd_def sChunkHeader_def)

lemma callbacks_length:
  "is_post_length h = is_post_length h' \<Longrightarrow> content_length h = content_length h' \<Longrightarrow>
   content_length (fold http_settings evs h) = content_length (fold http_settings evs h')"
proof (induction evs arbitrary: h h')
  case (Cons ev evs)
  from callback_length [OF Cons.prems, of ev] Cons.IH [of "http_settings ev h" "http_settings ev h'"] show ?case by simp
qed simp

lemma to_int_small:
  assumes "n < 2 ^ 31" shows "to_int n = int n"
proof -
  have "signed_take_bit 31 (int n) = int n" by (rule signed_take_bit_int_eq_self) (use assms in simp_all)
  thus ?thesis unfolding to_int_def signed_of_nat by simp
qed

end
