(* ===== verification/Http_Parse.thy ===== *)
theory Http_Parse
  imports Http_Format Websocket Session_Buffer Frame_Types
begin

text \<open>
  The packet parser for HTTP and websocket.  Every connection has a protocol state:
  it starts with HTTP; a request with an upgrade header makes it a handshake, and
  the answer to the handshake makes it websocket data.

  \<open>parser\<close> is the third-party HTTP parser (see \<open>Http_Format\<close>), \<open>mem\<close> the
  uninitialised array of the hash object.  \<open>None\<close> would be a hash computation that
  does not end.
\<close>


section \<open>The HTTP and websocket packet parser (PacketParse\_Http/PacketParse\_Http.cpp)\<close>


subsection \<open>Definitions\<close>

datatype ENUM_Protocol = PROTOCAL_HTTP_POST | PROTOCAL_WEBSOCKET_SHARK_HAND | PROTOCAL_WEBSOCKET_DATA

record CProtocalInfo =
  protocol :: ENUM_Protocol
  http_format :: CHttpTextBuffer

type_synonym map_http_parse = "u32 \<rightharpoonup> CProtocalInfo"

definition http_post_command :: u16 where "http_post_command = 0x1001"
definition http_websocket_shark_hand :: u16 where "http_websocket_shark_hand = 0x1002"
definition websocket_data :: u16 where "websocket_data = 0x1003"

definition http_is_need_send_format :: bool where
  "http_is_need_send_format = True"

definition http_logic_packet :: "u16 \<Rightarrow> bytes \<Rightarrow> CMessage_Packet" where
  "http_logic_packet command data = \<lparr> msg_param_arg = [], msg_buffer = data, msg_command_id = command \<rparr>"

text \<open>One round of the loop of \<open>dispose_websocket_data_message\<close>: the cached fragments, and the message, if any.\<close>

definition websocket_frame :: "ws_frame \<Rightarrow> bytes \<Rightarrow> bytes \<times> bytes option" where
  "websocket_frame f cache_frame =
    (let fragment = (\<not> ws_fin f \<or> ws_opcode f = CONTINUATION_FRAME);
         cache_frame = (if fragment then cache_frame @ ws_payload f else cache_frame);
         parse_data = (if fragment then [] else ws_payload f);
         cache_frame = (if \<not> ws_fin f \<and> ws_opcode f \<noteq> CONTINUATION_FRAME then [] else cache_frame) in
     if \<not> ws_fin f then (cache_frame, None)
     else (cache_frame,
           Some (if ws_opcode f = CONTINUATION_FRAME \<and> cache_frame \<noteq> [] then cache_frame else parse_data)))"

function websocket_loop ::
  "nat \<Rightarrow> bytes \<Rightarrow> CSessionBuffer \<Rightarrow> CProtocalInfo \<Rightarrow> CMessage_Packet list \<Rightarrow>
   CSessionBuffer \<times> CProtocalInfo \<times> CMessage_Packet list" where
  "websocket_loop left_len cache_frame buffer protocal_info message_list =
    (if left_len > 0 then
       (case wsFrameExtractBuffer (take left_len (sb_buffer buffer)) [] of
          None \<Rightarrow> (buffer, protocal_info, message_list)
        | Some f \<Rightarrow>
            (case websocket_frame f cache_frame of
               (cache_frame, None) \<Rightarrow>
                 websocket_loop (left_len - ws_size f) cache_frame (move_buffer (ws_size f) buffer)
                   protocal_info message_list
             | (cache_frame, Some parse_data) \<Rightarrow>
                 websocket_loop (left_len - ws_size f) cache_frame (move_buffer (ws_size f) buffer)
                   (protocal_info \<lparr> protocol := PROTOCAL_WEBSOCKET_DATA \<rparr>)
                   (message_list @ [http_logic_packet websocket_data parse_data])))
     else (buffer, protocal_info, message_list))"
  by auto
termination
  by (relation "measure fst") (auto dest: extract_bounds(1))

declare websocket_loop.simps [simp del]

definition dispose_websocket_data_message ::
  "CSessionBuffer \<Rightarrow> CProtocalInfo \<Rightarrow> CMessage_Packet list \<Rightarrow> bool \<times> CSessionBuffer \<times> CProtocalInfo \<times> CMessage_Packet list" where
  "dispose_websocket_data_message buffer protocal_info message_list =
     (True, websocket_loop (get_write_size buffer) [] buffer protocal_info message_list)"

definition dispose_http_message ::
  "(bytes \<Rightarrow> parser_run) \<Rightarrow> bytes \<Rightarrow> bytes \<Rightarrow> CProtocalInfo \<Rightarrow> CMessage_Packet list \<Rightarrow>
   (bool \<times> CProtocalInfo \<times> CMessage_Packet list) option" where
  "dispose_http_message parser mem request_text protocal_info message_list =
    (case try_parse parser request_text (http_format protocal_info) of (ret, h) \<Rightarrow>
       let protocal_info = protocal_info \<lparr> http_format := h \<rparr> in
       if ret = 0 then
         (if \<not> is_websocket h
          then Some (True, protocal_info \<lparr> protocol := PROTOCAL_HTTP_POST \<rparr>,
                 message_list @ [http_logic_packet http_post_command (get_post_text h)])
          else (case wsHandshake mem [] (get_websocket_client_key h) of
                  None \<Rightarrow> None
                | Some answer \<Rightarrow>
                    Some (True, protocal_info \<lparr> protocol := PROTOCAL_WEBSOCKET_SHARK_HAND \<rparr>,
                      message_list @ [http_logic_packet http_websocket_shark_hand answer])))
       else if ret = -1 then Some (False, protocal_info, message_list)
       else Some (True, protocal_info, message_list))"

definition do_websocket_send_frame :: "bytes \<Rightarrow> bytes" where
  "do_websocket_send_frame send_data = wsFrameBuild [] send_data TEXT_FRAME True False"

definition http_parse_packet_from_recv_buffer ::
  "(bytes \<Rightarrow> parser_run) \<Rightarrow> bytes \<Rightarrow> u32 \<Rightarrow> CSessionBuffer \<Rightarrow> CMessage_Packet list \<Rightarrow> map_http_parse \<Rightarrow>
   (bool \<times> CSessionBuffer \<times> CMessage_Packet list \<times> map_http_parse) option" where
  "http_parse_packet_from_recv_buffer parser mem connect_id buffer message_list m =
    (case m connect_id of
       None \<Rightarrow> Some (True, buffer, message_list, m)
     | Some protocal_info \<Rightarrow>
         if protocol protocal_info = PROTOCAL_HTTP_POST then
           (case dispose_http_message parser mem (mem_slice (read_ptr buffer) (get_write_size buffer) (sb_buffer buffer))
                   protocal_info message_list of
              None \<Rightarrow> None
            | Some (ret, protocal_info, message_list) \<Rightarrow>
                Some (ret, move_buffer (get_write_size buffer) buffer, message_list, m(connect_id \<mapsto> protocal_info)))
         else if protocol protocal_info = PROTOCAL_WEBSOCKET_DATA then
           (case dispose_websocket_data_message buffer protocal_info message_list of
              (ret, buffer, protocal_info, message_list) \<Rightarrow>
                Some (ret, buffer, message_list, m(connect_id \<mapsto> protocal_info)))
         else Some (True, buffer, message_list, m))"

text \<open>The formatted message, when the connection is known, and the new protocol state.\<close>

definition http_parse_packet_format_send_buffer ::
  "u32 \<Rightarrow> CMessage_Packet \<Rightarrow> CMessage_Packet \<Rightarrow> map_http_parse \<Rightarrow> bool \<times> CMessage_Packet \<times> map_http_parse" where
  "http_parse_packet_format_send_buffer connect_id message format_message m =
    (case m connect_id of
       None \<Rightarrow> (False, format_message, m)
     | Some f \<Rightarrow>
         let format_message = format_message \<lparr> msg_command_id := msg_command_id message \<rparr> in
         if protocol f = PROTOCAL_HTTP_POST
         then (True, format_message \<lparr> msg_buffer := get_response_text (msg_buffer message) \<rparr>, m)
         else if protocol f = PROTOCAL_WEBSOCKET_SHARK_HAND
         then (True, format_message \<lparr> msg_buffer := get_response_websocket_text (msg_buffer message) \<rparr>,
               m(connect_id \<mapsto> f \<lparr> protocol := PROTOCAL_WEBSOCKET_DATA \<rparr>))
         else (True, format_message \<lparr> msg_buffer := do_websocket_send_frame (msg_buffer message) \<rparr>, m))"

definition http_connect :: "u32 \<Rightarrow> map_http_parse \<Rightarrow> map_http_parse" where
  "http_connect connect_id m =
    (case m connect_id of
       None \<Rightarrow> m(connect_id \<mapsto> \<lparr> protocol = PROTOCAL_HTTP_POST, http_format = init_http_setting CHttpTextBuffer_default \<rparr>)
     | Some _ \<Rightarrow> m)"

definition http_disconnect :: "u32 \<Rightarrow> map_http_parse \<Rightarrow> map_http_parse" where
  "http_disconnect connect_id m = m(connect_id := None)"

text \<open>
  A session at work: each piece of the stream is received into the buffer and the
  parser runs on what the buffer holds.  The messages of all runs, in order.
\<close>

fun http_serve ::
  "(bytes \<Rightarrow> parser_run) \<Rightarrow> bytes \<Rightarrow> u32 \<Rightarrow> bytes list \<Rightarrow> CSessionBuffer \<Rightarrow> map_http_parse \<Rightarrow>
   (CMessage_Packet list \<times> CSessionBuffer \<times> map_http_parse) option" where
  "http_serve parser mem c [] sb m = Some ([], sb, m)"
| "http_serve parser mem c (piece # pieces) sb m =
    (case receive_into piece sb of
       Some (True, sb) \<Rightarrow>
         (case http_parse_packet_from_recv_buffer parser mem c sb [] m of
            Some (True, sb, messages, m) \<Rightarrow>
              (case http_serve parser mem c pieces sb m of
                 Some (later, sb, m) \<Rightarrow> Some (messages @ later, sb, m)
               | None \<Rightarrow> None)
          | _ \<Rightarrow> None)
     | _ \<Rightarrow> None)"

text \<open>The frames a client sends, for the specification.\<close>

record client_frame =
  cf_payload :: bytes
  cf_opcode :: WebSocketFrameType
  cf_fin :: bool
  cf_masking :: bool
  cf_masks :: bytes

definition frame_bytes :: "client_frame \<Rightarrow> bytes" where
  "frame_bytes cf = wsFrameBuild (cf_masks cf) (cf_payload cf) (cf_opcode cf) (cf_fin cf) (cf_masking cf)"

definition valid_frame :: "client_frame \<Rightarrow> bool" where
  "valid_frame cf \<longleftrightarrow> length (cf_payload cf) < 2 ^ 31 \<and> unat (cf_opcode cf) < 16 \<and> (cf_masking cf \<longrightarrow> length (cf_masks cf) = 4)"

definition whole_message :: "client_frame \<Rightarrow> bool" where
  "whole_message cf \<longleftrightarrow> cf_fin cf \<and> cf_opcode cf \<noteq> CONTINUATION_FRAME"

definition data_message :: "client_frame \<Rightarrow> CMessage_Packet" where
  "data_message cf = http_logic_packet websocket_data (cf_payload cf)"

definition extracted :: "client_frame \<Rightarrow> ws_frame" where
  "extracted cf = \<lparr> ws_payload = cf_payload cf, ws_opcode = cf_opcode cf, ws_size = length (frame_bytes cf), ws_fin = cf_fin cf \<rparr>"

text \<open>What the loop makes of a list of frames: the cache and the messages.\<close>

fun frame_messages :: "bytes \<Rightarrow> client_frame list \<Rightarrow> CMessage_Packet list" where
  "frame_messages cache [] = []"
| "frame_messages cache (cf # cfs) =
    (case websocket_frame (extracted cf) cache of
       (cache, None) \<Rightarrow> frame_messages cache cfs
     | (cache, Some d) \<Rightarrow> http_logic_packet websocket_data d # frame_messages cache cfs)"

text \<open>A buffer that holds nothing, or the beginning of the next frame.\<close>

definition frame_begun :: "bytes \<Rightarrow> client_frame list \<Rightarrow> bool" where
  "frame_begun r cfs \<longleftrightarrow> (if cfs = [] then r = [] else length r < length (frame_bytes (hd cfs)) \<and>
     take (length r) (frame_bytes (hd cfs)) = r)"

text \<open>A complete request as the HTTP parser sees it, and a connection that waits for one.\<close>

definition request_ok :: "(bytes \<Rightarrow> parser_run) \<Rightarrow> bytes \<Rightarrow> bytes \<Rightarrow> bool" where
  "request_ok parser text body \<longleftrightarrow>
     run_nparsed (parser text) = length text \<and> \<not> run_upgrade (parser text) \<and>
     run_body (run_events (parser text)) = body \<and> length body < 2 ^ 31 \<and>
     list_all (\<lambda>ev. \<not> upgrade_header ev) (run_events (parser text)) \<and>
     run_length (run_events (parser text)) \<le> int (length body)"

definition request_ready :: "CHttpTextBuffer \<Rightarrow> bool" where
  "request_ready h \<longleftrightarrow> upgrade_field h \<noteq> bytes_of_string ''websocket'' \<and>
     (is_completed h \<or> http_request_text h = [] \<and> http_post_text h = [] \<and> \<not> is_post_length h \<and>
        content_length h = 0 \<and> \<not> is_upgrade h)"

definition post_message :: "bytes \<Rightarrow> CMessage_Packet" where
  "post_message body = http_logic_packet http_post_command body"

text \<open>The callbacks for an upgrade request and for a POST request whose body has (partly) arrived.\<close>

definition upgrade_events :: "bytes \<Rightarrow> bytes \<Rightarrow> bytes \<Rightarrow> bytes \<Rightarrow> bytes \<Rightarrow> http_event list" where
  "upgrade_events url up v kf key =
     [On_message_begin, On_url url, On_header_field up, On_header_value v, On_header_field kf, On_header_value key,
      On_headers_complete, On_message_complete]"

definition post_events :: "bytes \<Rightarrow> bytes \<Rightarrow> bytes \<Rightarrow> bytes \<Rightarrow> http_event list" where
  "post_events url cl v body =
     [On_message_begin, On_url url, On_header_field cl, On_header_value v, On_headers_complete, On_body body]"


subsection \<open>The loop over the frames\<close>

lemma frame_extract:
  "valid_frame cf \<Longrightarrow> wsFrameExtractBuffer (frame_bytes cf @ rest) [] = Some (extracted cf)"
  using extract_append [OF extract_build [of "cf_payload cf" "cf_opcode cf" "cf_masking cf" "cf_masks cf" "cf_fin cf" "[]"], of rest]
  by (simp add: valid_frame_def extracted_def frame_bytes_def)

lemma frame_prefix:
  assumes "valid_frame cf" "frame_bytes cf = r @ s" "s \<noteq> []"
  shows "wsFrameExtractBuffer r [] = None"
proof (rule ccontr)
  assume "wsFrameExtractBuffer r [] \<noteq> None"
  then obtain f where f: "wsFrameExtractBuffer r [] = Some f" by blast
  from extract_append [OF this, of s] frame_extract [OF assms(1), of "[]"] assms(2)
  have "f = extracted cf" by simp
  with extract_bounds(2) [OF f] assms(2,3) show False by (simp add: extracted_def)
qed

lemma take_contents: "sb_inv sb \<Longrightarrow> take (length (contents sb)) (sb_buffer sb) = contents sb"
  by (simp add: contents_def sb_inv_def min_def)

lemma websocket_loop_frames:
  assumes "sb_inv sb" "contents sb = concat (map frame_bytes cfs) @ rest" "list_all valid_frame cfs"
    "wsFrameExtractBuffer rest [] = None" "protocol info = PROTOCAL_WEBSOCKET_DATA"
  shows "\<exists>sb'. websocket_loop (length (contents sb)) cache sb info ms = (sb', info, ms @ frame_messages cache cfs) \<and>
    sb_inv sb' \<and> contents sb' = rest \<and> sb_max_buff_size sb' = sb_max_buff_size sb"
  using assms
proof (induction cfs arbitrary: sb cache ms)
  case Nil
  hence "wsFrameExtractBuffer (take (length (contents sb)) (sb_buffer sb)) [] = None"
    unfolding take_contents [OF Nil(1)] by simp
  with Nil show ?case by (subst websocket_loop.simps) (simp del: length_contents)
next
  case (Cons cf cfs)
  let ?sb = "move_buffer (ws_size (extracted cf)) sb"
  have e: "wsFrameExtractBuffer (take (length (contents sb)) (sb_buffer sb)) [] = Some (extracted cf)"
    unfolding take_contents [OF Cons.prems(1)]
    using Cons.prems frame_extract [of cf "concat (map frame_bytes cfs) @ rest"] by simp
  have c: "contents ?sb = concat (map frame_bytes cfs) @ rest"
    using Cons.prems by (simp add: contents_move_buffer extracted_def)
  have l: "length (contents sb) - ws_size (extracted cf) = length (contents ?sb)"
    using Cons.prems(1) by (simp add: contents_move_buffer del: length_contents)
  have "length (contents sb) > 0" using extract_bounds [OF e] by (auto simp del: length_contents)
  moreover have "info \<lparr> protocol := PROTOCAL_WEBSOCKET_DATA \<rparr> = info" using Cons.prems(5) by simp
  ultimately have "websocket_loop (length (contents sb)) cache sb info ms =
     (case websocket_frame (extracted cf) cache of
        (cache, None) \<Rightarrow> websocket_loop (length (contents ?sb)) cache ?sb info ms
      | (cache, Some d) \<Rightarrow> websocket_loop (length (contents ?sb)) cache ?sb info (ms @ [http_logic_packet websocket_data d]))"
    by (subst websocket_loop.simps) (simp only: e l if_True option.case)
  moreover obtain cache' d where w: "websocket_frame (extracted cf) cache = (cache', d)" by force
  moreover have "list_all valid_frame cfs" using Cons.prems(3) by simp
  note IH = Cons.IH [OF move_buffer_inv [OF Cons.prems(1)] c this Cons.prems(4,5), where cache = cache']
  ultimately show ?case
    using IH [of ms] IH [of "ms @ [http_logic_packet websocket_data (the d)]"] by (cases d) simp_all
qed

lemma frame_messages_whole:
  "list_all whole_message cfs \<Longrightarrow> frame_messages cache cfs = map data_message cfs"
  by (induction cfs) (simp_all add: websocket_frame_def extracted_def whole_message_def data_message_def)

lemma websocket_parse_frames:
  assumes "sb_inv sb" "contents sb = concat (map frame_bytes cfs) @ rest" "list_all valid_frame cfs"
    "wsFrameExtractBuffer rest [] = None" "m c = Some info" "protocol info = PROTOCAL_WEBSOCKET_DATA"
  shows "\<exists>sb'. http_parse_packet_from_recv_buffer parser mem c sb ms m = Some (True, sb', ms @ frame_messages [] cfs, m) \<and>
    sb_inv sb' \<and> contents sb' = rest \<and> sb_max_buff_size sb' = sb_max_buff_size sb"
proof -
  have "m(c \<mapsto> info) = m" using assms(5) by (auto simp: fun_eq_iff)
  with websocket_loop_frames [OF assms(1-4,6), of "[]" ms] assms(1,5,6) show ?thesis
    by (auto simp: http_parse_packet_from_recv_buffer_def dispose_websocket_data_message_def get_write_size_def)
qed

text \<open>A part of a stream of pieces consists of whole pieces and an incomplete one.\<close>

lemma concat_prefix:
  "s @ t = concat ps \<Longrightarrow> [] \<notin> set ps \<Longrightarrow>
   \<exists>qs r rs. ps = qs @ rs \<and> s = concat qs @ r \<and> r @ t = concat rs \<and>
     (rs = [] \<and> r = [] \<or> (\<exists>u. rs \<noteq> [] \<and> hd rs = r @ u \<and> u \<noteq> []))"
proof (induction ps arbitrary: s)
  case Nil
  thus ?case by simp
next
  case (Cons p ps)
  show ?case
  proof (cases "length p \<le> length s")
    case True
    define s' where "s' = drop (length p) s"
    have "take (length p) (s @ t) = p" "drop (length p) (s @ t) = concat ps" by (simp_all add: Cons.prems(1))
    hence s: "s = p @ s'" "s' @ t = concat ps"
      using True append_take_drop_id [of "length p" s] by (simp_all add: s'_def)
    from Cons.IH [OF s(2)] Cons.prems(2) obtain qs r rs where
      "ps = qs @ rs" "s' = concat qs @ r" "r @ t = concat rs"
      "rs = [] \<and> r = [] \<or> (\<exists>u. rs \<noteq> [] \<and> hd rs = r @ u \<and> u \<noteq> [])" by auto
    hence "p # ps = (p # qs) @ rs \<and> s = concat (p # qs) @ r \<and> r @ t = concat rs \<and>
      (rs = [] \<and> r = [] \<or> (\<exists>u. rs \<noteq> [] \<and> hd rs = r @ u \<and> u \<noteq> []))" using s(1) by auto
    thus ?thesis by blast
  next
    case False
    define u where "u = drop (length s) p"
    have "take (length s) (s @ t) = s" by simp
    hence "take (length s) p = s" using False unfolding Cons.prems(1) by simp
    hence "p = s @ u" "u \<noteq> []" using False append_take_drop_id [of "length s" p] by (simp_all add: u_def)
    hence "p # ps = [] @ (p # ps) \<and> s = concat [] @ s \<and> s @ t = concat (p # ps) \<and>
       (p # ps \<noteq> [] \<and> hd (p # ps) = s @ u \<and> u \<noteq> [])" using Cons.prems(1) by simp
    thus ?thesis by blast
  qed
qed

lemma frame_bytes_nonempty: "frame_bytes cf \<noteq> []"
  by (simp add: frame_bytes_def wsFrameBuild_def Let_def)

lemma frame_begun_none:
  assumes "frame_begun r cfs" "list_all valid_frame cfs" shows "wsFrameExtractBuffer r [] = None"
proof (cases cfs)
  case Nil
  with assms(1) show ?thesis by (simp add: frame_begun_def wsFrameExtractBuffer_def)
next
  case (Cons cf _)
  let ?s = "drop (length r) (frame_bytes cf)"
  have "frame_bytes cf = r @ ?s" "?s \<noteq> []"
    using assms(1) Cons append_take_drop_id [of "length r" "frame_bytes cf"] by (auto simp: frame_begun_def)
  with frame_prefix [of cf r ?s] assms(2) Cons show ?thesis by simp
qed

lemma stream_cut:
  assumes "s @ t = concat (map frame_bytes cfs)"
  obtains done_frames rest r where "cfs = done_frames @ rest" "s = concat (map frame_bytes done_frames) @ r"
    "r @ t = concat (map frame_bytes rest)" "frame_begun r rest"
proof -
  have "[] \<notin> set (map frame_bytes cfs)" using frame_bytes_nonempty by (metis ex_map_conv)
  from concat_prefix [OF assms this] obtain qs r rs where q: "map frame_bytes cfs = qs @ rs" "s = concat qs @ r"
    "r @ t = concat rs" "rs = [] \<and> r = [] \<or> (\<exists>u. rs \<noteq> [] \<and> hd rs = r @ u \<and> u \<noteq> [])" by blast
  then obtain ds rest where "cfs = ds @ rest" "qs = map frame_bytes ds" "rs = map frame_bytes rest"
    by (auto simp: map_eq_append_conv)
  with q show thesis by (intro that [of ds rest r]) (auto simp: frame_begun_def hd_map)
qed

lemma serve_frames:
  assumes "m c = Some info" "protocol info = PROTOCAL_WEBSOCKET_DATA"
    "sb_inv sb" "contents sb @ concat pieces = concat (map frame_bytes cfs)" "frame_begun (contents sb) cfs"
    "list_all valid_frame cfs" "list_all whole_message cfs"
    "\<forall>cf \<in> set cfs. \<forall>p \<in> set pieces. length (frame_bytes cf) + length p \<le> sb_max_buff_size sb"
  shows "\<exists>sb'. http_serve parser mem c pieces sb m = Some (map data_message cfs, sb', m) \<and> contents sb' = []"
  using assms(3-)
proof (induction pieces arbitrary: sb cfs)
  case Nil
  have "cfs = []"
  proof (rule ccontr)
    assume "cfs \<noteq> []"
    with Nil show False by (cases cfs) (auto simp: frame_begun_def)
  qed
  with Nil show ?case by simp
next
  case (Cons p pieces)
  have "length p \<le> get_buffer_size sb"
  proof (cases cfs)
    case Nil with Cons.prems(2) show ?thesis by simp
  next
    case (Cons cf _)
    with Cons.prems(3,6) have "length (contents sb) + length p \<le> sb_max_buff_size sb"
      by (auto simp: frame_begun_def)
    with Cons.prems(1) show ?thesis by (simp add: get_buffer_size_def)
  qed
  then obtain sb1 where sb1: "receive_into p sb = Some (True, sb1)" "sb_inv sb1" "contents sb1 = contents sb @ p"
    "sb_max_buff_size sb1 = sb_max_buff_size sb" using receive_into_fits [OF Cons.prems(1)] by blast
  have "contents sb1 @ concat pieces = concat (map frame_bytes cfs)" using Cons.prems(2) sb1(3) by simp
  then obtain ds rest r where d: "cfs = ds @ rest" "contents sb1 = concat (map frame_bytes ds) @ r"
    "r @ concat pieces = concat (map frame_bytes rest)" "frame_begun r rest" by (rule stream_cut)
  have v: "list_all valid_frame ds" "list_all valid_frame rest" "list_all whole_message ds" "list_all whole_message rest"
    using Cons.prems(4,5) d(1) by simp_all
  obtain sb2 where sb2: "http_parse_packet_from_recv_buffer parser mem c sb1 [] m = Some (True, sb2, map data_message ds, m)"
    "sb_inv sb2" "contents sb2 = r" "sb_max_buff_size sb2 = sb_max_buff_size sb"
    using websocket_parse_frames [OF sb1(2) d(2) v(1) frame_begun_none [OF d(4) v(2)], of m c info parser mem "[]"]
      frame_messages_whole [OF v(3)] sb1(4) assms(1,2) by auto
  from Cons.IH [of sb2 rest] d sb2 v Cons.prems(6) show ?case by (auto simp: sb1 d(1))
qed


subsection \<open>HTTP requests\<close>

lemma try_parse_request:
  assumes "request_ready h" "request_ok parser text body"
  shows "\<exists>h'. try_parse parser text h = (0, h') \<and> get_post_text h' = body \<and> request_ready h' \<and> is_completed h'"
proof -
  define h0 where "h0 = (if is_completed h then clear_text_buffer h else h)"
  have h0: "http_request_text h0 = []" "http_post_text h0 = []" "\<not> is_post_length h0" "content_length h0 = 0"
    "\<not> is_upgrade h0" "upgrade_field h0 = upgrade_field h"
    using assms(1) by (auto simp: h0_def clear_text_buffer_def request_ready_def)
  let ?evs = "run_events (parser text)"
  let ?h1 = "fold http_settings ?evs (h0 \<lparr> http_request_text := text \<rparr>)"
  have ev: "\<forall>ev \<in> set ?evs. \<not> upgrade_header ev" using assms(2) by (auto simp: request_ok_def list_all_iff)
  have 1: "http_post_text ?h1 = body" using assms(2) h0 by (simp add: callbacks_body request_ok_def)
  have 2: "upgrade_field ?h1 = upgrade_field h" using callbacks_upgrade [OF ev] h0 by simp
  have 3: "content_length ?h1 = run_length ?evs"
    unfolding run_length_def by (rule callbacks_length) (simp_all add: h0 CHttpTextBuffer_default_def)
  have "to_int (length body) = int (length body)" using assms(2) by (intro to_int_small) (simp add: request_ok_def)
  hence "try_parse parser text h = (0, ?h1 \<lparr> is_completed := True \<rparr>)"
    using assms 1 2 3 h0
    by (simp add: try_parse_def Let_def flip: h0_def) (simp add: request_ok_def request_ready_def is_websocket_def)
  with 1 2 assms(1) show ?thesis by (simp add: get_post_text_def request_ready_def)
qed

lemma http_parse_step:
  assumes "m c = Some info" "protocol info = PROTOCAL_HTTP_POST" "sb_inv sb"
  shows "http_parse_packet_from_recv_buffer parser mem c sb ms m =
    (case dispose_http_message parser mem (contents sb) info ms of
       None \<Rightarrow> None
     | Some (ret, info, ms) \<Rightarrow> Some (ret, move_buffer (get_write_size sb) sb, ms, m(c \<mapsto> info)))"
  using assms
  by (simp add: http_parse_packet_from_recv_buffer_def mem_slice_def read_ptr_def get_write_size_def contents_def)

lemma receive_whole:
  assumes "sb_inv sb" "contents sb = []" "length text \<le> sb_max_buff_size sb"
  obtains sb' where "receive_into text sb = Some (True, sb')" "sb_inv sb'" "contents sb' = text"
    "sb_max_buff_size sb' = sb_max_buff_size sb"
proof -
  have "sb_write_size sb = 0" using assms(1,2) length_contents [OF assms(1)] by simp
  hence "length text \<le> get_buffer_size sb" using assms(3) by (simp add: get_buffer_size_def)
  from receive_into_fits [OF assms(1) this] assms(2) show thesis by (auto intro: that)
qed

lemma buffer_taken: "sb_inv sb \<Longrightarrow> contents (move_buffer (get_write_size sb) sb) = []"
  by (simp add: contents_move_buffer get_write_size_def)

lemma serve_requests:
  assumes "m c = Some info" "protocol info = PROTOCAL_HTTP_POST" "request_ready (http_format info)"
    "sb_inv sb" "contents sb = []" "\<forall>t \<in> set texts. length t \<le> sb_max_buff_size sb"
    "list_all2 (request_ok parser) texts bodies"
  shows "\<exists>sb' m'. http_serve parser mem c texts sb m = Some (map post_message bodies, sb', m') \<and> contents sb' = []"
  using assms
proof (induction texts arbitrary: m info sb bodies)
  case Nil
  thus ?case by simp
next
  case (Cons t texts)
  then obtain b bs where b: "bodies = b # bs" "request_ok parser t b" "list_all2 (request_ok parser) texts bs"
    by (auto simp: list_all2_Cons1)
  obtain sb1 where sb1: "receive_into t sb = Some (True, sb1)" "sb_inv sb1" "contents sb1 = t"
    "sb_max_buff_size sb1 = sb_max_buff_size sb"
    using receive_whole [of sb t] Cons.prems(4-6) by auto
  obtain h where h: "try_parse parser t (http_format info) = (0, h)" "get_post_text h = b" "request_ready h"
    using try_parse_request [OF Cons.prems(3) b(2)] by blast
  let ?info = "info \<lparr> http_format := h, protocol := PROTOCAL_HTTP_POST \<rparr>" and ?sb = "move_buffer (get_write_size sb1) sb1"
  have "http_parse_packet_from_recv_buffer parser mem c sb1 [] m = Some (True, ?sb, [post_message b], m(c \<mapsto> ?info))"
    using h Cons.prems(1,2) sb1(2,3) by (simp add: http_parse_step [of m c info sb1] dispose_http_message_def Let_def
      post_message_def request_ready_def is_websocket_def)
  moreover have "\<exists>sb' m'. http_serve parser mem c texts ?sb (m(c \<mapsto> ?info)) = Some (map post_message bs, sb', m') \<and> contents sb' = []"
    by (rule Cons.IH [where info = ?info]) (use h(3) sb1 buffer_taken Cons.prems(6) b(3) in simp_all)
  ultimately show ?case using sb1(1) b(1) by auto
qed

lemma connected_ready:
  assumes "m c = None"
  shows "\<exists>info. http_connect c m c = Some info \<and> protocol info = PROTOCAL_HTTP_POST \<and> request_ready (http_format info) \<and>
    http_format info = CHttpTextBuffer_default"
  using assms by (simp add: http_connect_def init_http_setting_def clear_text_buffer_def CHttpTextBuffer_default_def
    request_ready_def bytes_of_string_def)


subsection \<open>Upgrades and split bodies\<close>

lemma header_names_distinct:
  "bytes_of_string ''upgrade'' \<noteq> bytes_of_string ''content-length''"
  "bytes_of_string ''upgrade'' \<noteq> bytes_of_string ''sec-websocket-key''"
  "bytes_of_string ''sec-websocket-key'' \<noteq> bytes_of_string ''content-length''"
  "bytes_of_string ''websocket'' \<noteq> []"
  by (simp_all add: bytes_of_string_def byte_of_char_def)

lemmas header_simps = header_names_distinct header_names_distinct [symmetric]

lemma upgrade_events_run:
  assumes "map tolower up = bytes_of_string ''upgrade''" "map tolower v = bytes_of_string ''websocket''"
    "map tolower kf = bytes_of_string ''sec-websocket-key''" "upgrade_field h = []" "websocket_key h = []"
    "\<not> is_upgrade h" "\<not> is_websocket_key h"
  shows "is_websocket (fold http_settings (upgrade_events url up v kf key) h) \<and>
    get_websocket_client_key (fold http_settings (upgrade_events url up v kf key) h) = key"
  using assms by (simp add: upgrade_events_def callback_defs is_websocket_def get_websocket_client_key_def Let_def header_simps)

lemma post_events_run:
  assumes "map tolower cl = bytes_of_string ''content-length''" "\<not> is_upgrade h"
  shows "http_post_text (fold http_settings (post_events url cl v body) h) = http_post_text h @ body \<and>
    content_length (fold http_settings (post_events url cl v body) h) = atoi v \<and>
    upgrade_field (fold http_settings (post_events url cl v body) h) = upgrade_field h \<and>
    \<not> is_upgrade (fold http_settings (post_events url cl v body) h) \<and>
    is_completed (fold http_settings (post_events url cl v body) h) = is_completed h"
  using assms by (simp add: post_events_def callback_defs Let_def header_simps)

lemma default_fields: "\<not> is_completed CHttpTextBuffer_default" "http_request_text CHttpTextBuffer_default = []"
  by (simp_all add: CHttpTextBuffer_default_def)

lemma split_post:
  assumes "map tolower cl = bytes_of_string ''content-length''" "atoi v = int (length (b1 @ b2))" "b2 \<noteq> []"
    "length (b1 @ b1 @ b2) < 2 ^ 31"
    "parser t1 = \<lparr> run_events = post_events url cl v b1, run_nparsed = length t1, run_upgrade = False \<rparr>"
    "parser (t1 @ t2) = \<lparr> run_events = post_events url cl v (b1 @ b2) @ [On_message_complete],
       run_nparsed = length (t1 @ t2), run_upgrade = False \<rparr>"
  shows "\<exists>h1 h2. try_parse parser t1 CHttpTextBuffer_default = (1, h1) \<and> try_parse parser t2 h1 = (0, h2) \<and>
    get_post_text h2 = b1 @ b1 @ b2 \<and> \<not> is_websocket h2"
proof -
  define h where "h = CHttpTextBuffer_default \<lparr> http_request_text := t1 \<rparr>"
  define h1 where "h1 = fold http_settings (post_events url cl v b1) h"
  have 0: "\<not> is_upgrade h" "http_post_text h = []" "upgrade_field h = []" "\<not> is_completed h" "http_request_text h = t1"
    by (simp_all add: h_def CHttpTextBuffer_default_def)
  have 1: "http_post_text h1 = b1" "content_length h1 = int (length (b1 @ b2))" "upgrade_field h1 = []"
    "\<not> is_upgrade h1" "\<not> is_completed h1" "http_request_text h1 = t1"
    using post_events_run [OF assms(1) 0(1), of url v b1] 0 assms(2) by (simp_all add: h1_def)
  have i: "to_int (length b1) = int (length b1)" "to_int (length (b1 @ b1 @ b2)) = int (length (b1 @ b1 @ b2))"
    by (rule to_int_small, use assms(4) in simp)+
  have pos: "0 < int (length b1) + int (length b2)" using assms(3) by (cases b2) simp_all
  have "try_parse parser t1 CHttpTextBuffer_default = (1, h1)"
    using 0(5) 1 i(1) assms(3,5) unfolding try_parse_def Let_def
    by (simp add: default_fields is_websocket_def header_names_distinct(4) [symmetric] pos flip: h_def h1_def)
  moreover define h2 where "h2 = fold http_settings (post_events url cl v (b1 @ b2)) (h1 \<lparr> http_request_text := t1 @ t2 \<rparr>)"
  have 2: "http_post_text h2 = b1 @ b1 @ b2" "content_length h2 = int (length (b1 @ b2))" "upgrade_field h2 = []"
    "http_request_text h2 = t1 @ t2"
    using post_events_run [OF assms(1), of "h1 \<lparr> http_request_text := t1 @ t2 \<rparr>" url v "b1 @ b2"] 1 assms(2)
    by (simp_all add: h2_def)
  have "try_parse parser t2 h1 = (0, (sMessageEnd h2) \<lparr> is_completed := True \<rparr>)"
    using 1 2 i(2) assms(6) unfolding try_parse_def Let_def
    by (simp flip: h2_def) (simp add: sMessageEnd_def is_websocket_def header_simps)
  ultimately show ?thesis using 2 by (simp add: get_post_text_def sMessageEnd_def is_websocket_def header_simps)
qed

lemma two_pieces:
  assumes "m c = Some info" "protocol info = PROTOCAL_HTTP_POST" "sb_inv sb" "contents sb = []"
    "length t1 \<le> sb_max_buff_size sb" "length t2 \<le> sb_max_buff_size sb"
    "try_parse parser t1 (http_format info) = (1, h1)" "try_parse parser t2 h1 = (0, h2)" "\<not> is_websocket h2"
  shows "\<exists>sb' m'. http_serve parser mem c [t1, t2] sb m = Some ([post_message (get_post_text h2)], sb', m')"
proof -
  obtain sb1 where sb1: "receive_into t1 sb = Some (True, sb1)" "sb_inv sb1" "contents sb1 = t1"
    "sb_max_buff_size sb1 = sb_max_buff_size sb" using receive_whole [OF assms(3,4,5)] by blast
  let ?sb = "move_buffer (get_write_size sb1) sb1"
  have "length t2 \<le> sb_max_buff_size ?sb" using assms(6) sb1(4) by simp
  then obtain sb2 where sb2: "receive_into t2 ?sb = Some (True, sb2)" "sb_inv sb2" "contents sb2 = t2"
    using receive_whole [OF move_buffer_inv [OF sb1(2)] buffer_taken [OF sb1(2)]] by blast
  let ?info = "info \<lparr> http_format := h1 \<rparr>"
  have "http_parse_packet_from_recv_buffer parser mem c sb1 [] m = Some (True, ?sb, [], m(c \<mapsto> ?info))"
    using assms(1,2,7) sb1 by (simp add: http_parse_step [of m c info sb1] dispose_http_message_def)
  moreover have "http_parse_packet_from_recv_buffer parser mem c sb2 [] (m(c \<mapsto> ?info)) =
      Some (True, move_buffer (get_write_size sb2) sb2, [post_message (get_post_text h2)],
        m(c \<mapsto> ?info \<lparr> http_format := h2, protocol := PROTOCAL_HTTP_POST \<rparr>))"
    using assms(2,8,9) sb2 by (simp add: http_parse_step [of _ c ?info sb2] dispose_http_message_def post_message_def)
  ultimately show ?thesis by (simp add: sb1(1) sb2(1))
qed


subsection \<open>Properties\<close>

text \<open>
  C18.  Websocket frames reach the logic whatever way the stream is cut: for every
  sequence of unfragmented frames, masked or not, and every division of their bytes
  into received pieces that fit the buffer, the parser hands over the payloads, each
  as one message and in order, and the buffer is empty afterwards.
\<close>

theorem websocket_stream_delivered:
  assumes "m c = Some info" "protocol info = PROTOCAL_WEBSOCKET_DATA" "sb_inv sb" "contents sb = []"
    "list_all valid_frame cfs" "list_all whole_message cfs" "concat pieces = concat (map frame_bytes cfs)"
    "\<forall>cf \<in> set cfs. \<forall>p \<in> set pieces. length (frame_bytes cf) + length p \<le> sb_max_buff_size sb"
  shows "\<exists>sb'. http_serve parser mem c pieces sb m = Some (map data_message cfs, sb', m) \<and> contents sb' = []"
  by (rule serve_frames) (use assms frame_bytes_nonempty in \<open>simp_all add: frame_begun_def\<close>)

theorem websocket_stream_delivered_witness:
  "\<exists>sb'. http_serve (\<lambda>t. \<lparr> run_events = [], run_nparsed = 0, run_upgrade = False \<rparr>) [] 7 [[0x81], [0x01, 65, 0x82, 0x80, 1, 2], [3, 4]]
     (Init (replicate 64 0)) [7 \<mapsto> \<lparr> protocol = PROTOCAL_WEBSOCKET_DATA, http_format = CHttpTextBuffer_default \<rparr>] =
     Some ([http_logic_packet websocket_data [65], http_logic_packet websocket_data []], sb',
       [7 \<mapsto> \<lparr> protocol = PROTOCAL_WEBSOCKET_DATA, http_format = CHttpTextBuffer_default \<rparr>]) \<and> contents sb' = []"
  using websocket_stream_delivered [of "[7 \<mapsto> \<lparr> protocol = PROTOCAL_WEBSOCKET_DATA, http_format = CHttpTextBuffer_default \<rparr>]" 7
      "\<lparr> protocol = PROTOCAL_WEBSOCKET_DATA, http_format = CHttpTextBuffer_default \<rparr>" "Init (replicate 64 0)"
      "[\<lparr> cf_payload = [65], cf_opcode = TEXT_FRAME, cf_fin = True, cf_masking = False, cf_masks = [] \<rparr>,
        \<lparr> cf_payload = [], cf_opcode = BINARY_FRAME, cf_fin = True, cf_masking = True, cf_masks = [1, 2, 3, 4] \<rparr>]"
      "[[0x81], [0x01, 65, 0x82, 0x80, 1, 2], [3, 4]]" "\<lambda>t. \<lparr> run_events = [], run_nparsed = 0, run_upgrade = False \<rparr>" "[]"]
  by (simp add: valid_frame_def whole_message_def frame_bytes_def wsFrameBuild_def ws_length_def apply_mask_def TEXT_FRAME_def
    BINARY_FRAME_def CONTINUATION_FRAME_def data_message_def Init_def sb_inv_def contents_def del: http_serve.simps)



text \<open>
  HTTP requests on one connection: every request that arrives in one piece is handed
  over with exactly its own body, also after earlier requests on the same connection.
\<close>

theorem http_requests_delivered:
  assumes "m c = None" "sb_inv sb" "contents sb = []" "list_all2 (request_ok parser) texts bodies"
    "\<forall>t \<in> set texts. length t \<le> sb_max_buff_size sb"
  shows "\<exists>sb' m'. http_serve parser mem c texts sb (http_connect c m) = Some (map post_message bodies, sb', m') \<and>
    contents sb' = []"
  using connected_ready [of m c, OF assms(1)] serve_requests [OF _ _ _ assms(2,3,5,4)] by blast

theorem http_requests_delivered_witness:
  "\<exists>sb' m'. http_serve (\<lambda>t. \<lparr> run_events = [On_message_begin, On_body t, On_message_complete], run_nparsed = length t, run_upgrade = False \<rparr>)
      [] 7 [[65], [66, 67]] (Init [0, 0]) (http_connect 7 Map.empty) = Some ([post_message [65], post_message [66, 67]], sb', m') \<and>
    contents sb' = []"
  using http_requests_delivered [of Map.empty 7 "Init [0, 0]"
      "\<lambda>t. \<lparr> run_events = [On_message_begin, On_body t, On_message_complete], run_nparsed = length t, run_upgrade = False \<rparr>"
      "[[65], [66, 67]]" "[[65], [66, 67]]" "[]"]
  by (simp add: request_ok_def run_body_def run_length_def upgrade_header_def callback_defs CHttpTextBuffer_default_def
    Init_def sb_inv_def contents_def del: http_serve.simps)

text \<open>
  A POST request whose body arrives in two pieces is handed over with the wrong
  body: the second call parses the whole text again and appends the body to the part
  that the first call had collected, so the first part is there twice.
\<close>

theorem split_body_duplicated:
  assumes "m c = None" "sb_inv sb" "contents sb = []"
    "length t1 \<le> sb_max_buff_size sb" "length t2 \<le> sb_max_buff_size sb"
    "map tolower cl = bytes_of_string ''content-length''" "atoi v = int (length (b1 @ b2))" "b2 \<noteq> []"
    "length (b1 @ b1 @ b2) < 2 ^ 31"
    "parser t1 = \<lparr> run_events = post_events url cl v b1, run_nparsed = length t1, run_upgrade = False \<rparr>"
    "parser (t1 @ t2) = \<lparr> run_events = post_events url cl v (b1 @ b2) @ [On_message_complete],
       run_nparsed = length (t1 @ t2), run_upgrade = False \<rparr>"
  shows "\<exists>sb' m'. http_serve parser mem c [t1, t2] sb (http_connect c m) = Some ([post_message (b1 @ b1 @ b2)], sb', m')"
proof -
  obtain info where info: "http_connect c m c = Some info" "protocol info = PROTOCAL_HTTP_POST"
    "http_format info = CHttpTextBuffer_default" using connected_ready [of m c, OF assms(1)] by blast
  obtain h1 h2 where "try_parse parser t1 (http_format info) = (1, h1)" "try_parse parser t2 h1 = (0, h2)"
    "get_post_text h2 = b1 @ b1 @ b2" "\<not> is_websocket h2"
    using split_post [OF assms(6-11)] info(3) by auto
  with two_pieces [of "http_connect c m" c info sb t1 t2 parser h1 h2 mem] info(1,2) assms(2-5)
  show ?thesis by (simp del: http_serve.simps)
qed

theorem split_body_duplicated_witness:
  "\<exists>sb' m'. http_serve (\<lambda>t. if t = [1] then \<lparr> run_events = post_events [47] (bytes_of_string ''content-length'') [50] [65],
         run_nparsed = 1, run_upgrade = False \<rparr>
       else \<lparr> run_events = post_events [47] (bytes_of_string ''content-length'') [50] [65, 66] @ [On_message_complete],
         run_nparsed = 2, run_upgrade = False \<rparr>)
     [] 7 [[1], [2]] (Init [0, 0]) (http_connect 7 Map.empty) = Some ([post_message [65, 65, 66]], sb', m')"
proof -
  have "map tolower (bytes_of_string ''content-length'') = bytes_of_string ''content-length''" "atoi [50] = 2" by code_simp+
  thus ?thesis
    using split_body_duplicated [of Map.empty 7 "Init [0, 0]" "[1]" "[2]" "bytes_of_string ''content-length''" "[50]" "[65]" "[66]"
        "\<lambda>t. if t = [1] then \<lparr> run_events = post_events [47] (bytes_of_string ''content-length'') [50] [65],
         run_nparsed = 1, run_upgrade = False \<rparr>
       else \<lparr> run_events = post_events [47] (bytes_of_string ''content-length'') [50] [65, 66] @ [On_message_complete],
         run_nparsed = 2, run_upgrade = False \<rparr>" "[47]" "[]"]
    by (simp add: Init_def sb_inv_def contents_def del: http_serve.simps)
qed

text \<open>
  A websocket message of two frames loses its first fragment: the cache the first
  frame is put into is emptied in the same round.
\<close>

theorem first_fragment_lost:
  assumes "sb_inv sb" "contents sb = frame_bytes f1 @ frame_bytes f2" "m c = Some info"
    "protocol info = PROTOCAL_WEBSOCKET_DATA" "valid_frame f1" "valid_frame f2"
    "\<not> cf_fin f1" "cf_opcode f1 = TEXT_FRAME" "cf_fin f2" "cf_opcode f2 = CONTINUATION_FRAME"
  shows "\<exists>sb'. http_parse_packet_from_recv_buffer parser mem c sb [] m = Some (True, sb', [data_message f2], m)"
proof -
  have "frame_messages [] [f1, f2] = [data_message f2]"
    using assms(7-10) by (simp add: websocket_frame_def extracted_def data_message_def Let_def CONTINUATION_FRAME_def TEXT_FRAME_def)
  thus ?thesis using assms websocket_parse_frames [of sb "[f1, f2]" "[]" m c info parser mem "[]"]
    by (auto simp: wsFrameExtractBuffer_def simp del: frame_messages.simps)
qed

theorem first_fragment_lost_witness:
  "\<exists>sb'. http_parse_packet_from_recv_buffer (\<lambda>t. \<lparr> run_events = [], run_nparsed = 0, run_upgrade = False \<rparr>) [] 7
     \<lparr> sb_buffer = [0x01, 0x01, 65, 0x80, 0x01, 66], sb_write_size = 6, sb_max_buff_size = 6 \<rparr> []
     [7 \<mapsto> \<lparr> protocol = PROTOCAL_WEBSOCKET_DATA, http_format = CHttpTextBuffer_default \<rparr>] =
     Some (True, sb', [http_logic_packet websocket_data [66]],
       [7 \<mapsto> \<lparr> protocol = PROTOCAL_WEBSOCKET_DATA, http_format = CHttpTextBuffer_default \<rparr>])"
  using first_fragment_lost [of "\<lparr> sb_buffer = [0x01, 0x01, 65, 0x80, 0x01, 66], sb_write_size = 6, sb_max_buff_size = 6 \<rparr>"
      "\<lparr> cf_payload = [65], cf_opcode = TEXT_FRAME, cf_fin = False, cf_masking = False, cf_masks = [] \<rparr>"
      "\<lparr> cf_payload = [66], cf_opcode = CONTINUATION_FRAME, cf_fin = True, cf_masking = False, cf_masks = [] \<rparr>"
      "[7 \<mapsto> \<lparr> protocol = PROTOCAL_WEBSOCKET_DATA, http_format = CHttpTextBuffer_default \<rparr>]" 7
      "\<lparr> protocol = PROTOCAL_WEBSOCKET_DATA, http_format = CHttpTextBuffer_default \<rparr>"
      "\<lambda>t. \<lparr> run_events = [], run_nparsed = 0, run_upgrade = False \<rparr>" "[]"]
  by (simp add: valid_frame_def frame_bytes_def wsFrameBuild_def ws_length_def TEXT_FRAME_def
    CONTINUATION_FRAME_def data_message_def sb_inv_def contents_def)

end
