(* ===== verification/Session_Common.thy ===== *)
theory Session_Common
  imports Work_Thread_Safety
begin

text \<open>
  What the sessions of all protocols share: the counter that numbers connections,
  the functions a packet parser exports, as a record over the parser's own state
  \<open>'p\<close>, and facts about received data and the dispatcher calls of a session.
\<close>


section \<open>Common parts of the sessions (Common/ConnectCounter, Message/LoadPacketParse.h)\<close>


subsection \<open>Definitions\<close>

definition CreateCounter :: "u32 \<Rightarrow> u32 \<times> u32" where
  "CreateCounter count_index = (let count_index = count_index + 1 in (count_index, count_index))"

record 'p packet_parse =
  pk_connect :: "u32 \<Rightarrow> ClientIPInfo \<Rightarrow> ClientIPInfo \<Rightarrow> EM_CONNECT_IO_TYPE \<Rightarrow> 'p \<Rightarrow> 'p"
  pk_disconnect :: "u32 \<Rightarrow> EM_CONNECT_IO_TYPE \<Rightarrow> 'p \<Rightarrow> 'p"
  pk_from_recv_buffer :: "u32 \<Rightarrow> CSessionBuffer \<Rightarrow> EM_CONNECT_IO_TYPE \<Rightarrow> 'p \<Rightarrow>
    (bool \<times> CSessionBuffer \<times> CMessage_Packet list \<times> 'p) option"
  pk_format_send_buffer :: "u32 \<Rightarrow> CMessage_Packet \<Rightarrow> EM_CONNECT_IO_TYPE \<Rightarrow> 'p \<Rightarrow> CMessage_Packet option"
  pk_is_need_send_format :: bool

definition remove_nth :: "nat \<Rightarrow> 'a list \<Rightarrow> 'a list" where
  "remove_nth i xs = take i xs @ drop (Suc i) xs"

text \<open>The parsers that are defined on every well-formed buffer and keep it well-formed.\<close>

definition parser_ok :: "'p packet_parse \<Rightarrow> bool" where
  "parser_ok pk \<longleftrightarrow> (\<forall>c sb ty p. sb_inv sb \<longrightarrow> (\<exists>ret sb' ms p'. pk_from_recv_buffer pk c sb ty p = Some (ret, sb', ms, p') \<and>
     sb_inv sb' \<and> sb_max_buff_size sb' = sb_max_buff_size sb))"

text \<open>A parser that makes one message of whatever was received, as an example.\<close>

definition one_message_parser :: "unit packet_parse" where
  "one_message_parser = \<lparr> pk_connect = (\<lambda>c r l ty p. p), pk_disconnect = (\<lambda>c ty p. p),
     pk_from_recv_buffer = (\<lambda>c sb ty p. Some (True, move_buffer (get_write_size sb) sb,
       [new_packet \<lparr> msg_buffer := contents sb \<rparr>], p)),
     pk_format_send_buffer = (\<lambda>c m ty p. None), pk_is_need_send_format = False \<rparr>"


subsection \<open>Calls into the dispatcher and received data\<close>

lemmas dispatcher_safe = safe_close_session safe_assignation safe_disconnect safe_connect

lemma safe_bridge:
  assumes "wt_safe w" "len \<le> length (sb_buffer sb)"
  shows "\<exists>ret w'. do_io_bridge_data S c peer sb len self w = Some (ret, move_buffer len sb, w') \<and> wt_safe w'"
proof -
  let ?p = "new_packet \<lparr> msg_buffer := take len (sb_buffer sb), msg_command_id := LOGIC_IOTOIO_DATA_ERROR \<rparr>"
  obtain w' where w': "assignation_thread_module_logic S c [?p] self w = Some w'" "wt_safe w'"
    by (rule ends_safeE [OF safe_assignation(1) [OF assms(1), of S c "[?p]" self]])
  obtain i where i: "thread_index peer w = Some i" "i < length (thread_module_list w)"
    by (rule wt_safe_index [OF assms(1)])
  show ?thesis using assms w' i
    by (auto simp: do_io_bridge_data_def send_io_bridge_message_fail_def send_io_bridge_message_def Let_def
        thread_logic_def read_ptr_def mem_slice_def split: option.split)
qed

lemma recv_commit:
  assumes "sb_inv sb" "length data \<le> get_buffer_size sb"
  obtains sb' where "write_memory (get_curr_write_ptr sb) data sb = Some sb'" "sb_inv (snd (set_write_data (length data) sb'))"
    "contents (snd (set_write_data (length data) sb')) = contents sb @ data"
    "sb_max_buff_size (snd (set_write_data (length data) sb')) = sb_max_buff_size sb"
    "length data \<le> length (sb_buffer (snd (set_write_data (length data) sb')))"
proof -
  obtain sb2 where r: "receive_into data sb = Some (True, sb2)" "sb_inv sb2" "contents sb2 = contents sb @ data"
    "sb_max_buff_size sb2 = sb_max_buff_size sb" using receive_into_fits [OF assms] by blast
  from r(1) obtain sb1 where "write_memory (get_curr_write_ptr sb) data sb = Some sb1" "set_write_data (length data) sb1 = (True, sb2)"
    by (auto simp: receive_into_def split: option.splits)
  moreover have "length data \<le> length (sb_buffer sb2)" using r(2,4) assms(2) by (simp add: sb_inv_def get_buffer_size_def)
  ultimately show thesis using r by (intro that [of sb1]) simp_all
qed

lemma remove_nth_sum: "i < length xs \<Longrightarrow> sum_list (map f xs) = f (xs ! i) + sum_list (map f (remove_nth i xs))" for f :: "'a \<Rightarrow> nat"
proof -
  assume "i < length xs"
  hence "xs = take i xs @ xs ! i # drop (Suc i) xs" by (simp add: id_take_nth_drop [symmetric])
  hence "map f xs = map f (take i xs) @ f (xs ! i) # map f (drop (Suc i) xs)" by (metis list.simps(9) map_append)
  thus ?thesis by (simp add: remove_nth_def)
qed

lemma set_remove_nth: "i < length xs \<Longrightarrow> set xs = insert (xs ! i) (set (remove_nth i xs))"
proof -
  assume "i < length xs"
  hence "xs = take i xs @ xs ! i # drop (Suc i) xs" by (simp add: id_take_nth_drop [symmetric])
  hence "set xs = set (take i xs @ xs ! i # drop (Suc i) xs)" by (rule arg_cong)
  thus ?thesis by (auto simp: remove_nth_def)
qed

lemma one_message_parser_ok: "parser_ok one_message_parser"
  by (auto simp: parser_ok_def one_message_parser_def)

end
