(* ===== verification/Tcp_Session.thy ===== *)
theory Tcp_Session
  imports Session_Common
begin

text \<open>
  A TCP connection: the session object, the asynchronous operations it has started
  and its calls into the packet parser and the dispatcher.

  The socket and \<open>io_context\<close> belong to asio.  What the session has started there is
  part of the state: the size of the outstanding read (\<open>ts_reading\<close>), the writes in
  progress (\<open>ts_writes\<close>) and the functions given to \<open>dispatch\<close> that have not run
  (\<open>ts_lambdas\<close>).  \<open>tcp_step\<close> lets asio complete them in any order, with or without
  an error, between calls from other threads.  \<open>None\<close> is undefined behaviour: a write
  outside the receive buffer, or what the parser or the dispatcher leaves undefined.
\<close>


section \<open>TCP sessions (TcpSession/TcpSession)\<close>


subsection \<open>Definitions\<close>

datatype tcp_lambda = L_Close EM_CONNECT_IO_TYPE ClientIPInfo | L_Write bytes

record CTcpSession =
  ts_connect_id :: u32
  ts_io_bridge_connect_id :: u32
  ts_recv_buffer :: CSessionBuffer
  ts_send_buffer :: bytes
  ts_io_send_count :: u32
  ts_recv_data_size :: u64
  ts_send_data_size :: u64
  ts_send_buffer_size :: u64
  ts_is_active_close :: bool
  ts_remote_ip :: ClientIPInfo
  ts_local_ip :: ClientIPInfo
  ts_recv_time :: int
  ts_io_type :: EM_CONNECT_IO_TYPE
  ts_io_state :: EM_SESSION_STATE
  ts_open :: bool
  ts_reading :: "nat option"
  ts_writes :: "bytes list"
  ts_lambdas :: "tcp_lambda list"

record ('s, 'p) tcp_world =
  tw_session :: CTcpSession
  tw_parser :: 'p
  tw_logic :: "'s CWorkThreadLogic"

text \<open>The session of an accepted socket; the receive buffer is allocated in \<open>open\<close>.\<close>

definition CTcpSession_ctor :: CTcpSession where
  "CTcpSession_ctor = \<lparr> ts_connect_id = 0, ts_io_bridge_connect_id = 0, ts_recv_buffer = Init [], ts_send_buffer = [],
     ts_io_send_count = 0, ts_recv_data_size = 0, ts_send_data_size = 0, ts_send_buffer_size = 0,
     ts_is_active_close = False, ts_remote_ip = ClientIPInfo_default, ts_local_ip = ClientIPInfo_default, ts_recv_time = 0,
     ts_io_type = CONNECT_IO_TCP, ts_io_state = SESSION_IO_LOGIC, ts_open = True, ts_reading = None, ts_writes = [],
     ts_lambdas = [] \<rparr>"

definition tcp_do_read :: "'s \<Rightarrow> ('s, 'p) tcp_world \<Rightarrow> ('s, 'p) tcp_world option" where
  "tcp_do_read self W =
    (let t = tw_session W in do {
       w \<leftarrow> (if get_buffer_size (ts_recv_buffer t) = 0
             then close_session_event (ts_connect_id t) (Some self) (tw_logic W) else Some (tw_logic W));
       Some (W \<lparr> tw_logic := w, tw_session := t \<lparr> ts_reading := Some (get_buffer_size (ts_recv_buffer t)) \<rparr> \<rparr>) })"

text \<open>\<open>open\<close>, with the counter value, the allocated memory, the time and the end points of the socket.\<close>

definition tcp_open ::
  "'s session_ops \<Rightarrow> 'p packet_parse option \<Rightarrow> 's \<Rightarrow> u32 \<Rightarrow> bytes \<Rightarrow> int \<Rightarrow> ClientIPInfo \<Rightarrow> ClientIPInfo \<Rightarrow>
   ('s, 'p) tcp_world \<Rightarrow> (u32 \<times> ('s, 'p) tcp_world) option" where
  "tcp_open S P self count_index mem now remote loc W = do {
     let (c, count_index) = CreateCounter count_index;
     pk \<leftarrow> P;
     let t = (tw_session W) \<lparr> ts_connect_id := c, ts_recv_buffer := Init mem, ts_recv_time := now,
       ts_remote_ip := remote, ts_local_ip := loc \<rparr>;
     let p = pk_connect pk c remote loc (ts_io_type t) (tw_parser W);
     w \<leftarrow> add_thread_session S c self loc remote (tw_logic W);
     W' \<leftarrow> tcp_do_read self (W \<lparr> tw_session := t, tw_parser := p, tw_logic := w \<rparr>);
     Some (count_index, W') }"

definition tcp_close_immediaterly :: "CTcpSession \<Rightarrow> CTcpSession" where
  "tcp_close_immediaterly t =
    (if \<not> ts_open t then t
     else t \<lparr> ts_lambdas := ts_lambdas t @ [L_Close (ts_io_type t) (ts_remote_ip t)] \<rparr>)"

definition tcp_send_write_fail_to_logic ::
  "'s \<Rightarrow> bytes \<Rightarrow> nat \<Rightarrow> ('s, 'p) tcp_world \<Rightarrow> ('s, 'p) tcp_world option" where
  "tcp_send_write_fail_to_logic self write_fail_buffer buffer_length W = do {
     w \<leftarrow> assignation_thread_module_logic_with_events (ts_connect_id (tw_session W))
            [new_packet \<lparr> msg_command_id := LOGIC_THREAD_WRITE_IO_ERROR,
               msg_buffer := take buffer_length write_fail_buffer \<rparr>] self (tw_logic W);
     Some (W \<lparr> tw_logic := w \<rparr>) }"

definition tcp_clear_write_buffer :: "CTcpSession \<Rightarrow> CTcpSession" where
  "tcp_clear_write_buffer t = t \<lparr> ts_send_buffer := [] \<rparr>"

definition tcp_do_write :: "'s \<Rightarrow> ('s, 'p) tcp_world \<Rightarrow> ('s, 'p) tcp_world option" where
  "tcp_do_write self W =
    (let t = tw_session W in
     if ts_send_buffer t = [] then Some W
     else
       let data = ts_send_buffer t;
           t = tcp_clear_write_buffer (t \<lparr> ts_send_buffer_size := ts_send_buffer_size t + of_nat (length data) \<rparr>) in
       if ts_is_active_close t
       then tcp_send_write_fail_to_logic self data (length data) (W \<lparr> tw_session := t \<rparr>)
       else Some (W \<lparr> tw_session := t \<lparr> ts_lambdas := ts_lambdas t @ [L_Write data] \<rparr> \<rparr>))"

definition tcp_close :: "'s \<Rightarrow> ('s, 'p) tcp_world \<Rightarrow> ('s, 'p) tcp_world option" where
  "tcp_close self W =
    (if ts_send_buffer_size (tw_session W) = ts_send_data_size (tw_session W)
     then Some (W \<lparr> tw_session := tcp_close_immediaterly (tw_session W) \<rparr>)
     else do {
       W \<leftarrow> tcp_do_write self W;
       Some (W \<lparr> tw_session := (tw_session W) \<lparr> ts_is_active_close := True \<rparr> \<rparr>) })"

definition tcp_set_write_buffer :: "bytes \<Rightarrow> CTcpSession \<Rightarrow> CTcpSession" where
  "tcp_set_write_buffer data t = t \<lparr> ts_send_buffer := ts_send_buffer t @ data \<rparr>"

definition tcp_do_write_immediately :: "'s \<Rightarrow> bytes \<Rightarrow> ('s, 'p) tcp_world \<Rightarrow> ('s, 'p) tcp_world option" where
  "tcp_do_write_immediately self data W =
     tcp_do_write self (W \<lparr> tw_session := tcp_set_write_buffer data (tw_session W) \<rparr>)"

definition tcp_add_send_finish_size :: "nat \<Rightarrow> CTcpSession \<Rightarrow> CTcpSession" where
  "tcp_add_send_finish_size send_length t =
     t \<lparr> ts_send_data_size := ts_send_data_size t + of_nat send_length, ts_io_send_count := ts_io_send_count t + 1 \<rparr>"

definition tcp_do_write_finish ::
  "'s \<Rightarrow> bool \<Rightarrow> bytes \<Rightarrow> nat \<Rightarrow> ('s, 'p) tcp_world \<Rightarrow> ('s, 'p) tcp_world option" where
  "tcp_do_write_finish self ec send_buffer len W =
    (if ec then do {
       W \<leftarrow> tcp_send_write_fail_to_logic self send_buffer len W;
       Some (if ts_is_active_close (tw_session W)
             then W \<lparr> tw_session := tcp_close_immediaterly (tw_session W) \<rparr> else W) }
     else
       let t = tcp_add_send_finish_size len (tw_session W) in
       Some (W \<lparr> tw_session :=
         if ts_is_active_close t \<and> ts_send_buffer_size t = ts_send_data_size t then tcp_close_immediaterly t else t \<rparr>))"

text \<open>A read that failed, or that put \<open>data\<close> at the write position of the receive buffer.\<close>

definition tcp_do_read_some ::
  "'s session_ops \<Rightarrow> 'p packet_parse \<Rightarrow> 's \<Rightarrow> int \<Rightarrow> bytes option \<Rightarrow> ('s, 'p) tcp_world \<Rightarrow> ('s, 'p) tcp_world option" where
  "tcp_do_read_some S pk self now received W =
    (let t = tw_session W in
     case received of
       None \<Rightarrow> do {
         w \<leftarrow> close_session_event (ts_connect_id t) (Some self) (tw_logic W);
         Some (W \<lparr> tw_logic := w \<rparr>) }
     | Some data \<Rightarrow> do {
         sb \<leftarrow> write_memory (get_curr_write_ptr (ts_recv_buffer t)) data (ts_recv_buffer t);
         let t = t \<lparr> ts_recv_data_size := ts_recv_data_size t + of_nat (length data),
                     ts_recv_buffer := snd (set_write_data (length data) sb) \<rparr>;
         W \<leftarrow> (if ts_io_state t = SESSION_IO_BRIDGE then do {
                  let t = t \<lparr> ts_recv_time := now \<rparr>;
                  (ret, sb, w) \<leftarrow> do_io_bridge_data S (ts_connect_id t) (ts_io_bridge_connect_id t) (ts_recv_buffer t)
                    (length data) self (tw_logic W);
                  let t = t \<lparr> ts_recv_buffer := sb \<rparr>;
                  Some (W \<lparr> tw_logic := w,
                    tw_session := if ret = 1 then t \<lparr> ts_io_bridge_connect_id := 0 \<rparr> else t \<rparr>) }
                else do {
                  (ret, sb, message_list, p) \<leftarrow>
                    pk_from_recv_buffer pk (ts_connect_id t) (ts_recv_buffer t) (ts_io_type t) (tw_parser W);
                  let t = t \<lparr> ts_recv_buffer := sb \<rparr>;
                  if \<not> ret then do {
                    w \<leftarrow> close_session_event (ts_connect_id t) (Some self) (tw_logic W);
                    Some (W \<lparr> tw_parser := p, tw_logic := w, tw_session := t \<rparr>) }
                  else do {
                    w \<leftarrow> assignation_thread_module_logic S (ts_connect_id t) message_list self (tw_logic W);
                    Some (W \<lparr> tw_parser := p, tw_logic := w, tw_session := t \<lparr> ts_recv_time := now \<rparr> \<rparr>) } });
         tcp_do_read self W })"

definition tcp_set_io_bridge_connect_id :: "u32 \<Rightarrow> CTcpSession \<Rightarrow> CTcpSession" where
  "tcp_set_io_bridge_connect_id to_io_connect_id t =
    (if to_io_connect_id > 0
     then t \<lparr> ts_io_state := SESSION_IO_BRIDGE, ts_io_bridge_connect_id := to_io_connect_id \<rparr>
     else t \<lparr> ts_io_state := SESSION_IO_LOGIC, ts_io_bridge_connect_id := 0 \<rparr>)"

definition tcp_get_mark_id :: "u32 \<Rightarrow> CTcpSession \<Rightarrow> u32" where
  "tcp_get_mark_id connect_id t = 0"

definition tcp_format_send_packet :: "'p packet_parse \<Rightarrow> u32 \<Rightarrow> CMessage_Packet \<Rightarrow> ('s, 'p) tcp_world \<Rightarrow> CMessage_Packet option" where
  "tcp_format_send_packet pk connect_id message W =
     pk_format_send_buffer pk connect_id message (ts_io_type (tw_session W)) (tw_parser W)"

text \<open>The functions given to \<open>dispatch\<close>, run by the thread of the \<open>io_context\<close>.\<close>

definition tcp_run_lambda ::
  "'s session_ops \<Rightarrow> 'p packet_parse \<Rightarrow> 's \<Rightarrow> tcp_lambda \<Rightarrow> ('s, 'p) tcp_world \<Rightarrow> ('s, 'p) tcp_world option" where
  "tcp_run_lambda S pk self l W =
    (let t = tw_session W in
     case l of
       L_Write data \<Rightarrow> Some (W \<lparr> tw_session := t \<lparr> ts_writes := ts_writes t @ [data] \<rparr> \<rparr>)
     | L_Close io_type remote_ip \<Rightarrow> do {
         w \<leftarrow> delete_thread_session S (ts_connect_id t) self remote_ip io_type (tw_logic W);
         Some (W \<lparr> tw_parser := pk_disconnect pk (ts_connect_id t) io_type (tw_parser W), tw_logic := w,
           tw_session := t \<lparr> ts_open := False \<rparr> \<rparr>) })"

text \<open>Calls on the session, and the completions of what it has started; an event that cannot happen changes nothing.\<close>

datatype tcp_event =
    E_Read int bytes
  | E_Read_Error int
  | E_Written nat
  | E_Write_Error nat nat
  | E_Run nat
  | E_Set_Write_Buffer bytes
  | E_Do_Write
  | E_Write_Immediately bytes
  | E_Close
  | E_Set_Bridge u32

fun tcp_step ::
  "'s session_ops \<Rightarrow> 'p packet_parse \<Rightarrow> 's \<Rightarrow> tcp_event \<Rightarrow> ('s, 'p) tcp_world \<Rightarrow> ('s, 'p) tcp_world option" where
  "tcp_step S pk self (E_Read now data) W =
    (case ts_reading (tw_session W) of
       Some n \<Rightarrow> if length data \<le> n
         then tcp_do_read_some S pk self now (Some data) (W \<lparr> tw_session := (tw_session W) \<lparr> ts_reading := None \<rparr> \<rparr>)
         else Some W
     | None \<Rightarrow> Some W)"
| "tcp_step S pk self (E_Read_Error now) W =
    (if ts_reading (tw_session W) \<noteq> None
     then tcp_do_read_some S pk self now None (W \<lparr> tw_session := (tw_session W) \<lparr> ts_reading := None \<rparr> \<rparr>) else Some W)"
| "tcp_step S pk self (E_Written i) W =
    (let t = tw_session W in
     if i < length (ts_writes t)
     then tcp_do_write_finish self False (ts_writes t ! i) (length (ts_writes t ! i))
       (W \<lparr> tw_session := t \<lparr> ts_writes := remove_nth i (ts_writes t) \<rparr> \<rparr>) else Some W)"
| "tcp_step S pk self (E_Write_Error i len) W =
    (let t = tw_session W in
     if i < length (ts_writes t) \<and> len \<le> length (ts_writes t ! i)
     then tcp_do_write_finish self True (ts_writes t ! i) len
       (W \<lparr> tw_session := t \<lparr> ts_writes := remove_nth i (ts_writes t) \<rparr> \<rparr>) else Some W)"
| "tcp_step S pk self (E_Run i) W =
    (let t = tw_session W in
     if i < length (ts_lambdas t)
     then tcp_run_lambda S pk self (ts_lambdas t ! i)
       (W \<lparr> tw_session := t \<lparr> ts_lambdas := remove_nth i (ts_lambdas t) \<rparr> \<rparr>) else Some W)"
| "tcp_step S pk self (E_Set_Write_Buffer data) W =
     Some (W \<lparr> tw_session := tcp_set_write_buffer data (tw_session W) \<rparr>)"
| "tcp_step S pk self E_Do_Write W = tcp_do_write self W"
| "tcp_step S pk self (E_Write_Immediately data) W = tcp_do_write_immediately self data W"
| "tcp_step S pk self E_Close W = tcp_close self W"
| "tcp_step S pk self (E_Set_Bridge to_io_connect_id) W =
     Some (W \<lparr> tw_session := tcp_set_io_bridge_connect_id to_io_connect_id (tw_session W) \<rparr>)"

fun tcp_run ::
  "'s session_ops \<Rightarrow> 'p packet_parse \<Rightarrow> 's \<Rightarrow> tcp_event list \<Rightarrow> ('s, 'p) tcp_world \<Rightarrow> ('s, 'p) tcp_world option" where
  "tcp_run S pk self [] W = Some W"
| "tcp_run S pk self (e # es) W = (case tcp_step S pk self e W of None \<Rightarrow> None | Some W \<Rightarrow> tcp_run S pk self es W)"

definition lambda_bytes :: "tcp_lambda \<Rightarrow> nat" where
  "lambda_bytes l = (case l of L_Write data \<Rightarrow> length data | L_Close _ _ \<Rightarrow> 0)"

text \<open>The bytes handed to asio and not yet reported as written.\<close>

definition in_flight :: "CTcpSession \<Rightarrow> nat" where
  "in_flight t = sum_list (map length (ts_writes t)) + sum_list (map lambda_bytes (ts_lambdas t))"

definition tcp_inv :: "('s, 'p) tcp_world \<Rightarrow> bool" where
  "tcp_inv W \<longleftrightarrow> wt_safe (tw_logic W) \<and> sb_inv (ts_recv_buffer (tw_session W)) \<and>
     (\<forall>n. ts_reading (tw_session W) = Some n \<longrightarrow> n = get_buffer_size (ts_recv_buffer (tw_session W)))"

text \<open>The part of the session that sending and closing work on.\<close>

definition send_side :: "CTcpSession \<Rightarrow> bytes \<times> u64 \<times> u64 \<times> bool \<times> bool \<times> bytes list \<times> tcp_lambda list" where
  "send_side t = (ts_send_buffer t, ts_send_data_size t, ts_send_buffer_size t, ts_is_active_close t, ts_open t,
     ts_writes t, ts_lambdas t)"

definition close_pending :: "CTcpSession \<Rightarrow> bool" where
  "close_pending t \<longleftrightarrow> (\<exists>ty ip. L_Close ty ip \<in> set (ts_lambdas t))"

definition balanced :: "nat \<Rightarrow> CTcpSession \<Rightarrow> bool" where
  "balanced lost t \<longleftrightarrow> ts_send_buffer_size t = ts_send_data_size t + of_nat (in_flight t + lost)"

text \<open>After \<open>close\<close>: it is done or about to be done, or a write is in flight whose completion will do it.\<close>

definition closing :: "CTcpSession \<Rightarrow> bool" where
  "closing t \<longleftrightarrow> \<not> ts_open t \<or> close_pending t \<or>
     (ts_is_active_close t \<and> balanced 0 t \<and> 0 < in_flight t \<and> ts_send_buffer t = [])"

text \<open>Nothing is in flight, but the counters differ, and \<open>more\<close> further bytes cannot make them equal.\<close>

definition stuck :: "nat \<Rightarrow> CTcpSession \<Rightarrow> bool" where
  "stuck later t \<longleftrightarrow> ts_open t \<and> ts_is_active_close t \<and> ts_writes t = [] \<and> ts_lambdas t = [] \<and>
     (\<exists>lost. balanced lost t \<and> 0 < lost \<and> lost + length (ts_send_buffer t) + later < 2 ^ 64)"

fun submitted :: "tcp_event \<Rightarrow> nat" where
  "submitted (E_Set_Write_Buffer data) = length data"
| "submitted (E_Write_Immediately data) = length data"
| "submitted _ = 0"

definition tcp_ok :: "('s, 'p) tcp_world option \<Rightarrow> bool" where
  "tcp_ok r = (case r of Some W \<Rightarrow> tcp_inv W | None \<Rightarrow> False)"

text \<open>A session with one write in progress, as an example.\<close>

definition writing_world :: "bool \<Rightarrow> (nat, unit) tcp_world" where
  "writing_world active = \<lparr> tw_session = CTcpSession_ctor \<lparr> ts_connect_id := 3, ts_recv_buffer := Init [0, 0],
     ts_reading := Some 2, ts_send_buffer_size := 2, ts_writes := [[1, 2]], ts_is_active_close := active \<rparr>,
     tw_parser = (), tw_logic = echo_server \<rparr>"


subsection \<open>No event is undefined\<close>

lemma tcp_ok_Some [simp]: "tcp_ok (Some W) = tcp_inv W"
  by (simp add: tcp_ok_def)

lemma tcp_okE: "tcp_ok r \<Longrightarrow> (\<And>W. r = Some W \<Longrightarrow> tcp_inv W \<Longrightarrow> P) \<Longrightarrow> P"
  by (auto simp: tcp_ok_def split: option.splits)

lemma ok_bind_safe: "ends_safe r \<Longrightarrow> (\<And>w. wt_safe w \<Longrightarrow> tcp_ok (f w)) \<Longrightarrow> tcp_ok (r \<bind> f)"
  by (auto elim: ends_safeE)

lemma ok_bind: "tcp_ok r \<Longrightarrow> (\<And>W. tcp_inv W \<Longrightarrow> tcp_ok (f W)) \<Longrightarrow> tcp_ok (r \<bind> f)"
  by (auto elim: tcp_okE)

lemma tcp_inv_logic: "tcp_inv W \<Longrightarrow> wt_safe w \<Longrightarrow> tcp_inv (W \<lparr> tw_logic := w \<rparr>)"
  by (simp add: tcp_inv_def)

lemma tcp_inv_session:
  "tcp_inv W \<Longrightarrow> ts_recv_buffer t = ts_recv_buffer (tw_session W) \<Longrightarrow> ts_reading t = ts_reading (tw_session W) \<or> ts_reading t = None \<Longrightarrow>
   tcp_inv (W \<lparr> tw_session := t \<rparr>)"
  by (auto simp: tcp_inv_def)

lemma close_immediaterly_fields [simp]:
  "ts_recv_buffer (tcp_close_immediaterly t) = ts_recv_buffer t" "ts_reading (tcp_close_immediaterly t) = ts_reading t"
  "ts_writes (tcp_close_immediaterly t) = ts_writes t" "ts_open (tcp_close_immediaterly t) = ts_open t"
  "ts_send_buffer_size (tcp_close_immediaterly t) = ts_send_buffer_size t"
  "ts_send_data_size (tcp_close_immediaterly t) = ts_send_data_size t"
  "ts_send_buffer (tcp_close_immediaterly t) = ts_send_buffer t"
  "ts_is_active_close (tcp_close_immediaterly t) = ts_is_active_close t"
  by (simp_all add: tcp_close_immediaterly_def)

lemma tcp_ok_read:
  assumes "wt_safe (tw_logic W)" "sb_inv (ts_recv_buffer (tw_session W))"
  shows "tcp_ok (tcp_do_read self W)"
  using assms by (auto simp: tcp_do_read_def Let_def intro!: ok_bind_safe dispatcher_safe) (simp_all add: tcp_inv_def)

lemma tcp_ok_fail: "tcp_inv W \<Longrightarrow> tcp_ok (tcp_send_write_fail_to_logic self buf n W)"
  unfolding tcp_send_write_fail_to_logic_def
  by (rule ok_bind_safe, rule safe_assignation(3)) (simp_all add: tcp_inv_def)

lemma tcp_ok_write: "tcp_inv W \<Longrightarrow> tcp_ok (tcp_do_write self W)"
  by (auto simp: tcp_do_write_def Let_def tcp_clear_write_buffer_def intro!: tcp_ok_fail tcp_inv_session)

lemma tcp_ok_close: "tcp_inv W \<Longrightarrow> tcp_ok (tcp_close self W)"
  by (auto simp: tcp_close_def intro!: tcp_inv_session ok_bind tcp_ok_write)

lemma tcp_ok_write_finish: "tcp_inv W \<Longrightarrow> tcp_ok (tcp_do_write_finish self ec buf n W)"
  by (auto simp: tcp_do_write_finish_def Let_def tcp_add_send_finish_size_def intro!: tcp_inv_session ok_bind tcp_ok_fail)

lemma tcp_ok_lambda: "tcp_inv W \<Longrightarrow> tcp_ok (tcp_run_lambda S pk self l W)"
  by (cases l) (auto simp: tcp_run_lambda_def Let_def tcp_inv_def intro!: ok_bind_safe dispatcher_safe)

lemma tcp_ok_read_some:
  assumes "parser_ok pk" "wt_safe (tw_logic W)" "sb_inv (ts_recv_buffer (tw_session W))"
    "\<forall>data. received = Some data \<longrightarrow> length data \<le> get_buffer_size (ts_recv_buffer (tw_session W))" "ts_reading (tw_session W) = None"
  shows "tcp_ok (tcp_do_read_some S pk self now received W)"
proof (cases received)
  case None
  thus ?thesis using assms by (auto simp: tcp_do_read_some_def Let_def tcp_inv_def intro!: ok_bind_safe dispatcher_safe)
next
  case (Some data)
  let ?t = "tw_session W"
  obtain sb where sb: "write_memory (get_curr_write_ptr (ts_recv_buffer ?t)) data (ts_recv_buffer ?t) = Some sb"
    "sb_inv (snd (set_write_data (length data) sb))" "length data \<le> length (sb_buffer (snd (set_write_data (length data) sb)))"
    using recv_commit [OF assms(3), of data] assms(4) Some by blast
  obtain ret sb' ms p where pk: "pk_from_recv_buffer pk (ts_connect_id ?t) (snd (set_write_data (length data) sb)) (ts_io_type ?t) (tw_parser W)
      = Some (ret, sb', ms, p)" "sb_inv sb'"
    using assms(1) sb(2) unfolding parser_ok_def by meson
  obtain r w where br: "do_io_bridge_data S (ts_connect_id ?t) (ts_io_bridge_connect_id ?t) (snd (set_write_data (length data) sb))
      (length data) self (tw_logic W) = Some (r, move_buffer (length data) (snd (set_write_data (length data) sb)), w)" "wt_safe w"
    using safe_bridge [OF assms(2) sb(3)] by blast
  obtain w1 where w1: "close_session_event (ts_connect_id ?t) (Some self) (tw_logic W) = Some w1" "wt_safe w1"
    by (rule ends_safeE [OF safe_close_session [OF assms(2)]])
  obtain w2 where w2: "assignation_thread_module_logic S (ts_connect_id ?t) ms self (tw_logic W) = Some w2" "wt_safe w2"
    by (rule ends_safeE [OF safe_assignation(1) [OF assms(2)]])
  show ?thesis using Some sb pk br w1 w2
    by (cases "ts_io_state ?t = SESSION_IO_BRIDGE"; cases ret)
      (auto simp: tcp_do_read_some_def Let_def intro!: tcp_ok_read)
qed

lemma tcp_ok_step:
  assumes "parser_ok pk" "tcp_inv W" shows "tcp_ok (tcp_step S pk self e W)"
proof (cases e)
  case (E_Read now data)
  thus ?thesis using assms by (auto simp: tcp_inv_def intro!: tcp_ok_read_some split: option.split)
next
  case (E_Read_Error now)
  thus ?thesis using assms by (auto simp: tcp_inv_def intro!: tcp_ok_read_some)
qed (use assms in \<open>auto simp: Let_def tcp_do_write_immediately_def tcp_set_write_buffer_def tcp_set_io_bridge_connect_id_def
    intro!: tcp_ok_write_finish tcp_ok_lambda tcp_ok_write tcp_ok_close tcp_inv_session\<close>)

lemma tcp_ok_run: "parser_ok pk \<Longrightarrow> tcp_inv W \<Longrightarrow> tcp_ok (tcp_run S pk self es W)"
proof (induction es arbitrary: W)
  case (Cons e es)
  obtain W' where "tcp_step S pk self e W = Some W'" "tcp_inv W'" by (rule tcp_okE [OF tcp_ok_step [OF Cons.prems]])
  with Cons show ?case by simp
qed simp

lemma tcp_ok_open:
  assumes "wt_safe (tw_logic W)" "length mem < 2 ^ 64"
  shows "\<exists>W'. tcp_open S (Some pk) self n mem now remote loc W = Some (n + 1, W') \<and> tcp_inv W'"
proof -
  obtain w where w: "add_thread_session S (n + 1) self loc remote (tw_logic W) = Some w" "wt_safe w"
    by (rule ends_safeE [OF safe_connect [OF assms(1)]])
  let ?W = "W \<lparr> tw_session := (tw_session W) \<lparr> ts_connect_id := n + 1, ts_recv_buffer := Init mem, ts_recv_time := now,
      ts_remote_ip := remote, ts_local_ip := loc \<rparr>,
    tw_parser := pk_connect pk (n + 1) remote loc (ts_io_type (tw_session W)) (tw_parser W), tw_logic := w \<rparr>"
  obtain W' where "tcp_do_read self ?W = Some W'" "tcp_inv W'"
    by (rule tcp_okE [OF tcp_ok_read [of ?W]]) (use w(2) assms(2) in simp_all)
  thus ?thesis using w(1) by (simp add: tcp_open_def CreateCounter_def Let_def)
qed


subsection \<open>Counting what was sent\<close>

text \<open>What the calls change of the session, whatever the parser and the dispatcher do.\<close>

lemma fail_session: "tcp_send_write_fail_to_logic self buf n W = Some W' \<Longrightarrow> tw_session W' = tw_session W"
  by (auto simp: tcp_send_write_fail_to_logic_def split: bind_splits)

lemma read_session:
  "tcp_do_read self W = Some W' \<Longrightarrow> tw_session W' = (tw_session W) \<lparr> ts_reading := Some (get_buffer_size (ts_recv_buffer (tw_session W))) \<rparr>"
  by (auto simp: tcp_do_read_def Let_def split: bind_splits if_splits)

lemma read_some_session:
  assumes "tcp_do_read_some S pk self now received W = Some W'"
  shows "send_side (tw_session W') = send_side (tw_session W)"
proof (cases received)
  case None
  with assms show ?thesis by (auto simp: tcp_do_read_some_def Let_def split: bind_splits)
next
  case (Some data)
  with assms obtain W1 where "tcp_do_read self W1 = Some W'" "send_side (tw_session W1) = send_side (tw_session W)"
    by (auto simp: tcp_do_read_some_def Let_def send_side_def split: bind_splits if_splits)
  with read_session show ?thesis by (fastforce simp: send_side_def)
qed

lemma do_write_session:
  assumes "tcp_do_write self W = Some W'"
  shows "tw_session W' =
    (let t = tw_session W; data = ts_send_buffer t;
         t1 = t \<lparr> ts_send_buffer := [], ts_send_buffer_size := ts_send_buffer_size t + of_nat (length data) \<rparr> in
     if data = [] then t else if ts_is_active_close t then t1 else t1 \<lparr> ts_lambdas := ts_lambdas t @ [L_Write data] \<rparr>)"
  using assms by (auto simp: tcp_do_write_def tcp_clear_write_buffer_def Let_def dest!: fail_session split: if_splits)

lemma close_session:
  assumes "tcp_close self W = Some W'"
  shows "tw_session W' =
    (let t = tw_session W; data = ts_send_buffer t;
         t1 = t \<lparr> ts_send_buffer := [], ts_send_buffer_size := ts_send_buffer_size t + of_nat (length data),
           ts_is_active_close := True \<rparr> in
     if ts_send_buffer_size t = ts_send_data_size t then tcp_close_immediaterly t
     else if data = [] then t \<lparr> ts_is_active_close := True \<rparr>
     else if ts_is_active_close t then t1 else t1 \<lparr> ts_lambdas := ts_lambdas t @ [L_Write data] \<rparr>)"
  using assms by (auto simp: tcp_close_def Let_def dest!: do_write_session split: bind_splits if_splits)

lemma write_finish_session:
  assumes "tcp_do_write_finish self ec buf n W = Some W'"
  shows "tw_session W' =
    (let t = (if ec then tw_session W else tcp_add_send_finish_size n (tw_session W)) in
     if ts_is_active_close t \<and> (ec \<or> ts_send_buffer_size t = ts_send_data_size t) then tcp_close_immediaterly t else t)"
  using assms by (auto simp: tcp_do_write_finish_def Let_def dest!: fail_session split: bind_splits if_splits)

lemma lambda_session:
  assumes "tcp_run_lambda S pk self l W = Some W'"
  shows "tw_session W' = (case l of L_Write data \<Rightarrow> (tw_session W) \<lparr> ts_writes := ts_writes (tw_session W) @ [data] \<rparr>
    | L_Close _ _ \<Rightarrow> (tw_session W) \<lparr> ts_open := False \<rparr>)"
  using assms by (cases l) (auto simp: tcp_run_lambda_def Let_def split: bind_splits)

lemma close_pending_now: "ts_open t \<Longrightarrow> close_pending (tcp_close_immediaterly t)"
  by (auto simp: close_pending_def tcp_close_immediaterly_def)

lemma close_pending_still: "close_pending t \<Longrightarrow> close_pending (tcp_close_immediaterly t)"
  by (auto simp: close_pending_def tcp_close_immediaterly_def)

lemma closing_now: "closing (tcp_close_immediaterly t)"
  using close_pending_now [of t] by (auto simp: closing_def)

lemma closing_cong: "send_side t = send_side t' \<Longrightarrow> closing t = closing t'"
  by (simp add: send_side_def closing_def close_pending_def balanced_def in_flight_def)

lemma closing_written:
  assumes "closing t" "i < length (ts_writes t)"
  shows "closing (let t = tcp_add_send_finish_size (length (ts_writes t ! i)) (t \<lparr> ts_writes := remove_nth i (ts_writes t) \<rparr>) in
     if ts_is_active_close t \<and> ts_send_buffer_size t = ts_send_data_size t then tcp_close_immediaterly t else t)"
proof -
  let ?t = "tcp_add_send_finish_size (length (ts_writes t ! i)) (t \<lparr> ts_writes := remove_nth i (ts_writes t) \<rparr>)"
  have f: "in_flight t = length (ts_writes t ! i) + in_flight ?t"
    using remove_nth_sum [OF assms(2), of length] by (simp add: in_flight_def tcp_add_send_finish_size_def)
  have s: "ts_open ?t = ts_open t" "close_pending ?t = close_pending t" "ts_is_active_close ?t = ts_is_active_close t"
    "ts_send_buffer ?t = ts_send_buffer t" by (simp_all add: tcp_add_send_finish_size_def close_pending_def)
  have "balanced 0 t \<Longrightarrow> balanced 0 ?t"
    using f by (simp add: balanced_def) (simp add: tcp_add_send_finish_size_def)
  moreover have "balanced 0 ?t \<Longrightarrow> in_flight ?t = 0 \<Longrightarrow> ts_send_buffer_size ?t = ts_send_data_size ?t"
    by (simp add: balanced_def)
  ultimately have "closing ?t \<or> (ts_is_active_close ?t \<and> ts_send_buffer_size ?t = ts_send_data_size ?t)"
    using assms(1) s unfolding closing_def by auto
  thus ?thesis unfolding Let_def using closing_now [of ?t] by auto
qed

lemma closing_run_write:
  assumes "closing t" "i < length (ts_lambdas t)" "ts_lambdas t ! i = L_Write data"
  shows "closing (t \<lparr> ts_lambdas := remove_nth i (ts_lambdas t), ts_writes := ts_writes t @ [data] \<rparr>)"
proof -
  let ?t = "t \<lparr> ts_lambdas := remove_nth i (ts_lambdas t), ts_writes := ts_writes t @ [data] \<rparr>"
  have "in_flight ?t = in_flight t"
    using remove_nth_sum [OF assms(2), of lambda_bytes] assms(3) by (simp add: in_flight_def lambda_bytes_def)
  moreover have "close_pending ?t = close_pending t"
    using set_remove_nth [OF assms(2)] assms(3) by (auto simp: close_pending_def)
  ultimately show ?thesis using assms(1) by (simp add: closing_def balanced_def)
qed

lemma send_side_reading [simp]: "send_side (t \<lparr> ts_reading := r \<rparr>) = send_side t"
  by (simp add: send_side_def)

lemma step_read_send_side:
  "tcp_step S pk self (E_Read now data) W = Some W' \<Longrightarrow> send_side (tw_session W') = send_side (tw_session W)"
  "tcp_step S pk self (E_Read_Error now) W = Some W' \<Longrightarrow> send_side (tw_session W') = send_side (tw_session W)"
  by (auto split: option.splits if_splits dest!: read_some_session)

lemma closing_write_error:
  assumes "closing t"
  shows "closing (let t = t \<lparr> ts_writes := ws \<rparr> in if ts_is_active_close t then tcp_close_immediaterly t else t)"
  using assms closing_now [of "t \<lparr> ts_writes := ws \<rparr>"] by (auto simp: closing_def close_pending_def Let_def)

lemma closing_do_write:
  assumes "tcp_do_write self W = Some W'" "closing (tw_session W)"
  shows "closing (tw_session W')"
  using assms(2) unfolding do_write_session [OF assms(1)] Let_def
  by (cases "ts_send_buffer (tw_session W) = []") (auto simp: closing_def close_pending_def)

lemma closing_close:
  assumes "tcp_close self W = Some W'" "closing (tw_session W)"
  shows "closing (tw_session W')"
proof (cases "ts_send_buffer_size (tw_session W) = ts_send_data_size (tw_session W)")
  case True
  thus ?thesis unfolding close_session [OF assms(1)] by (simp add: closing_now)
next
  case False
  thus ?thesis using assms(2) unfolding close_session [OF assms(1)] Let_def
    by (cases "ts_send_buffer (tw_session W) = []") (auto simp: closing_def close_pending_def balanced_def in_flight_def)
qed

lemma closing_step:
  assumes "tcp_step S pk self e W = Some W'" "closing (tw_session W)" "submitted e = 0"
  shows "closing (tw_session W')"
proof (cases e)
  case (E_Read now data)
  with assms(2) show ?thesis using closing_cong [OF step_read_send_side(1) [OF assms(1) [unfolded E_Read]]] by simp
next
  case (E_Read_Error now)
  with assms(2) show ?thesis using closing_cong [OF step_read_send_side(2) [OF assms(1) [unfolded E_Read_Error]]] by simp
next
  case (E_Written i)
  show ?thesis
  proof (cases "i < length (ts_writes (tw_session W))")
    case True
    with assms(1) E_Written show ?thesis using closing_written [OF assms(2) True]
      by (auto simp: Let_def dest!: write_finish_session)
  qed (use assms E_Written in \<open>simp add: Let_def\<close>)
next
  case (E_Write_Error i n)
  with assms(1,2) show ?thesis using closing_write_error [OF assms(2), of "remove_nth i (ts_writes (tw_session W))"]
    by (auto simp: Let_def dest!: write_finish_session split: if_splits)
next
  case (E_Run i)
  show ?thesis
  proof (cases "i < length (ts_lambdas (tw_session W))")
    case True
    with assms(1) E_Run have "tcp_run_lambda S pk self (ts_lambdas (tw_session W) ! i)
       (W \<lparr> tw_session := (tw_session W) \<lparr> ts_lambdas := remove_nth i (ts_lambdas (tw_session W)) \<rparr> \<rparr>) = Some W'" by (simp add: Let_def)
    from lambda_session [OF this] show ?thesis using closing_run_write [OF assms(2) True]
      by (cases "ts_lambdas (tw_session W) ! i") (simp_all add: closing_def)
  qed (use assms E_Run in \<open>simp add: Let_def\<close>)
next
  case (E_Set_Write_Buffer data)
  with assms show ?thesis by (auto simp: tcp_set_write_buffer_def)
next
  case (E_Write_Immediately data)
  with assms show ?thesis by (auto simp: tcp_do_write_immediately_def tcp_set_write_buffer_def elim!: closing_do_write)
next
  case (E_Set_Bridge c)
  with assms(1) have "send_side (tw_session W') = send_side (tw_session W)"
    by (cases "c > 0") (auto simp: tcp_set_io_bridge_connect_id_def send_side_def)
  from closing_cong [OF this] assms(2) show ?thesis by simp
qed (use assms closing_do_write closing_close in \<open>auto\<close>)

lemma closing_run:
  "tcp_run S pk self es W = Some W' \<Longrightarrow> closing (tw_session W) \<Longrightarrow> \<forall>e \<in> set es. submitted e = 0 \<Longrightarrow> closing (tw_session W')"
  by (induction es arbitrary: W) (auto split: option.splits dest: closing_step)

lemma closing_first:
  assumes "tcp_close self W = Some W'" "\<not> ts_is_active_close (tw_session W)" "balanced 0 (tw_session W)"
  shows "closing (tw_session W')"
proof (cases "ts_send_buffer_size (tw_session W) = ts_send_data_size (tw_session W)")
  case True
  thus ?thesis unfolding close_session [OF assms(1)] by (simp add: closing_now)
next
  case False
  hence "0 < in_flight (tw_session W)" using assms(3) by (cases "in_flight (tw_session W)") (simp_all add: balanced_def)
  thus ?thesis using False assms(2,3) unfolding close_session [OF assms(1)] Let_def
    by (cases "ts_send_buffer (tw_session W) = []")
      (simp_all add: closing_def balanced_def in_flight_def lambda_bytes_def)
qed


subsection \<open>Counters that never meet\<close>

lemma stuck_cong: "send_side t = send_side t' \<Longrightarrow> stuck n t = stuck n t'"
  by (simp add: send_side_def stuck_def balanced_def in_flight_def)

lemma stuck_unequal:
  assumes "stuck n t" shows "ts_send_buffer_size t \<noteq> ts_send_data_size t"
proof -
  obtain lost where l: "balanced lost t" "0 < lost" "lost < 2 ^ 64" "in_flight t = 0"
    using assms by (auto simp: stuck_def in_flight_def)
  have "unat (of_nat lost :: u64) = lost" using l(3) by (simp add: unsigned_of_nat take_bit_eq_mod)
  hence "(of_nat lost :: u64) \<noteq> 0" using l(2) by auto
  thus ?thesis using l(1,4) by (simp add: balanced_def)
qed

lemma stuck_set_buffer:
  "stuck (length data + n) t \<Longrightarrow> stuck n (tcp_set_write_buffer data t)"
  by (auto simp: stuck_def tcp_set_write_buffer_def balanced_def in_flight_def)

lemma stuck_flush:
  assumes "stuck n t"
  shows "stuck n (t \<lparr> ts_send_buffer := [], ts_send_buffer_size := ts_send_buffer_size t + of_nat (length (ts_send_buffer t)) \<rparr>)"
proof -
  obtain lost where l: "balanced lost t" "0 < lost" "lost + length (ts_send_buffer t) + n < 2 ^ 64"
    using assms by (auto simp: stuck_def)
  have "balanced (lost + length (ts_send_buffer t))
     (t \<lparr> ts_send_buffer := [], ts_send_buffer_size := ts_send_buffer_size t + of_nat (length (ts_send_buffer t)) \<rparr>)"
    using l(1) by (simp add: balanced_def in_flight_def)
  thus ?thesis using l assms unfolding stuck_def
    by (intro conjI exI [of _ "lost + length (ts_send_buffer t)"]) simp_all
qed

lemma stuck_do_write:
  assumes "tcp_do_write self W = Some W'" "stuck n (tw_session W)" shows "stuck n (tw_session W')"
  using assms(2) stuck_flush [OF assms(2)] unfolding do_write_session [OF assms(1)] Let_def by (auto simp: stuck_def)

lemma stuck_close:
  assumes "tcp_close self W = Some W'" "stuck n (tw_session W)" shows "stuck n (tw_session W')"
proof -
  let ?t = "tw_session W"
  let ?f = "?t \<lparr> ts_send_buffer := [], ts_send_buffer_size := ts_send_buffer_size ?t + of_nat (length (ts_send_buffer ?t)) \<rparr>"
  have a: "ts_is_active_close ?t" using assms(2) by (simp add: stuck_def)
  hence "stuck n (?t \<lparr> ts_is_active_close := True \<rparr>)" "stuck n (?f \<lparr> ts_is_active_close := True \<rparr>)"
    using assms(2) stuck_flush [OF assms(2)] stuck_cong [of "?t \<lparr> ts_is_active_close := True \<rparr>" ?t n]
      stuck_cong [of "?f \<lparr> ts_is_active_close := True \<rparr>" ?f n] by (simp_all add: send_side_def)
  thus ?thesis using a stuck_unequal [OF assms(2)] unfolding close_session [OF assms(1)] Let_def by simp
qed

lemma stuck_step:
  assumes "tcp_step S pk self e W = Some W'" "stuck (submitted e + n) (tw_session W)"
  shows "stuck n (tw_session W')"
proof -
  have st: "ts_writes (tw_session W) = []" "ts_lambdas (tw_session W) = []" using assms(2) by (simp_all add: stuck_def)
  show ?thesis
  proof (cases e)
    case (E_Read now data)
    with assms(2) show ?thesis using stuck_cong [OF step_read_send_side(1) [OF assms(1) [unfolded E_Read]]] by simp
  next
    case (E_Read_Error now)
    with assms(2) show ?thesis using stuck_cong [OF step_read_send_side(2) [OF assms(1) [unfolded E_Read_Error]]] by simp
  next
    case (E_Set_Write_Buffer data)
    with assms show ?thesis by (auto intro: stuck_set_buffer)
  next
    case (E_Write_Immediately data)
    with assms show ?thesis by (auto simp: tcp_do_write_immediately_def intro: stuck_set_buffer elim!: stuck_do_write)
  next
    case (E_Set_Bridge c)
    with assms(1) have "send_side (tw_session W') = send_side (tw_session W)"
      by (cases "c > 0") (auto simp: tcp_set_io_bridge_connect_id_def send_side_def)
    from stuck_cong [OF this] assms(2) E_Set_Bridge show ?thesis by simp
  qed (use assms st stuck_do_write [of self W W' n] stuck_close [of self W W' n] in \<open>auto simp: Let_def\<close>)
qed

lemma stuck_run:
  "tcp_run S pk self es W = Some W' \<Longrightarrow> stuck (sum_list (map submitted es)) (tw_session W) \<Longrightarrow> stuck 0 (tw_session W')"
  by (induction es arbitrary: W) (auto split: option.splits dest: stuck_step)

lemma writing_world_inv: "tcp_inv (writing_world active)"
  using echo_server_safe
  by (simp add: tcp_inv_def writing_world_def CTcpSession_ctor_def Init_def sb_inv_def get_buffer_size_def)


subsection \<open>Properties\<close>





text \<open>
  After a failed write a session cannot be closed any more: the failed bytes stay in
  \<open>send_buffer_size_\<close> and never reach \<open>send_data_size_\<close>, so \<open>close\<close> only sets the flag
  and waits for a completion that does not come.  Whatever happens afterwards, the
  socket stays open and nothing is left that would close it.
\<close>

theorem failed_write_never_closes:
  assumes "parser_ok pk" "tcp_inv W" "ts_open (tw_session W)" "\<not> ts_is_active_close (tw_session W)"
    "balanced 0 (tw_session W)" "ts_writes (tw_session W) = [data]" "ts_lambdas (tw_session W) = []"
    "ts_send_buffer (tw_session W) = []" "data \<noteq> []" "k \<le> length data"
    "length data + sum_list (map submitted es) < 2 ^ 64"
  shows "\<exists>W'. tcp_run S pk self ([E_Write_Error 0 k, E_Read_Error now, E_Close] @ es) W = Some W' \<and>
    ts_open (tw_session W') \<and> ts_lambdas (tw_session W') = [] \<and> ts_writes (tw_session W') = []"
proof -
  obtain W1 where W1: "tcp_step S pk self (E_Write_Error 0 k) W = Some W1" "tcp_inv W1"
    by (rule tcp_okE [OF tcp_ok_step [OF assms(1,2)]])
  have s1: "tw_session W1 = (tw_session W) \<lparr> ts_writes := [] \<rparr>"
    using W1(1) assms(4,6,10) by (auto simp: Let_def remove_nth_def dest!: write_finish_session)
  obtain W2 where W2: "tcp_step S pk self (E_Read_Error now) W1 = Some W2" "tcp_inv W2"
    by (rule tcp_okE [OF tcp_ok_step [OF assms(1) W1(2)]])
  note s2 = step_read_send_side(2) [OF W2(1)]
  obtain W3 where W3: "tcp_close self W2 = Some W3" "tcp_inv W3" by (rule tcp_okE [OF tcp_ok_close [OF W2(2)]])
  have "(of_nat (length data) :: u64) \<noteq> 0"
    using assms(9,11) by (auto simp: word_unat_eq_iff unsigned_of_nat take_bit_eq_mod)
  hence n: "ts_send_buffer_size (tw_session W2) = ts_send_data_size (tw_session W2) + of_nat (length data)"
    "ts_send_buffer_size (tw_session W2) \<noteq> ts_send_data_size (tw_session W2)"
    using assms(5-7) s1 s2 by (auto simp: send_side_def balanced_def in_flight_def)
  have s3: "stuck (sum_list (map submitted es)) (tw_session W3)"
    using n s1 s2 assms(3,7,8,9,11) unfolding close_session [OF W3(1)] stuck_def
    by (auto simp: send_side_def balanced_def in_flight_def Let_def intro!: exI [of _ "length data"])
  obtain W' where W': "tcp_run S pk self es W3 = Some W'" by (rule tcp_okE [OF tcp_ok_run [OF assms(1) W3(2)]])
  from stuck_run [OF W' s3] show ?thesis using W1(1) W2(1) W3(1) W' by (auto simp: stuck_def simp del: tcp_step.simps(3,4,1,2))
qed

theorem failed_write_never_closes_witness:
  "\<exists>W'. tcp_run echo_ops one_message_parser 7 ([E_Write_Error 0 1, E_Read_Error 5, E_Close] @ [E_Write_Immediately [9], E_Close])
      (writing_world False) = Some W' \<and>
    ts_open (tw_session W') \<and> ts_lambdas (tw_session W') = [] \<and> ts_writes (tw_session W') = []"
  by (rule failed_write_never_closes [OF one_message_parser_ok writing_world_inv, where data = "[1, 2]"])
    (simp_all add: writing_world_def CTcpSession_ctor_def balanced_def in_flight_def)

text \<open>
  Sending to a session that waits to be closed keeps it open for ever: the refused
  bytes are added to \<open>send_buffer_size_\<close> before they are refused, so the counters
  differ when the last write completes.
\<close>

theorem write_after_close_never_closes:
  assumes "parser_ok pk" "tcp_inv W" "ts_open (tw_session W)" "ts_is_active_close (tw_session W)"
    "balanced 0 (tw_session W)" "ts_writes (tw_session W) = [data]" "ts_lambdas (tw_session W) = []"
    "ts_send_buffer (tw_session W) = []" "d \<noteq> []" "length d + sum_list (map submitted es) < 2 ^ 64"
  shows "\<exists>W'. tcp_run S pk self ([E_Write_Immediately d, E_Written 0] @ es) W = Some W' \<and>
    ts_open (tw_session W') \<and> ts_lambdas (tw_session W') = [] \<and> ts_writes (tw_session W') = []"
proof -
  obtain W1 where W1: "tcp_step S pk self (E_Write_Immediately d) W = Some W1" "tcp_inv W1"
    by (rule tcp_okE [OF tcp_ok_step [OF assms(1,2)]])
  have s1: "tw_session W1 = (tw_session W) \<lparr> ts_send_buffer_size := ts_send_buffer_size (tw_session W) + of_nat (length d) \<rparr>"
    using W1(1) assms(4,8,9) by (auto simp: tcp_do_write_immediately_def tcp_set_write_buffer_def dest!: do_write_session)
  obtain W2 where W2: "tcp_step S pk self (E_Written 0) W1 = Some W2" "tcp_inv W2"
    by (rule tcp_okE [OF tcp_ok_step [OF assms(1) W1(2)]])
  have "(of_nat (length d) :: u64) \<noteq> 0"
    using assms(9,10) by (auto simp: word_unat_eq_iff unsigned_of_nat take_bit_eq_mod)
  hence "tw_session W2 = tcp_add_send_finish_size (length data) ((tw_session W1) \<lparr> ts_writes := [] \<rparr>)"
    using W2(1) s1 assms(5-7)
    by (auto simp: Let_def remove_nth_def tcp_add_send_finish_size_def balanced_def in_flight_def dest!: write_finish_session)
  hence s3: "stuck (sum_list (map submitted es)) (tw_session W2)"
    using s1 assms(3-10) unfolding stuck_def
    by (auto simp: tcp_add_send_finish_size_def balanced_def in_flight_def intro!: exI [of _ "length d"])
  obtain W' where W': "tcp_run S pk self es W2 = Some W'" by (rule tcp_okE [OF tcp_ok_run [OF assms(1) W2(2)]])
  from stuck_run [OF W' s3] show ?thesis using W1(1) W2(1) W' by (auto simp: stuck_def simp del: tcp_step.simps)
qed

theorem write_after_close_never_closes_witness:
  "\<exists>W'. tcp_run echo_ops one_message_parser 7 ([E_Write_Immediately [5], E_Written 0] @ [E_Close, E_Read_Error 9]) (writing_world True) = Some W' \<and>
    ts_open (tw_session W') \<and> ts_lambdas (tw_session W') = [] \<and> ts_writes (tw_session W') = []"
  by (rule write_after_close_never_closes [OF one_message_parser_ok writing_world_inv, where data = "[1, 2]"])
    (simp_all add: writing_world_def CTcpSession_ctor_def balanced_def in_flight_def)

end
