(* ===== verification/Net_Services.thy ===== *)
theory Net_Services
  imports Session_Common "HOL-Library.AList"
begin

text \<open>
  The pool of \<open>io_context\<close> objects, the TCP listener and the manager of the listening
  servers.  A server is an object of the heap \<open>nw_servers\<close>; the tables of the manager
  hold the only shared pointers to a TCP listener, so it is destroyed when it leaves
  them, while the handler of its \<open>async_accept\<close> keeps a plain \<open>this\<close>.  The messages that
  \<open>start_single_service\<close> and \<open>close_single_service\<close> post to task thread 0 are \<open>nw_tasks\<close>.

  The tables are unordered maps, here association lists.  Whether a socket can be
  bound is an argument.  Built without \<open>SSL_SUPPORT\<close>.  \<open>None\<close> is undefined behaviour,
  or an exception that nobody catches.
\<close>


section \<open>Listeners and their manager (Common/IoContextPool, Common/NetSvrManager, TcpSession/TcpServer)\<close>


subsection \<open>Definitions: the pool\<close>

record CIoContextPool =
  io_contexts_list :: "nat list"
  next_io_context :: nat

text \<open>\<open>init\<close>: \<open>Inl\<close> is the thrown \<open>runtime_error\<close>.  A context is named by its place.\<close>

definition pool_init :: "nat \<Rightarrow> CIoContextPool \<Rightarrow> string + CIoContextPool" where
  "pool_init io_size p =
    (let p = p \<lparr> next_io_context := 0 \<rparr> in
     if io_size = 0 then Inl ''io_context_pool size is 0''
     else Inr (p \<lparr> io_contexts_list := io_contexts_list p @ [0..<io_size] \<rparr>))"

definition getIOContext :: "CIoContextPool \<Rightarrow> (nat \<times> CIoContextPool) option" where
  "getIOContext p =
    (if next_io_context p < length (io_contexts_list p) then
       let io_context = io_contexts_list p ! next_io_context p;
           n = Suc (next_io_context p) in
       Some (io_context, p \<lparr> next_io_context := if n = length (io_contexts_list p) then 1 else n \<rparr>)
     else None)"

definition pool_stop :: "CIoContextPool \<Rightarrow> CIoContextPool" where
  "pool_stop p = p \<lparr> io_contexts_list := [] \<rparr>"

fun get_contexts :: "nat \<Rightarrow> CIoContextPool \<Rightarrow> (nat list \<times> CIoContextPool) option" where
  "get_contexts 0 p = Some ([], p)"
| "get_contexts (Suc n) p = (case getIOContext p of None \<Rightarrow> None | Some (c, p) \<Rightarrow>
     (case get_contexts n p of None \<Rightarrow> None | Some (cs, p) \<Rightarrow> Some (c # cs, p)))"


subsection \<open>Definitions: servers and their tables\<close>

datatype tcp_acceptor = Acceptor_Null | Acceptor_Open | Acceptor_Closed

record CTcpServer =
  sv_packet_parse_id :: u32
  sv_max_recv_size :: u32
  sv_server_ip :: string
  sv_server_port :: u16
  sv_acceptor :: tcp_acceptor
  sv_accepting :: bool

text \<open>Of the servers of the other protocols only the address and whether they are open matters here.\<close>

datatype net_server = Tcp_Server CTcpServer | Other_Server EM_CONNECT_IO_TYPE string u16 bool

record CNetSvrManager =
  tcp_service_list :: "(string \<times> nat) list"
  udp_service_list :: "(string \<times> nat) list"
  kcp_service_list :: "(string \<times> nat) list"
  tty_service_list :: "(string \<times> nat) list"

datatype net_task = Start_Service CConfigNetIO | Close_Service CConfigNetIO

record CTTyIO =
  tty_name :: string
  tty_port :: u32
  tty_char_size :: int
  tty_packet_parse_id :: u32
  tty_recv_buff_size :: u32
  tty_send_buff_size :: u32

text \<open>\<open>nw_accepted\<close> lists the sessions made for accepted sockets, with the context each was given.\<close>

record 's net_world =
  nw_manager :: CNetSvrManager
  nw_pool :: CIoContextPool
  nw_servers :: "net_server list"
  nw_tasks :: "net_task list"
  nw_accepted :: "(u32 \<times> u32 \<times> nat) list"
  nw_logic :: "'s CWorkThreadLogic"

definition service_key :: "string \<Rightarrow> u16 \<Rightarrow> string" where
  "service_key ip port = ip @ ''_'' @ to_string (unat port)"

definition add_accept_net_io_event :: "string \<Rightarrow> u16 \<Rightarrow> EM_CONNECT_IO_TYPE \<Rightarrow> nat \<Rightarrow> CNetSvrManager \<Rightarrow> CNetSvrManager" where
  "add_accept_net_io_event ip port ty k m =
    (let io_key = service_key ip port in
     if ty = CONNECT_IO_TCP then m \<lparr> tcp_service_list := AList.update io_key k (tcp_service_list m) \<rparr>
     else if ty = CONNECT_IO_UDP then m \<lparr> udp_service_list := AList.update io_key k (udp_service_list m) \<rparr>
     else if ty = CONNECT_IO_KCP then m \<lparr> udp_service_list := AList.update io_key k (udp_service_list m) \<rparr>
     else if ty = CONNECT_IO_TTY then m \<lparr> tty_service_list := AList.update io_key k (tty_service_list m) \<rparr>
     else m)"

definition del_accept_net_io_event :: "string \<Rightarrow> u16 \<Rightarrow> EM_CONNECT_IO_TYPE \<Rightarrow> CNetSvrManager \<Rightarrow> CNetSvrManager" where
  "del_accept_net_io_event ip port ty m =
    (let io_key = service_key ip port in
     if ty = CONNECT_IO_TCP then m \<lparr> tcp_service_list := AList.delete io_key (tcp_service_list m) \<rparr>
     else if ty = CONNECT_IO_UDP then m \<lparr> udp_service_list := AList.delete io_key (udp_service_list m) \<rparr>
     else if ty = CONNECT_IO_KCP then m \<lparr> kcp_service_list := AList.delete io_key (kcp_service_list m) \<rparr>
     else if ty = CONNECT_IO_TTY then m \<lparr> tty_service_list := AList.delete io_key (tty_service_list m) \<rparr>
     else m)"

text \<open>A server that some table points to; one that none points to has been destroyed.\<close>

definition referenced :: "CNetSvrManager \<Rightarrow> nat \<Rightarrow> bool" where
  "referenced m k \<longleftrightarrow> k \<in> set (map snd (tcp_service_list m @ udp_service_list m @ kcp_service_list m @ tty_service_list m))"


subsection \<open>Definitions: the TCP listener\<close>

definition set_server :: "nat \<Rightarrow> net_server \<Rightarrow> 's net_world \<Rightarrow> 's net_world" where
  "set_server k s W = W \<lparr> nw_servers := (nw_servers W)[k := s] \<rparr>"

definition the_tcp_server :: "nat \<Rightarrow> 's net_world \<Rightarrow> CTcpServer option" where
  "the_tcp_server k W =
    (if k < length (nw_servers W) then (case nw_servers W ! k of Tcp_Server sv \<Rightarrow> Some sv | _ \<Rightarrow> None) else None)"

text \<open>The constructor: when the acceptor cannot be made, the exception is logged and the pointer stays null.\<close>

definition CTcpServer_ctor :: "bool \<Rightarrow> CConfigNetIO \<Rightarrow> 's net_world \<Rightarrow> (nat \<times> 's net_world) option" where
  "CTcpServer_ctor bound config_io W = do {
     (iocontext, p) \<leftarrow> getIOContext (nw_pool W);
     let sv = \<lparr> sv_packet_parse_id = io_packet_parse_id config_io, sv_max_recv_size = io_recv_buff_size config_io,
       sv_server_ip = io_ip config_io, sv_server_port = io_port config_io,
       sv_acceptor = (if bound then Acceptor_Open else Acceptor_Null), sv_accepting = False \<rparr>;
     Some (length (nw_servers W), W \<lparr> nw_pool := p, nw_servers := nw_servers W @ [Tcp_Server sv] \<rparr>) }"

definition do_accept :: "nat \<Rightarrow> 's net_world \<Rightarrow> 's net_world option" where
  "do_accept k W = do {
     sv \<leftarrow> the_tcp_server k W;
     if sv_acceptor sv = Acceptor_Null then None
     else Some (set_server k (Tcp_Server (sv \<lparr> sv_accepting := True \<rparr>)) W) }"

definition tcp_server_start :: "nat \<Rightarrow> 's net_world \<Rightarrow> 's net_world option" where
  "tcp_server_start k W = do {
     sv \<leftarrow> the_tcp_server k W;
     do_accept k (W \<lparr> nw_manager :=
       add_accept_net_io_event (sv_server_ip sv) (sv_server_port sv) CONNECT_IO_TCP k (nw_manager W) \<rparr>) }"

definition tcp_server_close :: "nat \<Rightarrow> 's net_world \<Rightarrow> 's net_world option" where
  "tcp_server_close k W = do {
     sv \<leftarrow> the_tcp_server k W;
     if sv_acceptor sv = Acceptor_Null then None
     else Some (set_server k (Tcp_Server (sv \<lparr> sv_acceptor := Acceptor_Closed \<rparr>)) W) }"

definition send_accept_listen_fail :: "CTcpServer \<Rightarrow> 's net_world \<Rightarrow> 's net_world" where
  "send_accept_listen_fail sv W =
     W \<lparr> nw_logic := add_frame_events LOGIC_LISTEN_SERVER_ERROR 0 (sv_server_ip sv) (sv_server_port sv) CONNECT_IO_TCP (nw_logic W),
         nw_manager := del_accept_net_io_event (sv_server_ip sv) (sv_server_port sv) CONNECT_IO_TCP (nw_manager W) \<rparr>"

text \<open>The handler of \<open>async_accept\<close>; it uses \<open>this\<close>, which must still exist.\<close>

definition tcp_accept_handler :: "nat \<Rightarrow> bool \<Rightarrow> 's net_world \<Rightarrow> 's net_world option" where
  "tcp_accept_handler k ec W =
    (if \<not> referenced (nw_manager W) k then None
     else do {
       sv \<leftarrow> the_tcp_server k W;
       let W = set_server k (Tcp_Server (sv \<lparr> sv_accepting := False \<rparr>)) W;
       if \<not> ec then do {
         (iocontext, p) \<leftarrow> getIOContext (nw_pool W);
         do_accept k (W \<lparr> nw_pool := p,
           nw_accepted := nw_accepted W @ [(sv_packet_parse_id sv, sv_max_recv_size sv, iocontext)] \<rparr>) }
       else Some (send_accept_listen_fail sv W) })"


subsection \<open>Definitions: the manager\<close>

definition start_tcp_service :: "bool \<Rightarrow> CConfigNetIO \<Rightarrow> 's net_world \<Rightarrow> 's net_world option" where
  "start_tcp_service bound netio W = do {
     (k, W) \<leftarrow> CTcpServer_ctor bound netio W;
     tcp_server_start k W }"

text \<open>The other servers take a context, are made and enter themselves in the tables.\<close>

definition start_other_service :: "EM_CONNECT_IO_TYPE \<Rightarrow> string \<Rightarrow> u16 \<Rightarrow> 's net_world \<Rightarrow> 's net_world option" where
  "start_other_service ty ip port W = do {
     (iocontext, p) \<leftarrow> getIOContext (nw_pool W);
     Some (W \<lparr> nw_pool := p, nw_servers := nw_servers W @ [Other_Server ty ip port True],
       nw_manager := add_accept_net_io_event ip port ty (length (nw_servers W)) (nw_manager W) \<rparr>) }"

definition ssl_configured :: "CConfigNetIO \<Rightarrow> bool" where
  "ssl_configured c \<longleftrightarrow> io_ssl_server_password c \<noteq> [] \<and> io_ssl_server_pem_file c \<noteq> [] \<and> io_ssl_dh_pem_file c \<noteq> []"

fun start_tcp_list :: "(CConfigNetIO \<times> bool) list \<Rightarrow> 's net_world \<Rightarrow> 's net_world option" where
  "start_tcp_list [] W = Some W"
| "start_tcp_list ((c, bound) # cs) W =
    (if ssl_configured c then start_tcp_list cs W
     else case start_tcp_service bound c W of None \<Rightarrow> None | Some W \<Rightarrow> start_tcp_list cs W)"

fun start_udp_list :: "CConfigNetIO list \<Rightarrow> 's net_world \<Rightarrow> 's net_world option" where
  "start_udp_list [] W = Some W"
| "start_udp_list (c # cs) W =
    (case start_other_service CONNECT_IO_UDP (io_ip c) (io_port c) W of None \<Rightarrow> None | Some W \<Rightarrow> start_udp_list cs W)"

text \<open>The constructor of the KCP server lets the exception of a failed bind through.\<close>

fun start_kcp_list :: "(CConfigNetIO \<times> bool) list \<Rightarrow> 's net_world \<Rightarrow> 's net_world option" where
  "start_kcp_list [] W = Some W"
| "start_kcp_list ((c, bound) # cs) W =
    (case start_other_service CONNECT_IO_KCP (io_ip c) (io_port c) W of
       None \<Rightarrow> None
     | Some W \<Rightarrow> if bound then start_kcp_list cs W else None)"

text \<open>A serial port that cannot be opened takes a context and is not entered.\<close>

fun start_tty_list :: "(CTTyIO \<times> bool) list \<Rightarrow> 's net_world \<Rightarrow> 's net_world option" where
  "start_tty_list [] W = Some W"
| "start_tty_list ((c, opened) # cs) W =
    (if opened then (case start_other_service CONNECT_IO_TTY (tty_name c) (ucast (tty_port c)) W of
         None \<Rightarrow> None | Some W \<Rightarrow> start_tty_list cs W)
     else (case getIOContext (nw_pool W) of
         None \<Rightarrow> None | Some (iocontext, p) \<Rightarrow> start_tty_list cs (W \<lparr> nw_pool := p \<rparr>)))"

definition start_default_service ::
  "(CConfigNetIO \<times> bool) list \<Rightarrow> CConfigNetIO list \<Rightarrow> (CConfigNetIO \<times> bool) list \<Rightarrow> (CTTyIO \<times> bool) list \<Rightarrow>
   's net_world \<Rightarrow> 's net_world option" where
  "start_default_service tcp_list udp_list kcp_list tty_list W = do {
     W \<leftarrow> start_tcp_list tcp_list W;
     W \<leftarrow> start_udp_list udp_list W;
     W \<leftarrow> start_kcp_list kcp_list W;
     start_tty_list tty_list W }"

definition start_single_service :: "CConfigNetIO \<Rightarrow> 's net_world \<Rightarrow> 's net_world" where
  "start_single_service netio W =
    (let io_key = service_key (io_ip netio) (io_port netio);
         is_find = (if io_protocol_type netio = CONNECT_IO_TCP then map_of (tcp_service_list (nw_manager W)) io_key \<noteq> None
           else if io_protocol_type netio = CONNECT_IO_UDP then map_of (udp_service_list (nw_manager W)) io_key \<noteq> None
           else False) in
     if is_find then W
     else if io_protocol_type netio = CONNECT_IO_TCP \<or> io_protocol_type netio = CONNECT_IO_UDP
     then W \<lparr> nw_tasks := nw_tasks W @ [Start_Service netio] \<rparr> else W)"

definition close_single_service :: "CConfigNetIO \<Rightarrow> 's net_world \<Rightarrow> 's net_world" where
  "close_single_service netio W =
    (if io_protocol_type netio = CONNECT_IO_TCP \<or> io_protocol_type netio = CONNECT_IO_UDP
     then W \<lparr> nw_tasks := nw_tasks W @ [Close_Service netio] \<rparr> else W)"

text \<open>\<open>close\<close> of any server.\<close>

definition io_listen_close :: "nat \<Rightarrow> 's net_world \<Rightarrow> 's net_world option" where
  "io_listen_close k W =
    (if k < length (nw_servers W) then
       (case nw_servers W ! k of
          Tcp_Server sv \<Rightarrow> tcp_server_close k W
        | Other_Server ty ip port b \<Rightarrow> Some (set_server k (Other_Server ty ip port False) W))
     else None)"

text \<open>The function posted by \<open>close_single_service\<close>.\<close>

definition close_service_task :: "CConfigNetIO \<Rightarrow> 's net_world \<Rightarrow> 's net_world option" where
  "close_service_task netio W =
    (let io_key = service_key (io_ip netio) (io_port netio);
         services = (if io_protocol_type netio = CONNECT_IO_TCP then tcp_service_list (nw_manager W)
           else udp_service_list (nw_manager W)) in
     case map_of services io_key of
       None \<Rightarrow> Some W
     | Some k \<Rightarrow> io_listen_close k (W \<lparr> nw_manager :=
         del_accept_net_io_event (io_ip netio) (io_port netio) (io_protocol_type netio) (nw_manager W) \<rparr>))"

text \<open>A task run by thread 0.\<close>

definition run_net_task :: "bool \<Rightarrow> 's net_world \<Rightarrow> 's net_world option" where
  "run_net_task bound W =
    (case nw_tasks W of
       [] \<Rightarrow> Some W
     | t # ts \<Rightarrow>
         let W = W \<lparr> nw_tasks := ts \<rparr> in
         (case t of
            Start_Service netio \<Rightarrow>
              if io_protocol_type netio = CONNECT_IO_TCP then start_tcp_service bound netio W
              else start_other_service CONNECT_IO_UDP (io_ip netio) (io_port netio) W
          | Close_Service netio \<Rightarrow> close_service_task netio W))"

fun close_accept_list :: "nat list \<Rightarrow> 's net_world \<Rightarrow> 's net_world option" where
  "close_accept_list [] W = Some W"
| "close_accept_list (k # ks) W = (case io_listen_close k W of None \<Rightarrow> None | Some W \<Rightarrow> close_accept_list ks W)"

text \<open>The handlers of closed acceptors, one after the other.\<close>

fun run_accept_errors :: "nat list \<Rightarrow> 's net_world \<Rightarrow> 's net_world option" where
  "run_accept_errors [] W = Some W"
| "run_accept_errors (k # ks) W = (case tcp_accept_handler k True W of None \<Rightarrow> None | Some W \<Rightarrow> run_accept_errors ks W)"

text \<open>
  \<open>close_all_service\<close> sleeps after each list it has closed; \<open>handlers\<close> are the acceptors
  whose handlers run meanwhile.  They wait for the lock of the tables, which this
  thread holds; the entries they remove are cleared by it in any case.
\<close>

definition close_all_service :: "nat list \<Rightarrow> 's net_world \<Rightarrow> 's net_world option" where
  "close_all_service handlers W = do {
     let m = nw_manager W;
     W \<leftarrow> close_accept_list (map snd (tcp_service_list m)) W;
     W \<leftarrow> close_accept_list (map snd (kcp_service_list m)) W;
     W \<leftarrow> close_accept_list (map snd (udp_service_list m)) W;
     W \<leftarrow> close_accept_list (map snd (tty_service_list m)) W;
     W \<leftarrow> run_accept_errors handlers W;
     Some (W \<lparr> nw_manager := (nw_manager W) \<lparr> tcp_service_list := [], kcp_service_list := [], udp_service_list := [] \<rparr> \<rparr>) }"


subsection \<open>Definitions: runs of the listeners\<close>

datatype net_event =
    N_Accept nat bool
  | N_Start CConfigNetIO
  | N_Close CConfigNetIO
  | N_Task bool

fun net_step :: "net_event \<Rightarrow> 's net_world \<Rightarrow> 's net_world option" where
  "net_step (N_Accept k ec) W =
    (case the_tcp_server k W of
       Some sv \<Rightarrow> if sv_accepting sv then tcp_accept_handler k ec W else Some W
     | None \<Rightarrow> Some W)"
| "net_step (N_Start netio) W = Some (start_single_service netio W)"
| "net_step (N_Close netio) W = Some (close_single_service netio W)"
| "net_step (N_Task bound) W = run_net_task bound W"

fun net_run :: "net_event list \<Rightarrow> 's net_world \<Rightarrow> 's net_world option" where
  "net_run [] W = Some W"
| "net_run (e # es) W = (case net_step e W of None \<Rightarrow> None | Some W \<Rightarrow> net_run es W)"

definition pool_ok :: "CIoContextPool \<Rightarrow> bool" where
  "pool_ok p \<longleftrightarrow> 2 \<le> length (io_contexts_list p) \<and> next_io_context p < length (io_contexts_list p)"

definition server_key :: "CTcpServer \<Rightarrow> string" where
  "server_key sv = service_key (sv_server_ip sv) (sv_server_port sv)"

definition config_key :: "CConfigNetIO \<Rightarrow> string" where
  "config_key c = service_key (io_ip c) (io_port c)"

definition other_servers :: "CNetSvrManager \<Rightarrow> nat set" where
  "other_servers m = snd ` set (udp_service_list m @ kcp_service_list m @ tty_service_list m)"

text \<open>
  The tables point to servers of their kind, and every outstanding \<open>async_accept\<close>
  belongs to a registered listener: \<open>L\<close> gives the listeners among the \<open>n\<close> servers,
  \<open>T\<close> is the table of the listeners and \<open>E\<close> the set of other servers that are entered.
\<close>

definition tables_view :: "(nat \<rightharpoonup> CTcpServer) \<Rightarrow> nat \<Rightarrow> nat set \<Rightarrow> (string \<times> nat) list \<Rightarrow> bool" where
  "tables_view L n E T \<longleftrightarrow>
     (\<forall>key k. (key, k) \<in> set T \<longrightarrow> (\<exists>sv. L k = Some sv \<and> server_key sv = key)) \<and>
     (\<forall>k \<in> E. k < n \<and> L k = None) \<and>
     (\<forall>k sv. L k = Some sv \<longrightarrow> k < n \<and> sv_acceptor sv \<noteq> Acceptor_Null \<and> (sv_accepting sv \<longrightarrow> (server_key sv, k) \<in> set T)) \<and>
     distinct (map fst T)"

definition tables_ok :: "'s net_world \<Rightarrow> bool" where
  "tables_ok W = tables_view (\<lambda>k. the_tcp_server k W) (length (nw_servers W)) (other_servers (nw_manager W))
     (tcp_service_list (nw_manager W))"

definition net_inv :: "'s net_world \<Rightarrow> bool" where
  "net_inv W \<longleftrightarrow> pool_ok (nw_pool W) \<and> tables_ok W"

fun tcp_starts :: "net_task list \<Rightarrow> string list" where
  "tcp_starts [] = []"
| "tcp_starts (Start_Service c # ts) = (if io_protocol_type c = CONNECT_IO_TCP then config_key c # tcp_starts ts else tcp_starts ts)"
| "tcp_starts (Close_Service c # ts) = tcp_starts ts"

fun start_requests :: "net_event list \<Rightarrow> string list" where
  "start_requests [] = []"
| "start_requests (N_Start c # es) = (if io_protocol_type c = CONNECT_IO_TCP then config_key c # start_requests es else start_requests es)"
| "start_requests (e # es) = start_requests es"

text \<open>A run that closes no TCP service, whose binds succeed and that starts each address at most once.\<close>

definition no_tcp_close :: "CConfigNetIO \<Rightarrow> bool" where
  "no_tcp_close c \<longleftrightarrow> io_protocol_type c \<noteq> CONNECT_IO_TCP"

definition event_ok :: "net_event \<Rightarrow> bool" where
  "event_ok e = (case e of N_Close c \<Rightarrow> no_tcp_close c | N_Task bound \<Rightarrow> bound | _ \<Rightarrow> True)"

definition net_task_ok :: "net_task \<Rightarrow> bool" where
  "net_task_ok t = (case t of Close_Service c \<Rightarrow> no_tcp_close c | Start_Service c \<Rightarrow> True)"

definition used_keys :: "'s net_world \<Rightarrow> string set" where
  "used_keys W = server_key ` ran (\<lambda>k. the_tcp_server k W)"

definition starts_fresh :: "net_event list \<Rightarrow> 's net_world \<Rightarrow> bool" where
  "starts_fresh es W \<longleftrightarrow> (\<forall>t \<in> set (nw_tasks W). net_task_ok t) \<and> distinct (tcp_starts (nw_tasks W) @ start_requests es) \<and>
     set (tcp_starts (nw_tasks W) @ start_requests es) \<inter> used_keys W = {}"

definition net_start_world :: "nat \<Rightarrow> 's CWorkThreadLogic \<Rightarrow> 's net_world" where
  "net_start_world n w = \<lparr> nw_manager = \<lparr> tcp_service_list = [], udp_service_list = [], kcp_service_list = [], tty_service_list = [] \<rparr>,
     nw_pool = \<lparr> io_contexts_list = [0..<n], next_io_context = 1 \<rparr>, nw_servers = [], nw_tasks = [], nw_accepted = [], nw_logic = w \<rparr>"


text \<open>What the later steps rely on: the invariant holds, and tasks and used addresses are as given.\<close>

definition goes_on :: "net_task list \<Rightarrow> string set \<Rightarrow> 's net_world option \<Rightarrow> bool" where
  "goes_on ts keys r = (case r of Some W \<Rightarrow> net_inv W \<and> nw_tasks W = ts \<and> used_keys W = keys | None \<Rightarrow> False)"

definition netio :: "EM_CONNECT_IO_TYPE \<Rightarrow> u16 \<Rightarrow> CConfigNetIO" where
  "netio ty port = \<lparr> io_ip = ''0'', io_port = port, io_protocol_type = ty, io_packet_parse_id = 1, io_recv_buff_size = 1024,
     io_send_buff_size = 1024, io_ssl_server_password = [], io_ssl_server_pem_file = [], io_ssl_dh_pem_file = [],
     io_em_net_type = NET_TYPE_POINT_TO_POINT \<rparr>"

definition listener :: CTcpServer where
  "listener = \<lparr> sv_packet_parse_id = 1, sv_max_recv_size = 1024, sv_server_ip = ''0'', sv_server_port = 80,
     sv_acceptor = Acceptor_Open, sv_accepting = True \<rparr>"

definition listening_world :: "net_task list \<Rightarrow> nat net_world" where
  "listening_world ts = (net_start_world 2 echo_server) \<lparr> nw_servers := [Tcp_Server listener],
     nw_manager := \<lparr> tcp_service_list = [(service_key ''0'' 80, 0)], udp_service_list = [], kcp_service_list = [], tty_service_list = [] \<rparr>,
     nw_tasks := ts \<rparr>"

definition is_closed :: "net_server \<Rightarrow> bool" where
  "is_closed s = (case s of Tcp_Server sv \<Rightarrow> sv_acceptor sv = Acceptor_Closed | Other_Server ty ip port b \<Rightarrow> \<not> b)"

definition accepting :: "'s net_world \<Rightarrow> nat set" where
  "accepting W = {k. \<exists>sv. the_tcp_server k W = Some sv \<and> sv_accepting sv}"

definition closed_now :: "'s net_world \<Rightarrow> nat set" where
  "closed_now W = {k. k < length (nw_servers W) \<and> is_closed (nw_servers W ! k)}"


subsection \<open>The pool deals out the contexts in turn\<close>

lemma getIOContext_ok: "pool_ok p \<Longrightarrow> \<exists>c p'. getIOContext p = Some (c, p') \<and> pool_ok p'"
  by (auto simp: getIOContext_def pool_ok_def Let_def)

lemma get_contexts_turn:
  assumes "2 \<le> n" "io_contexts_list p = [0..<n]" "next_io_context p = 1 + j mod (n - 1)"
  shows "\<exists>p'. get_contexts k p = Some (map (\<lambda>i. 1 + i mod (n - 1)) [j..<j + k], p')"
  using assms(2,3)
proof (induction k arbitrary: j p)
  case (Suc k)
  let ?p = "p \<lparr> next_io_context := 1 + Suc j mod (n - 1) \<rparr>"
  have "j mod (n - 1) < n - 1" using assms(1) by simp
  moreover have "Suc j mod (n - 1) = (if Suc (j mod (n - 1)) = n - 1 then 0 else Suc (j mod (n - 1)))" by (rule mod_Suc)
  ultimately have g: "getIOContext p = Some (1 + j mod (n - 1), ?p)"
    using Suc.prems by (auto simp: getIOContext_def Let_def)
  from Suc.IH [of ?p "Suc j"] Suc.prems obtain p2 where
    "get_contexts k ?p = Some (map (\<lambda>i. 1 + i mod (n - 1)) [Suc j..<Suc j + k], p2)" by auto
  thus ?case by (simp add: g upt_conv_Cons del: upt_Suc)
qed simp

text \<open>
  With at least two contexts, the first request gets context 0 (the start-up code
  gives it to the signal handler) and the requests after it, of listeners and
  sessions, get the contexts 1, 2, and so on up to the last in turn, for ever: every
  request is answered with a context that exists, and context 0 is not shared.
\<close>

theorem io_context_round_robin:
  assumes "2 \<le> n" "pool_init n p = Inr q" "io_contexts_list p = []"
  shows "\<exists>q'. get_contexts (Suc k) q = Some (0 # map (\<lambda>i. 1 + i mod (n - 1)) [0..<k], q')"
proof -
  have q: "io_contexts_list q = [0..<n]" "next_io_context q = 0" using assms by (auto simp: pool_init_def Let_def)
  let ?q = "q \<lparr> next_io_context := 1 \<rparr>"
  have g: "getIOContext q = Some (0, ?q)" using q assms(1) by (auto simp: getIOContext_def Let_def)
  show ?thesis using get_contexts_turn [OF assms(1), of ?q 0 k] q(1) by (auto simp: g)
qed

theorem io_context_round_robin_witness:
  "\<exists>q'. get_contexts (Suc 5) \<lparr> io_contexts_list = [0, 1, 2, 3], next_io_context = 0 \<rparr> = Some ([0, 1, 2, 3, 1, 2], q')"
proof -
  have "pool_init 4 \<lparr> io_contexts_list = [], next_io_context = 7 \<rparr> = Inr \<lparr> io_contexts_list = [0, 1, 2, 3], next_io_context = 0 \<rparr>"
    by (simp add: pool_init_def upt_conv_Cons)
  moreover have "map (\<lambda>i::nat. 1 + i mod (4 - 1)) [0..<5] = [1, 2, 3, 1, 2]" by code_simp
  ultimately show ?thesis using io_context_round_robin [of 4 "\<lparr> io_contexts_list = [], next_io_context = 7 \<rparr>"
      "\<lparr> io_contexts_list = [0, 1, 2, 3], next_io_context = 0 \<rparr>" 5] by (simp del: get_contexts.simps One_nat_def)
qed

text \<open>
  With one context, as on a machine with a single processor, the second request
  indexes the vector behind its end: the counter goes back to 1, not to 0.
\<close>

theorem single_context_overrun:
  assumes "pool_init 1 p = Inr q" "io_contexts_list p = []" "2 \<le> k"
  shows "get_contexts k q = None"
proof -
  obtain j where "k = Suc (Suc j)" using assms(3) by (auto dest: le_Suc_ex)
  thus ?thesis using assms(1,2) by (auto simp: pool_init_def getIOContext_def Let_def)
qed

theorem single_context_overrun_witness:
  "get_contexts 2 \<lparr> io_contexts_list = [0], next_io_context = 0 \<rparr> = None"
  by (rule single_context_overrun [of "\<lparr> io_contexts_list = [], next_io_context = 7 \<rparr>"]) (simp_all add: pool_init_def)


subsection \<open>Operations on the heap of servers\<close>

lemma the_tcp_server_update [simp]:
  "the_tcp_server k (W \<lparr> nw_manager := m \<rparr>) = the_tcp_server k W"
  "the_tcp_server k (W \<lparr> nw_pool := p \<rparr>) = the_tcp_server k W"
  "the_tcp_server k (W \<lparr> nw_tasks := ts \<rparr>) = the_tcp_server k W"
  "the_tcp_server k (W \<lparr> nw_accepted := a \<rparr>) = the_tcp_server k W"
  "the_tcp_server k (W \<lparr> nw_logic := w \<rparr>) = the_tcp_server k W"
  by (simp_all add: the_tcp_server_def)

lemma set_server_fields [simp]:
  "nw_manager (set_server k s W) = nw_manager W" "nw_pool (set_server k s W) = nw_pool W"
  "nw_tasks (set_server k s W) = nw_tasks W" "nw_accepted (set_server k s W) = nw_accepted W"
  "length (nw_servers (set_server k s W)) = length (nw_servers W)"
  by (simp_all add: set_server_def)

lemma the_tcp_server_length: "the_tcp_server k W = Some sv \<Longrightarrow> k < length (nw_servers W)"
  by (simp add: the_tcp_server_def split: if_splits)

lemma the_tcp_server_set:
  "k < length (nw_servers W) \<Longrightarrow> (\<lambda>j. the_tcp_server j (set_server k (Tcp_Server sv) W)) = (\<lambda>j. the_tcp_server j W)(k \<mapsto> sv)"
  by (auto simp: the_tcp_server_def set_server_def nth_list_update fun_eq_iff)

lemma the_tcp_server_append:
  "(\<lambda>j. the_tcp_server j (W \<lparr> nw_servers := nw_servers W @ [Tcp_Server sv] \<rparr>)) = (\<lambda>j. the_tcp_server j W)(length (nw_servers W) \<mapsto> sv)"
  "(\<lambda>j. the_tcp_server j (W \<lparr> nw_servers := nw_servers W @ [Other_Server ty ip port b] \<rparr>)) = (\<lambda>j. the_tcp_server j W)"
  by (auto simp: the_tcp_server_def nth_append fun_eq_iff)

lemma set_update_fresh: "key \<notin> fst ` set al \<Longrightarrow> AList.update key v al = al @ [(key, v)]"
  by (induction al) auto

lemma viewD:
  assumes "tables_view L n E T"
  shows view_entry: "(key, k) \<in> set T \<Longrightarrow> \<exists>sv. L k = Some sv \<and> server_key sv = key"
    and view_other: "k \<in> E \<Longrightarrow> k < n \<and> L k = None"
    and view_server: "L k = Some sv \<Longrightarrow> k < n \<and> sv_acceptor sv \<noteq> Acceptor_Null"
    and view_accepting: "L k = Some sv \<Longrightarrow> sv_accepting sv \<Longrightarrow> (server_key sv, k) \<in> set T"
    and view_distinct: "distinct (map fst T)"
  using assms unfolding tables_view_def by blast+

lemma viewI:
  assumes "\<And>key k. (key, k) \<in> set T \<Longrightarrow> \<exists>sv. L k = Some sv \<and> server_key sv = key"
    "\<And>k. k \<in> E \<Longrightarrow> k < n \<and> L k = None" "\<And>k sv. L k = Some sv \<Longrightarrow> k < n \<and> sv_acceptor sv \<noteq> Acceptor_Null"
    "\<And>k sv. L k = Some sv \<Longrightarrow> sv_accepting sv \<Longrightarrow> (server_key sv, k) \<in> set T" "distinct (map fst T)"
  shows "tables_view L n E T"
  using assms unfolding tables_view_def by blast

lemma view_end: "tables_view L n E T \<Longrightarrow> L n = None"
  by (cases "L n") (auto dest: view_server)

lemma view_only: "tables_view L n E T \<Longrightarrow> (key, k) \<in> set T \<Longrightarrow> (key, j) \<in> set T \<Longrightarrow> j = k"
  by (meson eq_key_imp_eq_value view_distinct)

lemma view_set:
  assumes "tables_view L n E T" "L k = Some sv" "server_key sv' = server_key sv" "sv_acceptor sv' \<noteq> Acceptor_Null"
    "sv_accepting sv' \<Longrightarrow> (server_key sv, k) \<in> set T"
  shows "tables_view (L(k \<mapsto> sv')) n E T"
proof (rule viewI)
  fix key j assume "(key, j) \<in> set T"
  thus "\<exists>sv. (L(k \<mapsto> sv')) j = Some sv \<and> server_key sv = key"
    using view_entry [OF assms(1), of key j] assms(2,3) by auto
next
  fix j assume "j \<in> E"
  thus "j < n \<and> (L(k \<mapsto> sv')) j = None" using view_other [OF assms(1), of j] assms(2) by auto
next
  fix j s assume "(L(k \<mapsto> sv')) j = Some s"
  thus "j < n \<and> sv_acceptor s \<noteq> Acceptor_Null"
    using view_server [OF assms(1), of j] assms(2,4) by (auto split: if_splits)
next
  fix j s assume "(L(k \<mapsto> sv')) j = Some s" "sv_accepting s"
  thus "(server_key s, j) \<in> set T" using view_accepting [OF assms(1), of j s] assms(3,5) by (auto split: if_splits)
qed (rule view_distinct [OF assms(1)])

lemma view_new:
  assumes "tables_view L n E T" "server_key sv \<notin> server_key ` ran L" "sv_acceptor sv \<noteq> Acceptor_Null"
  shows "tables_view (L(n \<mapsto> sv)) (Suc n) E (AList.update (server_key sv) n T)"
proof -
  have fresh: "server_key sv \<notin> fst ` set T" using assms(2) view_entry [OF assms(1)] by (fastforce simp: ran_def)
  show ?thesis unfolding set_update_fresh [OF fresh]
  proof (rule viewI)
    fix key k assume "(key, k) \<in> set (T @ [(server_key sv, n)])"
    thus "\<exists>sv'. (L(n \<mapsto> sv)) k = Some sv' \<and> server_key sv' = key"
      using view_entry [OF assms(1), of key k] view_end [OF assms(1)] by auto
  next
    show "distinct (map fst (T @ [(server_key sv, n)]))" using view_distinct [OF assms(1)] fresh by auto
  next
    fix k assume "k \<in> E"
    thus "k < Suc n \<and> (L(n \<mapsto> sv)) k = None" using view_other [OF assms(1), of k] by auto
  next
    fix k sv' assume "(L(n \<mapsto> sv)) k = Some sv'"
    thus "k < Suc n \<and> sv_acceptor sv' \<noteq> Acceptor_Null"
      using view_server [OF assms(1), of k sv'] assms(3) by (auto split: if_splits)
  qed (use view_accepting [OF assms(1)] in \<open>auto split: if_splits\<close>)
qed

lemma view_new_other:
  assumes "tables_view L n E T" "E' \<subseteq> insert n E" shows "tables_view L (Suc n) E' T"
proof (rule viewI)
  fix k assume "k \<in> E'"
  thus "k < Suc n \<and> L k = None" using assms(2) view_end [OF assms(1)] view_other [OF assms(1), of k] by auto
next
  fix k sv assume "L k = Some sv"
  thus "k < Suc n \<and> sv_acceptor sv \<noteq> Acceptor_Null" using view_server [OF assms(1), of k sv] by simp
qed (use assms(1) in \<open>auto intro: view_entry view_accepting view_distinct\<close>)

lemma view_fewer: "tables_view L n E T \<Longrightarrow> E' \<subseteq> E \<Longrightarrow> tables_view L n E' T"
  by (auto simp: tables_view_def)

lemma view_remove:
  assumes "tables_view L n E T" "L k = Some sv" "(server_key sv, k) \<in> set T"
  shows "tables_view (L(k \<mapsto> sv \<lparr> sv_accepting := False \<rparr>)) n E (AList.delete (server_key sv) T)"
proof (rule viewI)
  let ?L = "L(k \<mapsto> sv \<lparr> sv_accepting := False \<rparr>)"
  have stay: "(key, j) \<in> set (AList.delete (server_key sv) T) \<longleftrightarrow> (key, j) \<in> set T \<and> key \<noteq> server_key sv" for key j
    by (auto simp: AList.delete_eq)
  { fix key j assume "(key, j) \<in> set (AList.delete (server_key sv) T)"
    hence "(key, j) \<in> set T" "key \<noteq> server_key sv" by (simp_all add: stay)
    with view_entry [OF assms(1) this(1)] assms(2) show "\<exists>sv'. ?L j = Some sv' \<and> server_key sv' = key" by auto }
  { fix j sv' assume "?L j = Some sv'"
    thus "j < n \<and> sv_acceptor sv' \<noteq> Acceptor_Null"
      using view_server [OF assms(1), of j] assms(2) by (auto split: if_splits) }
  { fix j sv' assume "?L j = Some sv'" "sv_accepting sv'"
    hence j: "j \<noteq> k" "L j = Some sv'" by (auto split: if_splits)
    hence "(server_key sv', j) \<in> set T" using view_accepting [OF assms(1)] \<open>sv_accepting sv'\<close> by blast
    moreover hence "server_key sv' \<noteq> server_key sv" using view_only [OF assms(1,3)] j(1) by metis
    ultimately show "(server_key sv', j) \<in> set (AList.delete (server_key sv) T)" by (simp add: stay) }
  show "distinct (map fst (AList.delete (server_key sv) T))" by (simp add: view_distinct [OF assms(1)] AList.distinct_delete)
  fix j assume "j \<in> E"
  thus "j < n \<and> ?L j = None" using view_other [OF assms(1), of j] assms(2) by auto
qed


subsection \<open>Each operation keeps the tables\<close>

lemma goes_on_Some [simp]: "goes_on ts keys (Some W) \<longleftrightarrow> net_inv W \<and> nw_tasks W = ts \<and> used_keys W = keys"
  by (simp add: goes_on_def)

lemma view_of:
  "net_inv W \<Longrightarrow> tables_view (\<lambda>k. the_tcp_server k W) (length (nw_servers W)) (other_servers (nw_manager W)) (tcp_service_list (nw_manager W))"
  by (simp add: net_inv_def tables_ok_def)

lemma inv_context: "net_inv W \<Longrightarrow> (\<And>x p. getIOContext (nw_pool W) = Some (x, p) \<Longrightarrow> pool_ok p \<Longrightarrow> thesis) \<Longrightarrow> thesis"
  using getIOContext_ok [of "nw_pool W"] by (auto simp: net_inv_def)

lemma the_tcp_server_cong: "nw_servers W' = nw_servers W \<Longrightarrow> (\<lambda>j. the_tcp_server j W') = (\<lambda>j. the_tcp_server j W)"
  unfolding the_tcp_server_def by presburger

lemma update_entry: "(key, v) \<in> set (AList.update key v al)"
  by (induction al) auto

lemma ran_same_key:
  fixes L :: "nat \<rightharpoonup> CTcpServer"
  assumes "L k = Some sv" "server_key sv' = server_key sv"
  shows "server_key ` ran (L(k \<mapsto> sv')) = server_key ` ran L"
proof -
  have keys: "server_key ` ran M = ran (\<lambda>j. map_option server_key (M j))" for M :: "nat \<rightharpoonup> CTcpServer"
    by (auto simp: ran_def image_iff)
  have "(\<lambda>j. map_option server_key ((L(k \<mapsto> sv')) j)) = (\<lambda>j. map_option server_key (L j))" using assms by auto
  thus ?thesis by (simp only: keys)
qed

lemma other_servers_tcp [simp]: "other_servers (m \<lparr> tcp_service_list := l \<rparr>) = other_servers m"
  by (simp add: other_servers_def)

lemma key_accepting [simp]: "server_key (sv \<lparr> sv_accepting := b \<rparr>) = server_key sv"
  by (simp add: server_key_def)

lemma start_tcp_goes_on:
  assumes "net_inv W" "config_key c \<notin> used_keys W"
  shows "goes_on (nw_tasks W) (insert (config_key c) (used_keys W)) (start_tcp_service True c W)"
proof -
  let ?n = "length (nw_servers W)" and ?L = "\<lambda>k. the_tcp_server k W"
  define sv where "sv = \<lparr> sv_packet_parse_id = io_packet_parse_id c, sv_max_recv_size = io_recv_buff_size c,
       sv_server_ip = io_ip c, sv_server_port = io_port c, sv_acceptor = Acceptor_Open, sv_accepting = False \<rparr>"
  have key: "server_key sv = config_key c" by (simp add: sv_def server_key_def config_key_def)
  obtain x p where p: "getIOContext (nw_pool W) = Some (x, p)" "pool_ok p" using inv_context [OF assms(1)] by blast
  let ?T = "AList.update (server_key sv) ?n (tcp_service_list (nw_manager W))"
  let ?W = "W \<lparr> nw_servers := nw_servers W @ [Tcp_Server (sv \<lparr> sv_accepting := True \<rparr>)], nw_pool := p,
      nw_manager := (nw_manager W) \<lparr> tcp_service_list := ?T \<rparr> \<rparr>"
  have run: "start_tcp_service True c W = Some ?W"
    by (simp add: start_tcp_service_def CTcpServer_ctor_def p tcp_server_start_def the_tcp_server_def do_accept_def set_server_def
        add_accept_net_io_event_def server_key_def Let_def sv_def)
  have L: "(\<lambda>k. the_tcp_server k ?W) = ?L(?n \<mapsto> sv \<lparr> sv_accepting := True \<rparr>)"
    by (auto simp: the_tcp_server_def nth_append fun_eq_iff)
  have new: "tables_view (?L(?n \<mapsto> sv)) (Suc ?n) (other_servers (nw_manager W)) ?T"
    using assms key by (intro view_new view_of) (auto simp: used_keys_def sv_def)
  have "tables_view (?L(?n \<mapsto> sv, ?n \<mapsto> sv \<lparr> sv_accepting := True \<rparr>)) (Suc ?n) (other_servers (nw_manager W)) ?T"
    by (rule view_set [OF new, where sv = sv]) (simp_all add: update_entry, simp add: sv_def)
  hence "tables_ok ?W" unfolding tables_ok_def L by simp
  moreover have "used_keys ?W = insert (config_key c) (used_keys W)"
    unfolding used_keys_def L using view_end [OF view_of [OF assms(1)]] key by (simp add: ran_map_upd)
  ultimately show ?thesis unfolding run by (simp add: net_inv_def p)
qed


lemma accept_goes_on:
  assumes inv: "net_inv W" and sv: "the_tcp_server k W = Some sv" "sv_accepting sv"
  shows "goes_on (nw_tasks W) (used_keys W) (tcp_accept_handler k ec W)"
proof -
  let ?L = "\<lambda>k. the_tcp_server k W" and ?T = "tcp_service_list (nw_manager W)"
  note view = view_of [OF inv]
  have entry: "(server_key sv, k) \<in> set ?T" and k: "k < length (nw_servers W)" "sv_acceptor sv \<noteq> Acceptor_Null"
    using view_accepting [OF view sv] view_server [OF view sv(1)] by auto
  hence ref: "referenced (nw_manager W) k" by (force simp: referenced_def)
  obtain x p where p: "getIOContext (nw_pool W) = Some (x, p)" "pool_ok p" using inv_context [OF inv] by blast
  let ?idle = "set_server k (Tcp_Server (sv \<lparr> sv_accepting := False \<rparr>)) W"
  have idle: "(\<lambda>j. the_tcp_server j ?idle) = ?L(k \<mapsto> sv \<lparr> sv_accepting := False \<rparr>)" by (rule the_tcp_server_set [OF k(1)])
  show ?thesis
  proof (cases ec)
    case True
    let ?W = "send_accept_listen_fail sv ?idle"
    have run: "tcp_accept_handler k ec W = Some ?W" using True ref sv(1) by (simp add: tcp_accept_handler_def Let_def)
    have L: "(\<lambda>j. the_tcp_server j ?W) = ?L(k \<mapsto> sv \<lparr> sv_accepting := False \<rparr>)"
      unfolding send_accept_listen_fail_def using idle by simp
    have "nw_manager ?W = (nw_manager W) \<lparr> tcp_service_list := AList.delete (server_key sv) ?T \<rparr>"
      "nw_pool ?W = nw_pool W" "nw_tasks ?W = nw_tasks W" "length (nw_servers ?W) = length (nw_servers W)"
      by (simp_all add: send_accept_listen_fail_def del_accept_net_io_event_def server_key_def Let_def)
    thus ?thesis using view_remove [OF view sv(1) entry] inv unfolding run
      by (simp add: net_inv_def tables_ok_def L used_keys_def ran_same_key [of ?L, OF sv(1)])
  next
    case False
    let ?W = "set_server k (Tcp_Server sv) (?idle \<lparr> nw_pool := p,
      nw_accepted := nw_accepted W @ [(sv_packet_parse_id sv, sv_max_recv_size sv, x)] \<rparr>)"
    have same: "sv \<lparr> sv_accepting := True \<rparr> = sv" using sv(2) by simp
    have run: "tcp_accept_handler k ec W = Some ?W" using False ref sv(1) k
      by (simp add: tcp_accept_handler_def do_accept_def Let_def p fun_cong [OF idle] same)
    have "(nw_servers W)[k := Tcp_Server sv] = nw_servers W" using sv(1) k(1)
      by (auto simp: the_tcp_server_def list_update_same_conv split: net_server.splits)
    hence "nw_servers ?W = nw_servers W" by (simp add: set_server_def)
    from the_tcp_server_cong [OF this] have L: "(\<lambda>j. the_tcp_server j ?W) = ?L" .
    show ?thesis unfolding run goes_on_Some net_inv_def tables_ok_def used_keys_def L using view p by simp
  qed
qed

lemma other_servers_entered:
  assumes "ty \<in> {CONNECT_IO_UDP, CONNECT_IO_KCP, CONNECT_IO_TTY}"
  shows "other_servers (add_accept_net_io_event ip port ty k m) \<subseteq> insert k (other_servers m)"
    and "tcp_service_list (add_accept_net_io_event ip port ty k m) = tcp_service_list m"
proof -
  have "snd ` set (AList.update key v al) \<subseteq> insert v (snd ` set al)" for key v and al :: "(string \<times> nat) list"
    by (induction al) auto
  thus "other_servers (add_accept_net_io_event ip port ty k m) \<subseteq> insert k (other_servers m)"
    using assms by (fastforce simp: other_servers_def add_accept_net_io_event_def Let_def)
qed (use assms in \<open>auto simp: add_accept_net_io_event_def Let_def\<close>)

lemma start_other_goes_on:
  assumes "net_inv W" "ty \<in> {CONNECT_IO_UDP, CONNECT_IO_KCP, CONNECT_IO_TTY}"
  shows "goes_on (nw_tasks W) (used_keys W) (start_other_service ty ip port W)"
proof -
  let ?n = "length (nw_servers W)"
  obtain x p where p: "getIOContext (nw_pool W) = Some (x, p)" "pool_ok p" using inv_context [OF assms(1)] by blast
  let ?m = "add_accept_net_io_event ip port ty ?n (nw_manager W)"
  let ?W = "W \<lparr> nw_pool := p, nw_servers := nw_servers W @ [Other_Server ty ip port True], nw_manager := ?m \<rparr>"
  have run: "start_other_service ty ip port W = Some ?W" by (simp add: start_other_service_def p)
  have L: "(\<lambda>j. the_tcp_server j ?W) = (\<lambda>j. the_tcp_server j W)" by (auto simp: the_tcp_server_def nth_append fun_eq_iff)
  have "tables_ok ?W" unfolding tables_ok_def L
    using view_new_other [OF view_of [OF assms(1)] other_servers_entered(1) [OF assms(2)]] other_servers_entered(2) [OF assms(2)]
    by simp
  thus ?thesis unfolding run goes_on_Some net_inv_def used_keys_def L using p by simp
qed

lemma close_udp_goes_on:
  assumes "net_inv W" "no_tcp_close c"
  shows "goes_on (nw_tasks W) (used_keys W) (close_service_task c W)"
proof -
  let ?key = "service_key (io_ip c) (io_port c)" and ?U = "udp_service_list (nw_manager W)"
  let ?m = "del_accept_net_io_event (io_ip c) (io_port c) (io_protocol_type c) (nw_manager W)"
  show ?thesis
  proof (cases "map_of ?U ?key")
    case (Some k)
    hence "k \<in> other_servers (nw_manager W)" by (force simp: other_servers_def dest: map_of_SomeD)
    from view_other [OF view_of [OF assms(1)] this] obtain ty ip port b where
      k: "k < length (nw_servers W)" "nw_servers W ! k = Other_Server ty ip port b"
      by (auto simp: the_tcp_server_def split: net_server.splits if_splits)
    let ?W = "set_server k (Other_Server ty ip port False) (W \<lparr> nw_manager := ?m \<rparr>)"
    have run: "close_service_task c W = Some ?W" using assms(2) Some k
      by (simp add: close_service_task_def io_listen_close_def no_tcp_close_def Let_def)
    have L: "(\<lambda>j. the_tcp_server j ?W) = (\<lambda>j. the_tcp_server j W)" using k
      by (auto simp: the_tcp_server_def set_server_def nth_list_update fun_eq_iff)
    have "tcp_service_list ?m = tcp_service_list (nw_manager W)" "other_servers ?m \<subseteq> other_servers (nw_manager W)"
      using assms(2) by (auto simp: del_accept_net_io_event_def no_tcp_close_def other_servers_def Let_def AList.delete_eq)
    hence "tables_ok ?W" using view_fewer [OF view_of [OF assms(1)]] by (simp add: tables_ok_def L)
    thus ?thesis unfolding run using assms(1) by (simp add: net_inv_def used_keys_def L)
  qed (use assms in \<open>simp add: close_service_task_def no_tcp_close_def Let_def\<close>)
qed


text \<open>The start requests of a run that the tasks and events still hold are for new addresses.\<close>

lemma tcp_starts_append [simp]: "tcp_starts (ts @ us) = tcp_starts ts @ tcp_starts us"
  by (induction ts rule: tcp_starts.induct) auto

lemma goes_on_fresh:
  "goes_on ts keys r \<Longrightarrow> starts_fresh es (W \<lparr> nw_tasks := ts \<rparr>) \<Longrightarrow> keys = used_keys W \<Longrightarrow>
   \<exists>W'. r = Some W' \<and> net_inv W' \<and> starts_fresh es W'"
  by (auto simp: goes_on_def starts_fresh_def used_keys_def split: option.splits)

lemma task_goes_on:
  assumes inv: "net_inv W" and fresh: "starts_fresh es W" and tasks: "nw_tasks W = t # ts"
  shows "\<exists>W'. run_net_task True W = Some W' \<and> net_inv W' \<and> starts_fresh es W'"
proof -
  let ?W = "W \<lparr> nw_tasks := ts \<rparr>"
  have inv': "net_inv ?W" and used: "used_keys ?W = used_keys W"
    using inv by (simp_all add: net_inv_def tables_ok_def used_keys_def)
  have t: "net_task_ok t" "\<forall>t \<in> set ts. net_task_ok t" using fresh tasks by (simp_all add: starts_fresh_def)
  have rest: "starts_fresh es ?W" using fresh tasks used
    by (cases t) (auto simp: starts_fresh_def split: if_splits)
  show ?thesis
  proof (cases t)
    case (Start_Service c)
    show ?thesis
    proof (cases "io_protocol_type c = CONNECT_IO_TCP")
      case True
      have "config_key c \<notin> used_keys ?W" "config_key c \<notin> set (tcp_starts ts @ start_requests es)"
        using fresh tasks Start_Service True used by (auto simp: starts_fresh_def)
      with start_tcp_goes_on [OF inv' this(1)] rest show ?thesis using tasks Start_Service True
        by (auto simp: run_net_task_def goes_on_def starts_fresh_def split: option.splits)
    next
      case False
      thus ?thesis using goes_on_fresh [OF start_other_goes_on [OF inv', of CONNECT_IO_UDP], of es ?W] rest tasks Start_Service
        by (simp add: run_net_task_def)
    qed
  next
    case (Close_Service c)
    thus ?thesis using goes_on_fresh [OF close_udp_goes_on [OF inv'], of c es ?W] rest tasks t
      by (simp add: run_net_task_def net_task_ok_def)
  qed
qed

lemma step_goes_on:
  assumes inv: "net_inv W" and fresh: "starts_fresh (e # es) W" and ok: "event_ok e"
  shows "\<exists>W'. net_step e W = Some W' \<and> net_inv W' \<and> starts_fresh es W'"
proof (cases e)
  case (N_Accept k ec)
  hence rest: "starts_fresh es W" using fresh by (simp add: starts_fresh_def)
  show ?thesis
  proof (cases "the_tcp_server k W")
    case (Some sv)
    show ?thesis using N_Accept Some inv rest goes_on_fresh [OF accept_goes_on [OF inv Some, of ec], of es W]
      by (cases "sv_accepting sv") simp_all
  qed (use N_Accept inv rest in simp)
next
  case (N_Start c)
  have "net_inv (start_single_service c W)" using inv
    by (simp add: start_single_service_def Let_def net_inv_def tables_ok_def)
  moreover have "used_keys (start_single_service c W) = used_keys W" by (simp add: start_single_service_def Let_def used_keys_def)
  ultimately show ?thesis using N_Start fresh
    by (auto simp: starts_fresh_def start_single_service_def net_task_ok_def Let_def)
next
  case (N_Close c)
  have "net_inv (close_single_service c W)" "used_keys (close_single_service c W) = used_keys W" using inv
    by (simp_all add: close_single_service_def net_inv_def tables_ok_def used_keys_def)
  thus ?thesis using N_Close fresh ok
    by (auto simp: starts_fresh_def close_single_service_def net_task_ok_def event_ok_def)
next
  case (N_Task b)
  hence "b" "starts_fresh es W" using fresh ok by (simp_all add: starts_fresh_def event_ok_def)
  thus ?thesis using task_goes_on [OF inv] N_Task inv by (cases "nw_tasks W") (simp_all add: run_net_task_def)
qed


lemma run_goes_on:
  "net_inv W \<Longrightarrow> starts_fresh es W \<Longrightarrow> \<forall>e \<in> set es. event_ok e \<Longrightarrow> \<exists>W'. net_run es W = Some W' \<and> net_inv W'"
proof (induction es arbitrary: W)
  case (Cons e es)
  from step_goes_on [OF Cons.prems(1,2)] Cons.prems(3) obtain W1 where
    "net_step e W = Some W1" "net_inv W1" "starts_fresh es W1" by auto
  with Cons.IH [of W1] Cons.prems(3) show ?case by simp
qed simp

lemma start_world_inv: "2 \<le> n \<Longrightarrow> net_inv (net_start_world n w)"
  by (simp add: net_inv_def net_start_world_def pool_ok_def tables_ok_def tables_view_def other_servers_def the_tcp_server_def)

lemma start_world_fresh: "distinct (start_requests es) \<Longrightarrow> starts_fresh es (net_start_world n w)"
  by (simp add: starts_fresh_def net_start_world_def used_keys_def the_tcp_server_def ran_def)

text \<open>
  C13.  With at least two contexts, a server whose plugins start services at run time, each
  address once and successfully, and close none of the TCP ones, runs through every
  interleaving of requests, tasks, accepted connections and accept errors without
  touching a null acceptor, a destroyed listener or a context that does not exist.
  The pointers in the tables keep their types: the table of TCP services holds TCP
  listeners, each under the key of its own address, and the other tables hold none;
  and every listener with an outstanding \<open>async_accept\<close> is still in its table.
\<close>

theorem listeners_never_undefined:
  assumes "2 \<le> n" "\<forall>e \<in> set es. event_ok e" "distinct (start_requests es)"
  shows "\<exists>W. net_run es (net_start_world n w) = Some W \<and>
    (\<forall>(key, k) \<in> set (tcp_service_list (nw_manager W)). \<exists>sv. the_tcp_server k W = Some sv \<and> server_key sv = key) \<and>
    (\<forall>k \<in> other_servers (nw_manager W). the_tcp_server k W = None) \<and>
    (\<forall>k sv. the_tcp_server k W = Some sv \<and> sv_accepting sv \<longrightarrow>
       map_of (tcp_service_list (nw_manager W)) (server_key sv) = Some k)"
proof -
  obtain W where W: "net_run es (net_start_world n w) = Some W" "net_inv W"
    using run_goes_on [OF start_world_inv start_world_fresh] assms by blast
  note view = view_of [OF W(2)]
  have "map_of (tcp_service_list (nw_manager W)) (server_key sv) = Some k"
    if "the_tcp_server k W = Some sv" "sv_accepting sv" for k sv
    using view_accepting [OF view that] view_distinct [OF view] by simp
  thus ?thesis using W(1) view_entry [OF view] view_other [OF view] by (intro exI [of _ W]) auto
qed

theorem listeners_never_undefined_witness:
  "\<exists>W. net_run [N_Start (netio CONNECT_IO_TCP 80), N_Start (netio CONNECT_IO_UDP 81), N_Task True, N_Accept 0 False,
      N_Task True, N_Close (netio CONNECT_IO_UDP 81), N_Task True, N_Accept 0 True] (net_start_world 2 echo_server) = Some W"
  using listeners_never_undefined [of 2 "[N_Start (netio CONNECT_IO_TCP 80), N_Start (netio CONNECT_IO_UDP 81), N_Task True,
      N_Accept 0 False, N_Task True, N_Close (netio CONNECT_IO_UDP 81), N_Task True, N_Accept 0 True]" echo_server]
  by (simp add: netio_def event_ok_def no_tcp_close_def) blast

text \<open>
  C39.  Closing a TCP service while it accepts, which it does all the time: the task takes
  the listener out of the table and closes it, and when the task ends the listener is
  destroyed; the handler of the \<open>async_accept\<close> that the closing cancels then works on
  a destroyed object.
\<close>

theorem closed_listener_used_after_free:
  assumes "net_inv W" "io_protocol_type c = CONNECT_IO_TCP" "nw_tasks W = Close_Service c # ts"
    "the_tcp_server k W = Some sv" "sv_accepting sv" "server_key sv = config_key c"
  shows "\<exists>W'. run_net_task bound W = Some W' \<and> (\<forall>ec. net_step (N_Accept k ec) W' = None)"
proof -
  note view = view_of [OF assms(1)]
  let ?T = "tcp_service_list (nw_manager W)" and ?sv = "sv \<lparr> sv_acceptor := Acceptor_Closed \<rparr>"
  have entry: "(config_key c, k) \<in> set ?T" using view_accepting [OF view assms(4,5)] assms(6) by simp
  hence found: "map_of ?T (config_key c) = Some k" using view_distinct [OF view] by simp
  have k: "k < length (nw_servers W)" "sv_acceptor sv \<noteq> Acceptor_Null" using view_server [OF view assms(4)] by auto
  have tcp: "nw_servers W ! k = Tcp_Server sv"
    using assms(4) k(1) by (auto simp: the_tcp_server_def split: net_server.splits)
  let ?m = "(nw_manager W) \<lparr> tcp_service_list := AList.delete (config_key c) ?T \<rparr>"
  let ?W = "set_server k (Tcp_Server ?sv) (W \<lparr> nw_tasks := ts, nw_manager := ?m \<rparr>)"
  have run: "run_net_task bound W = Some ?W" using assms(2-4) found k tcp
    by (simp add: run_net_task_def close_service_task_def io_listen_close_def tcp_server_close_def Let_def config_key_def
        del_accept_net_io_event_def)
  have "(key, k) \<in> set ?T \<Longrightarrow> key = config_key c" for key using view_entry [OF view, of key k] assms(4,6) by auto
  moreover have "k \<notin> other_servers (nw_manager W)" using view_other [OF view, of k] assms(4) by auto
  ultimately have "\<not> referenced ?m k" by (auto simp: referenced_def other_servers_def AList.delete_eq image_iff)
  moreover have "the_tcp_server k ?W = Some ?sv" using k(1) by (simp add: the_tcp_server_def set_server_def)
  ultimately have "net_step (N_Accept k ec) ?W = None" for ec using assms(5) by (simp add: tcp_accept_handler_def)
  thus ?thesis using run by blast
qed

lemma listening_world_inv: "net_inv (listening_world ts)"
  by (simp add: listening_world_def net_start_world_def net_inv_def pool_ok_def tables_ok_def tables_view_def other_servers_def
      the_tcp_server_def server_key_def listener_def)

theorem closed_listener_used_after_free_witness:
  "\<exists>W'. run_net_task True (listening_world [Close_Service (netio CONNECT_IO_TCP 80)]) = Some W' \<and>
     (\<forall>ec. net_step (N_Accept 0 ec) W' = None)"
  by (rule closed_listener_used_after_free [OF listening_world_inv, where sv = listener and c = "netio CONNECT_IO_TCP 80"])
    (simp_all add: listener_def listening_world_def net_start_world_def the_tcp_server_def netio_def server_key_def config_key_def)

text \<open>
  Two requests to start the same TCP service, the second before the task of the first
  has run: both are accepted, because the table is only looked at when the request is
  made.  The second listener cannot be bound, since the first one listens there; its
  constructor only logs that, and starting it dereferences the null acceptor.
\<close>

theorem second_start_dereferences_null:
  assumes "net_inv W" "io_protocol_type c = CONNECT_IO_TCP" "nw_tasks W = []" "config_key c \<notin> used_keys W"
  shows "\<exists>W'. net_run [N_Start c, N_Start c, N_Task True] W = Some W' \<and> net_step (N_Task False) W' = None"
proof -
  let ?W = "W \<lparr> nw_tasks := [Start_Service c, Start_Service c] \<rparr>" and ?W1 = "W \<lparr> nw_tasks := [Start_Service c] \<rparr>"
  have "config_key c \<notin> fst ` set (tcp_service_list (nw_manager W))"
    using assms(4) view_entry [OF view_of [OF assms(1)]] by (fastforce simp: used_keys_def ran_def)
  hence "map_of (tcp_service_list (nw_manager W)) (config_key c) = None" by (simp add: map_of_eq_None_iff)
  hence start: "net_run [N_Start c, N_Start c] W = Some ?W" using assms(2,3)
    by (simp add: start_single_service_def Let_def config_key_def)
  have "net_inv ?W1" "config_key c \<notin> used_keys ?W1" using assms(1,4) by (simp_all add: net_inv_def tables_ok_def used_keys_def)
  from start_tcp_goes_on [OF this] obtain W2 where W2: "start_tcp_service True c ?W1 = Some W2" "net_inv W2" "nw_tasks W2 = [Start_Service c]"
    by (auto simp: goes_on_def split: option.splits)
  obtain x p where "getIOContext (nw_pool W2) = Some (x, p)" using inv_context [OF W2(2)] by blast
  hence "net_step (N_Task False) W2 = None" using W2(3) assms(2)
    by (simp add: run_net_task_def start_tcp_service_def CTcpServer_ctor_def tcp_server_start_def do_accept_def the_tcp_server_def Let_def)
  moreover have "net_run [N_Start c, N_Start c, N_Task True] W = Some W2"
    using start W2(1) assms(2) by (simp add: run_net_task_def)
  ultimately show ?thesis by blast
qed

theorem second_start_dereferences_null_witness:
  "\<exists>W'. net_run [N_Start (netio CONNECT_IO_TCP 80), N_Start (netio CONNECT_IO_TCP 80), N_Task True] (net_start_world 2 echo_server) = Some W' \<and>
     net_step (N_Task False) W' = None"
  by (rule second_start_dereferences_null [OF start_world_inv])
    (simp_all add: netio_def net_start_world_def used_keys_def the_tcp_server_def ran_def)


subsection \<open>Shutting down\<close>

lemma listen_close_closes:
  assumes "net_inv W" "k < length (nw_servers W)"
  shows "\<exists>W'. io_listen_close k W = Some W' \<and> net_inv W' \<and> nw_manager W' = nw_manager W \<and>
    length (nw_servers W') = length (nw_servers W) \<and> insert k (closed_now W) \<subseteq> closed_now W' \<and> accepting W' = accepting W"
proof (cases "nw_servers W ! k")
  case (Tcp_Server sv)
  let ?sv = "sv \<lparr> sv_acceptor := Acceptor_Closed \<rparr>" and ?L = "\<lambda>j. the_tcp_server j W"
  let ?W = "set_server k (Tcp_Server ?sv) W"
  have sv: "the_tcp_server k W = Some sv" using assms(2) Tcp_Server by (simp add: the_tcp_server_def)
  note view = view_of [OF assms(1)]
  have run: "io_listen_close k W = Some ?W" using assms(2) Tcp_Server sv view_server [OF view sv]
    by (simp add: io_listen_close_def tcp_server_close_def)
  have L: "(\<lambda>j. the_tcp_server j ?W) = ?L(k \<mapsto> ?sv)" by (rule the_tcp_server_set [OF assms(2)])
  have "tables_view (?L(k \<mapsto> ?sv)) (length (nw_servers W)) (other_servers (nw_manager W)) (tcp_service_list (nw_manager W))"
    by (rule view_set [OF view sv]) (auto simp: server_key_def dest: view_accepting [OF view sv])
  hence "net_inv ?W" unfolding net_inv_def tables_ok_def L using assms(1) by (simp add: net_inv_def)
  moreover have "accepting ?W = accepting W" using sv fun_cong [OF L] by (auto simp: accepting_def split: if_splits)
  ultimately show ?thesis unfolding run using assms(2)
    by (auto simp: closed_now_def set_server_def is_closed_def nth_list_update)
next
  case (Other_Server ty ip port b)
  let ?W = "set_server k (Other_Server ty ip port False) W"
  have L: "(\<lambda>j. the_tcp_server j ?W) = (\<lambda>j. the_tcp_server j W)" using assms(2) Other_Server
    by (auto simp: the_tcp_server_def set_server_def nth_list_update fun_eq_iff)
  have "net_inv ?W" unfolding net_inv_def tables_ok_def L using assms(1) by (simp add: net_inv_def tables_ok_def)
  thus ?thesis using assms(2) Other_Server fun_cong [OF L]
    by (auto simp: io_listen_close_def closed_now_def set_server_def is_closed_def nth_list_update accepting_def)
qed

lemma close_list_closes:
  "net_inv W \<Longrightarrow> \<forall>k \<in> set ks. k < length (nw_servers W) \<Longrightarrow>
   \<exists>W'. close_accept_list ks W = Some W' \<and> net_inv W' \<and> nw_manager W' = nw_manager W \<and>
     length (nw_servers W') = length (nw_servers W) \<and> set ks \<union> closed_now W \<subseteq> closed_now W' \<and> accepting W' = accepting W"
proof (induction ks arbitrary: W)
  case (Cons k ks)
  from listen_close_closes [OF Cons.prems(1), of k] Cons.prems(2) obtain W1 where W1: "io_listen_close k W = Some W1" "net_inv W1"
    "nw_manager W1 = nw_manager W" "length (nw_servers W1) = length (nw_servers W)" "insert k (closed_now W) \<subseteq> closed_now W1"
    "accepting W1 = accepting W" by auto
  with Cons.IH [of W1] Cons.prems(2) show ?case by (auto simp: subset_iff)
qed simp


lemma accept_error_effect:
  assumes "net_inv W" "k \<in> accepting W"
  shows "\<exists>W'. tcp_accept_handler k True W = Some W' \<and> net_inv W' \<and> accepting W' = accepting W - {k} \<and> closed_now W' = closed_now W"
proof -
  obtain sv where sv: "the_tcp_server k W = Some sv" "sv_accepting sv" using assms(2) by (auto simp: accepting_def)
  obtain W' where W': "tcp_accept_handler k True W = Some W'" "net_inv W'"
    using accept_goes_on [OF assms(1) sv, of True] by (auto simp: goes_on_def split: option.splits)
  have k: "k < length (nw_servers W)" "nw_servers W ! k = Tcp_Server sv"
    using sv(1) by (auto simp: the_tcp_server_def split: if_splits net_server.splits)
  have servers: "nw_servers W' = (nw_servers W)[k := Tcp_Server (sv \<lparr> sv_accepting := False \<rparr>)]"
    using W'(1) sv(1) by (auto simp: tcp_accept_handler_def send_accept_listen_fail_def set_server_def Let_def split: if_splits)
  have "accepting W' = accepting W - {k}" using servers k
    by (auto simp: accepting_def the_tcp_server_def nth_list_update split: if_splits)
  moreover have "closed_now W' = closed_now W" using servers k
    by (auto simp: closed_now_def nth_list_update is_closed_def split: if_splits)
  ultimately show ?thesis using W' by blast
qed

lemma accept_errors_effect:
  "net_inv W \<Longrightarrow> distinct ks \<Longrightarrow> set ks \<subseteq> accepting W \<Longrightarrow>
   \<exists>W'. run_accept_errors ks W = Some W' \<and> net_inv W' \<and> accepting W' = accepting W - set ks \<and> closed_now W' = closed_now W"
proof (induction ks arbitrary: W)
  case (Cons k ks)
  from accept_error_effect [OF Cons.prems(1), of k] Cons.prems(3) obtain W1 where W1: "tcp_accept_handler k True W = Some W1"
    "net_inv W1" "accepting W1 = accepting W - {k}" "closed_now W1 = closed_now W" by auto
  moreover from Cons.IH [OF W1(2)] W1(3,4) Cons.prems(2,3) obtain W2 where "run_accept_errors ks W1 = Some W2" "net_inv W2"
    "accepting W2 = accepting W - {k} - set ks" "closed_now W2 = closed_now W" by auto
  ultimately show ?case by auto
qed simp

lemma close_accept_list_append:
  "close_accept_list (ks @ ls) W = close_accept_list ks W \<bind> close_accept_list ls"
  by (induction ks arbitrary: W) (simp_all split: option.split)

lemma referenced_in_tables:
  assumes "net_inv W" "referenced (nw_manager W) k" shows "k < length (nw_servers W)"
  using assms(2) view_entry [OF view_of [OF assms(1)]] view_server [OF view_of [OF assms(1)]] view_other [OF view_of [OF assms(1)]]
  by (fastforce simp: referenced_def other_servers_def)

text \<open>
  When the handlers of all listeners run while \<open>close_all_service\<close> sleeps, it ends
  with every registered server of every protocol closed, the tables of TCP, UDP and
  KCP empty and no handler outstanding, so that none can run on a destroyed listener.
\<close>

lemma close_all_closes:
  assumes "net_inv W" "distinct handlers" "set handlers = accepting W"
  shows "\<exists>W'. close_all_service handlers W = Some W' \<and> (\<forall>k. referenced (nw_manager W) k \<longrightarrow> is_closed (nw_servers W' ! k)) \<and>
    accepting W' = {} \<and>
    tcp_service_list (nw_manager W') = [] \<and> udp_service_list (nw_manager W') = [] \<and> kcp_service_list (nw_manager W') = []"
proof -
  let ?m = "nw_manager W"
  let ?ks = "map snd (tcp_service_list ?m @ kcp_service_list ?m @ udp_service_list ?m @ tty_service_list ?m)"
  have ks: "set ?ks = Collect (referenced ?m)" unfolding referenced_def by (simp add: Un_ac Collect_disj_eq)
  have "\<forall>k \<in> set ?ks. k < length (nw_servers W)" unfolding ks using referenced_in_tables [OF assms(1)] by blast
  then obtain W1 where W1: "close_accept_list ?ks W = Some W1" "net_inv W1" "set ?ks \<subseteq> closed_now W1" "accepting W1 = accepting W"
    using close_list_closes [OF assms(1), of ?ks] by blast
  obtain W2 where W2: "run_accept_errors handlers W1 = Some W2" "accepting W2 = {}" "closed_now W2 = closed_now W1"
    using accept_errors_effect [OF W1(2) assms(2)] assms(3) W1(4) by auto
  let ?W = "W2 \<lparr> nw_manager := (nw_manager W2) \<lparr> tcp_service_list := [], kcp_service_list := [], udp_service_list := [] \<rparr> \<rparr>"
  have "close_all_service handlers W = (close_accept_list ?ks W \<bind> run_accept_errors handlers \<bind> (\<lambda>W. Some (W \<lparr> nw_manager :=
      (nw_manager W) \<lparr> tcp_service_list := [], kcp_service_list := [], udp_service_list := [] \<rparr> \<rparr>)))"
    by (simp only: close_all_service_def Let_def map_append close_accept_list_append bind_assoc)
  hence run: "close_all_service handlers W = Some ?W" by (simp only: W1(1) W2(1) bind.bind_lunit)
  have "referenced ?m k \<Longrightarrow> k \<in> closed_now W2" for k using W1(3) unfolding ks W2(3) by blast
  hence "referenced ?m k \<Longrightarrow> is_closed (nw_servers ?W ! k)" for k by (simp add: closed_now_def)
  moreover have "accepting ?W = {}" using W2(2) the_tcp_server_cong [of ?W W2] by (simp add: accepting_def fun_eq_iff)
  ultimately show ?thesis using run by (intro exI [of _ ?W]) simp
qed

end
