(* ===== verification/Udp_Server.thy ===== *)
theory Udp_Server
  imports Net_Services
begin

text \<open>
  The UDP server: one socket and one receive buffer for all clients.  A client is
  known by its end point, which \<open>udp_endpoint_2_id_list_\<close> maps to a connection id, and
  by that id, which \<open>udp_id_2_endpoint_list_\<close> maps to its send buffer and bridge state.

  The outstanding \<open>async_receive_from\<close> is \<open>us_receiving\<close>, with the size it was given;
  the datagrams handed to the socket are \<open>us_sending\<close>.  End points are addresses with a
  port.  \<open>None\<close> is undefined behaviour, as in \<open>Tcp_Session\<close>.
\<close>


section \<open>The UDP server (UdpSession/UdpServer)\<close>


subsection \<open>Definitions\<close>

datatype EM_UDP_VALID = UDP_INVALUD | UDP_VALUD

record CUdp_Session_Info =
  ui_connect_id :: u32
  ui_io_bridge_connect_id :: u32
  ui_io_state :: EM_SESSION_STATE
  ui_send_endpoint :: ClientIPInfo
  ui_recv_data_size :: u64
  ui_send_data_size :: u64
  ui_send_buffer :: CSessionBuffer
  ui_udp_state :: EM_UDP_VALID

record CUdpServer =
  us_id_2_endpoint :: "u32 \<rightharpoonup> CUdp_Session_Info"
  us_endpoint_2_id :: "ClientIPInfo \<rightharpoonup> u32"
  us_recv_buffer :: CSessionBuffer
  us_max_send_size :: nat
  us_recv_time :: int
  us_cid_recv_time :: "u32 \<rightharpoonup> int"
  us_io_type :: EM_CONNECT_IO_TYPE
  us_connect_client_id :: u32
  us_server_ip :: string
  us_server_port :: u16
  us_local_ip :: ClientIPInfo
  us_open :: bool
  us_receiving :: "nat option"
  us_sending :: "(u32 \<times> ClientIPInfo \<times> bytes) list"

record ('s, 'p) udp_world =
  uw_server :: CUdpServer
  uw_parser :: 'p
  uw_logic :: "'s CWorkThreadLogic"
  uw_counter :: u32

text \<open>
  The constructor, with the memory of the receive buffer and what the socket calls
  give: whether the socket is open, and its local address.  Their errors are logged.
\<close>

definition CUdpServer_ctor :: "bytes \<Rightarrow> nat \<Rightarrow> string \<Rightarrow> u16 \<Rightarrow> bool \<Rightarrow> ClientIPInfo \<Rightarrow> int \<Rightarrow> CUdpServer" where
  "CUdpServer_ctor mem max_send_size server_ip server_port opened local_ip now = \<lparr> us_id_2_endpoint = Map.empty, us_endpoint_2_id = Map.empty,
     us_recv_buffer = Init mem, us_max_send_size = max_send_size, us_recv_time = now, us_cid_recv_time = Map.empty,
     us_io_type = CONNECT_IO_UDP, us_connect_client_id = 0, us_server_ip = server_ip, us_server_port = server_port,
     us_local_ip = local_ip, us_open = opened, us_receiving = None, us_sending = [] \<rparr>"

definition udp_do_receive :: "CUdpServer \<Rightarrow> CUdpServer" where
  "udp_do_receive u = u \<lparr> us_receiving := Some (get_buffer_size (us_recv_buffer u)) \<rparr>"

definition udp_get_remote_ip :: "u32 \<Rightarrow> CUdpServer \<Rightarrow> ClientIPInfo" where
  "udp_get_remote_ip connect_id u =
    (case us_id_2_endpoint u connect_id of Some i \<Rightarrow> ui_send_endpoint i | None \<Rightarrow> ClientIPInfo_default)"

definition set_listen_error_event :: "('s, 'p) udp_world \<Rightarrow> ('s, 'p) udp_world" where
  "set_listen_error_event U = U \<lparr> uw_logic := add_frame_events LOGIC_LISTEN_SERVER_ERROR 0 (us_server_ip (uw_server U))
     (us_server_port (uw_server U)) CONNECT_IO_UDP (uw_logic U) \<rparr>"

text \<open>The id of an end point, and whether it is new; \<open>mem\<close> is the memory of the send buffer of a new one.\<close>

definition check_udp_endpoint_list ::
  "ClientIPInfo \<Rightarrow> nat \<Rightarrow> bytes \<Rightarrow> u32 \<Rightarrow> CUdpServer \<Rightarrow> (u32 \<times> bool) \<times> u32 \<times> CUdpServer" where
  "check_udp_endpoint_list recv_endpoint len mem counter u =
    (case us_endpoint_2_id u recv_endpoint of
       Some c \<Rightarrow> ((c, False), counter, u)
     | None \<Rightarrow>
         let (connect_id, counter) = CreateCounter counter;
             session_info = \<lparr> ui_connect_id = connect_id, ui_io_bridge_connect_id = 0, ui_io_state = SESSION_IO_LOGIC,
               ui_send_endpoint = recv_endpoint, ui_recv_data_size = of_nat len, ui_send_data_size = 0,
               ui_send_buffer = Init mem, ui_udp_state = UDP_VALUD \<rparr> in
         ((connect_id, True), counter,
          u \<lparr> us_endpoint_2_id := (us_endpoint_2_id u)(recv_endpoint \<mapsto> connect_id),
              us_id_2_endpoint := (us_id_2_endpoint u)(connect_id \<mapsto> session_info) \<rparr>))"

text \<open>\<open>local_endpoint\<close> throws when the socket is closed: the inner \<open>None\<close>, which \<open>do_receive_from\<close> catches.\<close>

definition add_udp_endpoint ::
  "'s session_ops \<Rightarrow> 'p packet_parse \<Rightarrow> 's \<Rightarrow> ClientIPInfo \<Rightarrow> nat \<Rightarrow> bytes \<Rightarrow> ('s, 'p) udp_world \<Rightarrow>
   (u32 option \<times> ('s, 'p) udp_world) option" where
  "add_udp_endpoint S pk self recv_endpoint len mem U =
    (case check_udp_endpoint_list recv_endpoint len mem (uw_counter U) (uw_server U) of
       ((c, is_new), counter, u) \<Rightarrow>
         let U = U \<lparr> uw_server := u, uw_counter := counter \<rparr> in
         if \<not> is_new then Some (Some c, U)
         else if \<not> us_open u then Some (None, U)
         else do {
           let p = pk_connect pk c recv_endpoint (us_local_ip u) (us_io_type u) (uw_parser U);
           w \<leftarrow> add_thread_session S c self (us_local_ip u) recv_endpoint (uw_logic U);
           Some (Some c, U \<lparr> uw_parser := p, uw_logic := w \<rparr>) })"

definition find_udp_endpoint_by_id :: "u32 \<Rightarrow> CUdpServer \<Rightarrow> CUdp_Session_Info option" where
  "find_udp_endpoint_by_id connect_id u = us_id_2_endpoint u connect_id"

definition udp_set_session :: "u32 \<Rightarrow> CUdp_Session_Info \<Rightarrow> CUdpServer \<Rightarrow> CUdpServer" where
  "udp_set_session connect_id i u = u \<lparr> us_id_2_endpoint := (us_id_2_endpoint u)(connect_id \<mapsto> i) \<rparr>"

definition udp_touch :: "int \<Rightarrow> u32 \<Rightarrow> CUdpServer \<Rightarrow> CUdpServer" where
  "udp_touch now connect_id u =
     u \<lparr> us_recv_time := now, us_cid_recv_time := (us_cid_recv_time u)(connect_id \<mapsto> now) \<rparr>"

definition udp_drop :: "nat \<Rightarrow> CUdpServer \<Rightarrow> CUdpServer" where
  "udp_drop len u = u \<lparr> us_recv_buffer := move_buffer len (us_recv_buffer u) \<rparr>"

text \<open>The data of a datagram handed to the bridge, or to the parser and the dispatcher.\<close>

definition udp_bridge_data ::
  "'s session_ops \<Rightarrow> 's \<Rightarrow> int \<Rightarrow> u32 \<Rightarrow> CUdp_Session_Info \<Rightarrow> nat \<Rightarrow> ('s, 'p) udp_world \<Rightarrow> ('s, 'p) udp_world option" where
  "udp_bridge_data S self now connect_id i len U = do {
     let u = udp_touch now connect_id (uw_server U);
     (ret, sb, w) \<leftarrow> do_io_bridge_data S (ui_connect_id i) (ui_io_bridge_connect_id i) (us_recv_buffer u) len self (uw_logic U);
     let u = u \<lparr> us_recv_buffer := sb \<rparr>;
     Some (U \<lparr> uw_logic := w, uw_server := if ret = 1
       then udp_set_session connect_id (i \<lparr> ui_io_bridge_connect_id := 0, ui_io_state := SESSION_IO_LOGIC \<rparr>) u else u \<rparr>) }"

definition udp_parse_data ::
  "'s session_ops \<Rightarrow> 'p packet_parse \<Rightarrow> 's \<Rightarrow> int \<Rightarrow> u32 \<Rightarrow> nat \<Rightarrow> ('s, 'p) udp_world \<Rightarrow> ('s, 'p) udp_world option" where
  "udp_parse_data S pk self now connect_id len U = do {
     let u = uw_server U;
     (ret, sb, message_list, p) \<leftarrow> pk_from_recv_buffer pk (us_connect_client_id u) (us_recv_buffer u) (us_io_type u) (uw_parser U);
     let u = u \<lparr> us_recv_buffer := sb \<rparr>;
     if \<not> ret then do {
       w \<leftarrow> close_session_event connect_id (Some self) (uw_logic U);
       Some (U \<lparr> uw_parser := p, uw_logic := w, uw_server := udp_drop len u \<rparr>) }
     else do {
       w \<leftarrow> assignation_thread_module_logic S connect_id message_list self (uw_logic U);
       Some (U \<lparr> uw_parser := p, uw_logic := w, uw_server := udp_touch now connect_id u \<rparr>) } }"

text \<open>A received datagram; asio has put its bytes at the write position.\<close>

definition udp_receive_data ::
  "'s session_ops \<Rightarrow> 'p packet_parse \<Rightarrow> 's \<Rightarrow> int \<Rightarrow> u32 \<Rightarrow> nat \<Rightarrow> ('s, 'p) udp_world \<Rightarrow> ('s, 'p) udp_world option" where
  "udp_receive_data S pk self now connect_id len U =
    (if get_buffer_size (us_recv_buffer (uw_server U)) = 0 then do {
       w \<leftarrow> close_session_event connect_id (Some self) (uw_logic U);
       Some (U \<lparr> uw_logic := w, uw_server := udp_do_receive (udp_drop len (uw_server U)) \<rparr>) }
     else do {
       let U = U \<lparr> uw_server := (uw_server U) \<lparr> us_recv_buffer := snd (set_write_data len (us_recv_buffer (uw_server U))) \<rparr> \<rparr>;
       U \<leftarrow> (case find_udp_endpoint_by_id connect_id (uw_server U) of
               Some i \<Rightarrow> if ui_io_state i = SESSION_IO_BRIDGE then udp_bridge_data S self now connect_id i len U
                 else udp_parse_data S pk self now connect_id len U
             | None \<Rightarrow> udp_parse_data S pk self now connect_id len U);
       Some (U \<lparr> uw_server := udp_do_receive (udp_drop len (uw_server U)) \<rparr>) })"

definition udp_do_receive_from ::
  "'s session_ops \<Rightarrow> 'p packet_parse \<Rightarrow> 's \<Rightarrow> int \<Rightarrow> ClientIPInfo \<Rightarrow> bytes \<Rightarrow> bytes \<Rightarrow> ('s, 'p) udp_world \<Rightarrow> ('s, 'p) udp_world option" where
  "udp_do_receive_from S pk self now recv_endpoint data mem U = do {
     sb \<leftarrow> write_memory (get_curr_write_ptr (us_recv_buffer (uw_server U))) data (us_recv_buffer (uw_server U));
     (connect_id, U) \<leftarrow> add_udp_endpoint S pk self recv_endpoint (length data) mem
       (U \<lparr> uw_server := (uw_server U) \<lparr> us_recv_buffer := sb \<rparr> \<rparr>);
     (case connect_id of
        None \<Rightarrow> Some U
      | Some c \<Rightarrow> if length data > 0 then udp_receive_data S pk self now c (length data) U else Some U) }"

definition udp_do_receive_data_logic ::
  "'s session_ops \<Rightarrow> 'p packet_parse \<Rightarrow> 's \<Rightarrow> int \<Rightarrow> ClientIPInfo \<Rightarrow> bytes option \<Rightarrow> bytes \<Rightarrow> ('s, 'p) udp_world \<Rightarrow>
   ('s, 'p) udp_world option" where
  "udp_do_receive_data_logic S pk self now recv_endpoint received mem U =
    (case received of
       Some data \<Rightarrow> udp_do_receive_from S pk self now recv_endpoint data mem U
     | None \<Rightarrow> Some (set_listen_error_event U))"

definition close_udp_endpoint_by_id ::
  "'s session_ops \<Rightarrow> 'p packet_parse \<Rightarrow> 's \<Rightarrow> u32 \<Rightarrow> ('s, 'p) udp_world \<Rightarrow> ('s, 'p) udp_world option" where
  "close_udp_endpoint_by_id S pk self connect_id U =
    (let u = uw_server U in
     if \<not> us_open u then Some U
     else do {
       U \<leftarrow> (case us_id_2_endpoint u connect_id of
               None \<Rightarrow> Some U
             | Some i \<Rightarrow> do {
                 let p = pk_disconnect pk connect_id (us_io_type u) (uw_parser U);
                 w \<leftarrow> delete_thread_session S connect_id self (ui_send_endpoint i) (us_io_type u) (uw_logic U);
                 Some (U \<lparr> uw_parser := p, uw_logic := w,
                   uw_server := u \<lparr> us_id_2_endpoint := (us_id_2_endpoint u)(connect_id := None),
                     us_endpoint_2_id := (us_endpoint_2_id u)(ui_send_endpoint i := None) \<rparr> \<rparr>) });
       Some (U \<lparr> uw_server := (uw_server U) \<lparr> us_cid_recv_time := (us_cid_recv_time (uw_server U))(connect_id := None) \<rparr> \<rparr>) })"

text \<open>\<open>close_server\<close> goes through the clients in the order of the map; \<open>u\<close> is the server before the tables are cleared.\<close>

fun udp_delete_sessions ::
  "'s session_ops \<Rightarrow> 's \<Rightarrow> CUdpServer \<Rightarrow> u32 list \<Rightarrow> 's CWorkThreadLogic \<Rightarrow> 's CWorkThreadLogic option" where
  "udp_delete_sessions S self u [] w = Some w"
| "udp_delete_sessions S self u (c # ids) w =
    (case delete_thread_session S c self (udp_get_remote_ip c u) (us_io_type u) w of
       None \<Rightarrow> None | Some w \<Rightarrow> udp_delete_sessions S self u ids w)"

definition udp_close_server ::
  "'s session_ops \<Rightarrow> 'p packet_parse \<Rightarrow> 's \<Rightarrow> ('s, 'p) udp_world \<Rightarrow> ('s, 'p) udp_world option" where
  "udp_close_server S pk self U =
    (let u = uw_server U in
     if \<not> us_open u then Some U
     else do {
       let ids = sorted_list_of_set (dom (us_id_2_endpoint u));
       let p = fold (\<lambda>c. pk_disconnect pk c (us_io_type u)) ids (uw_parser U);
       w \<leftarrow> udp_delete_sessions S self u ids (uw_logic U);
       Some (U \<lparr> uw_parser := p, uw_logic := w, uw_server := u \<lparr> us_id_2_endpoint := Map.empty,
         us_endpoint_2_id := Map.empty, us_open := False \<rparr> \<rparr>) })"

definition udp_set_write_buffer :: "u32 \<Rightarrow> bytes \<Rightarrow> CUdpServer \<Rightarrow> CUdpServer option" where
  "udp_set_write_buffer connect_id data u =
    (case find_udp_endpoint_by_id connect_id u of
       None \<Rightarrow> Some u
     | Some i \<Rightarrow>
         if get_buffer_size (ui_send_buffer i) \<le> length data then Some u
         else do {
           sb \<leftarrow> write_memory (get_curr_write_ptr (ui_send_buffer i)) data (ui_send_buffer i);
           Some (udp_set_session connect_id (i \<lparr> ui_send_buffer := snd (set_write_data (length data) sb) \<rparr>) u) })"

definition udp_clear_write_buffer :: "CUdp_Session_Info \<Rightarrow> CUdp_Session_Info" where
  "udp_clear_write_buffer i = i \<lparr> ui_send_buffer := move_buffer (get_write_size (ui_send_buffer i)) (ui_send_buffer i) \<rparr>"

definition udp_do_write :: "u32 \<Rightarrow> CUdpServer \<Rightarrow> CUdpServer" where
  "udp_do_write connect_id u =
    (case find_udp_endpoint_by_id connect_id u of
       None \<Rightarrow> u
     | Some i \<Rightarrow>
         let data = mem_slice (read_ptr (ui_send_buffer i)) (get_write_size (ui_send_buffer i)) (sb_buffer (ui_send_buffer i));
             u = udp_set_session connect_id (udp_clear_write_buffer i) u in
         if ui_udp_state i = UDP_INVALUD then u
         else u \<lparr> us_sending := us_sending u @ [(connect_id, ui_send_endpoint i, data)] \<rparr>)"

definition udp_do_write_immediately :: "u32 \<Rightarrow> bytes \<Rightarrow> CUdpServer \<Rightarrow> CUdpServer" where
  "udp_do_write_immediately connect_id data u =
    (case find_udp_endpoint_by_id connect_id u of
       None \<Rightarrow> u
     | Some i \<Rightarrow>
         let u = udp_set_session connect_id (udp_clear_write_buffer i) u in
         if ui_udp_state i = UDP_INVALUD then u
         else u \<lparr> us_sending := us_sending u @ [(connect_id, ui_send_endpoint i, data)] \<rparr>)"

definition udp_add_send_finish_size :: "u32 \<Rightarrow> nat \<Rightarrow> CUdpServer \<Rightarrow> CUdpServer" where
  "udp_add_send_finish_size connect_id len u =
    (case us_id_2_endpoint u connect_id of
       None \<Rightarrow> u
     | Some i \<Rightarrow> udp_set_session connect_id (i \<lparr> ui_send_data_size := ui_send_data_size i + of_nat len \<rparr>) u)"

definition udp_get_recv_time :: "u32 \<Rightarrow> CUdpServer \<Rightarrow> int" where
  "udp_get_recv_time connect_id u = (case us_cid_recv_time u connect_id of Some t \<Rightarrow> t | None \<Rightarrow> us_recv_time u)"

definition udp_set_io_bridge_connect_id :: "u32 \<Rightarrow> u32 \<Rightarrow> CUdpServer \<Rightarrow> CUdpServer" where
  "udp_set_io_bridge_connect_id from_io_connect_id to_io_connect_id u =
    (case find_udp_endpoint_by_id from_io_connect_id u of
       None \<Rightarrow> u
     | Some i \<Rightarrow> udp_set_session from_io_connect_id
         (if to_io_connect_id > 0 then i \<lparr> ui_io_state := SESSION_IO_BRIDGE, ui_io_bridge_connect_id := to_io_connect_id \<rparr>
          else i \<lparr> ui_io_state := SESSION_IO_LOGIC, ui_io_bridge_connect_id := 0 \<rparr>) u)"

definition udp_get_mark_id :: "u32 \<Rightarrow> CUdpServer \<Rightarrow> u32" where
  "udp_get_mark_id connect_id u = 0"

definition udp_format_send_packet :: "'p packet_parse \<Rightarrow> u32 \<Rightarrow> CMessage_Packet \<Rightarrow> ('s, 'p) udp_world \<Rightarrow> CMessage_Packet option" where
  "udp_format_send_packet pk connect_id message U =
     pk_format_send_buffer pk connect_id message (us_io_type (uw_server U)) (uw_parser U)"

text \<open>\<open>start\<close>: the server, object \<open>k\<close> of the heap of servers, is entered in the tables of the manager.\<close>

definition udp_start :: "nat \<Rightarrow> CNetSvrManager \<Rightarrow> CUdpServer \<Rightarrow> CNetSvrManager \<times> CUdpServer" where
  "udp_start k m u =
    (add_accept_net_io_event (us_server_ip u) (us_server_port u) CONNECT_IO_UDP k m, udp_do_receive u)"

text \<open>
  Datagrams, completed sends, calls from other threads, and connections of other
  sessions, which use the same counter; an event that cannot happen changes nothing.
\<close>

datatype udp_event =
    U_Receive int ClientIPInfo bytes bytes
  | U_Receive_Error int
  | U_Sent nat bool
  | U_Close u32
  | U_Close_Server
  | U_Set_Write_Buffer u32 bytes
  | U_Do_Write u32
  | U_Write_Immediately u32 bytes
  | U_Set_Bridge u32 u32
  | U_Other_Connection

fun udp_step ::
  "'s session_ops \<Rightarrow> 'p packet_parse \<Rightarrow> 's \<Rightarrow> udp_event \<Rightarrow> ('s, 'p) udp_world \<Rightarrow> ('s, 'p) udp_world option" where
  "udp_step S pk self (U_Receive now ep data mem) U =
    (case us_receiving (uw_server U) of
       Some n \<Rightarrow> if length data \<le> n \<and> length mem = us_max_send_size (uw_server U)
         then udp_do_receive_data_logic S pk self now ep (Some data) mem (U \<lparr> uw_server := (uw_server U) \<lparr> us_receiving := None \<rparr> \<rparr>)
         else Some U
     | None \<Rightarrow> Some U)"
| "udp_step S pk self (U_Receive_Error now) U =
    (if us_receiving (uw_server U) \<noteq> None
     then udp_do_receive_data_logic S pk self now ClientIPInfo_default None []
       (U \<lparr> uw_server := (uw_server U) \<lparr> us_receiving := None \<rparr> \<rparr>) else Some U)"
| "udp_step S pk self (U_Sent k ec) U =
    (let u = uw_server U in
     Some (if k < length (us_sending u) then U \<lparr> uw_server := (case us_sending u ! k of (c, ep, data) \<Rightarrow>
         let u = u \<lparr> us_sending := remove_nth k (us_sending u) \<rparr> in
         if ec then u else udp_add_send_finish_size c (length data) u) \<rparr> else U))"
| "udp_step S pk self (U_Close c) U = close_udp_endpoint_by_id S pk self c U"
| "udp_step S pk self U_Close_Server U = udp_close_server S pk self U"
| "udp_step S pk self (U_Set_Write_Buffer c data) U =
    (case udp_set_write_buffer c data (uw_server U) of None \<Rightarrow> None | Some u \<Rightarrow> Some (U \<lparr> uw_server := u \<rparr>))"
| "udp_step S pk self (U_Do_Write c) U = Some (U \<lparr> uw_server := udp_do_write c (uw_server U) \<rparr>)"
| "udp_step S pk self (U_Write_Immediately c data) U =
     Some (U \<lparr> uw_server := udp_do_write_immediately c data (uw_server U) \<rparr>)"
| "udp_step S pk self (U_Set_Bridge c peer) U =
     Some (U \<lparr> uw_server := udp_set_io_bridge_connect_id c peer (uw_server U) \<rparr>)"
| "udp_step S pk self U_Other_Connection U = Some (U \<lparr> uw_counter := snd (CreateCounter (uw_counter U)) \<rparr>)"

fun udp_run ::
  "'s session_ops \<Rightarrow> 'p packet_parse \<Rightarrow> 's \<Rightarrow> udp_event list \<Rightarrow> ('s, 'p) udp_world \<Rightarrow> ('s, 'p) udp_world option" where
  "udp_run S pk self [] U = Some U"
| "udp_run S pk self (e # es) U = (case udp_step S pk self e U of None \<Rightarrow> None | Some U \<Rightarrow> udp_run S pk self es U)"

text \<open>
  The two tables are inverse to each other, the ids in them were given out by the
  counter, every send buffer is well-formed, and between two datagrams the receive
  buffer is empty.
\<close>

definition endpoints_ok :: "u32 \<Rightarrow> CUdpServer \<Rightarrow> bool" where
  "endpoints_ok counter u \<longleftrightarrow>
     (\<forall>c i. us_id_2_endpoint u c = Some i \<longrightarrow> ui_connect_id i = c \<and> c \<le> counter \<and> sb_inv (ui_send_buffer i) \<and>
        us_endpoint_2_id u (ui_send_endpoint i) = Some c) \<and>
     (\<forall>ep c. us_endpoint_2_id u ep = Some c \<longrightarrow> (\<exists>i. us_id_2_endpoint u c = Some i \<and> ui_send_endpoint i = ep))"

definition udp_inv :: "('s, 'p) udp_world \<Rightarrow> bool" where
  "udp_inv U \<longleftrightarrow> wt_safe (uw_logic U) \<and> endpoints_ok (uw_counter U) (uw_server U) \<and> sb_inv (us_recv_buffer (uw_server U)) \<and>
     contents (us_recv_buffer (uw_server U)) = [] \<and> us_max_send_size (uw_server U) < 2 ^ 64 \<and>
     (\<forall>n. us_receiving (uw_server U) = Some n \<longrightarrow> n = get_buffer_size (us_recv_buffer (uw_server U)))"

text \<open>The parsers that only take bytes off the front of the buffer.\<close>

definition parser_consumes :: "'p packet_parse \<Rightarrow> bool" where
  "parser_consumes pk \<longleftrightarrow> (\<forall>c sb ty p ret sb' ms p'. sb_inv sb \<longrightarrow> pk_from_recv_buffer pk c sb ty p = Some (ret, sb', ms, p') \<longrightarrow>
     length (contents sb') \<le> length (contents sb))"

definition udp_ok :: "nat \<Rightarrow> ('s, 'p) udp_world option \<Rightarrow> bool" where
  "udp_ok n r = (case r of Some U \<Rightarrow> udp_inv U \<and> unat (uw_counter U) \<le> n | None \<Rightarrow> False)"

definition udp_world_start :: "bytes \<Rightarrow> nat \<Rightarrow> 'p \<Rightarrow> u32 \<Rightarrow> 's CWorkThreadLogic \<Rightarrow> ('s, 'p) udp_world" where
  "udp_world_start mem max_send_size p counter w = \<lparr> uw_server = udp_do_receive
     (CUdpServer_ctor mem max_send_size ''0'' 9 True (ClientIPInfo ''0'' 9) 0), uw_parser = p, uw_logic = w, uw_counter = counter \<rparr>"


subsection \<open>The two tables stay inverse to each other\<close>

lemma endpointsD:
  assumes "endpoints_ok n u"
  shows endpoints_info: "us_id_2_endpoint u c = Some i \<Longrightarrow> ui_connect_id i = c \<and> c \<le> n \<and> sb_inv (ui_send_buffer i) \<and>
      us_endpoint_2_id u (ui_send_endpoint i) = Some c"
    and endpoints_id: "us_endpoint_2_id u ep = Some c \<Longrightarrow> \<exists>i. us_id_2_endpoint u c = Some i \<and> ui_send_endpoint i = ep"
  using assms unfolding endpoints_ok_def by blast+

lemma endpoints_cong:
  "endpoints_ok n u \<Longrightarrow> us_id_2_endpoint u' = us_id_2_endpoint u \<Longrightarrow> us_endpoint_2_id u' = us_endpoint_2_id u \<Longrightarrow> endpoints_ok n u'"
  by (simp add: endpoints_ok_def)

lemma endpoints_more: "endpoints_ok n u \<Longrightarrow> n \<le> m \<Longrightarrow> endpoints_ok m u"
  unfolding endpoints_ok_def by (meson order_trans)

lemma endpoints_set_session:
  assumes "endpoints_ok n u" "us_id_2_endpoint u c = Some i" "ui_connect_id i' = ui_connect_id i"
    "ui_send_endpoint i' = ui_send_endpoint i" "sb_inv (ui_send_buffer i')"
  shows "endpoints_ok n (udp_set_session c i' u)"
  using endpoints_id [OF assms(1), of _ c] endpoints_info [OF assms(1,2)] assms unfolding endpoints_ok_def udp_set_session_def by auto

lemma endpoints_new:
  assumes "endpoints_ok n u" "us_endpoint_2_id u ep = None" "n < c" "ui_connect_id i = c" "ui_send_endpoint i = ep" "sb_inv (ui_send_buffer i)"
  shows "endpoints_ok c (u \<lparr> us_endpoint_2_id := (us_endpoint_2_id u)(ep \<mapsto> c), us_id_2_endpoint := (us_id_2_endpoint u)(c \<mapsto> i) \<rparr>)"
proof -
  have "us_id_2_endpoint u c = None" using endpoints_info [OF assms(1), of c] assms(3) by (cases "us_id_2_endpoint u c") auto
  moreover hence "us_endpoint_2_id u ep' \<noteq> Some c" for ep' using endpoints_id [OF assms(1), of ep' c] by auto
  moreover have "us_id_2_endpoint u d = Some j \<Longrightarrow> ui_send_endpoint j \<noteq> ep" for d j
    using endpoints_info [OF assms(1), of d j] assms(2) by auto
  ultimately show ?thesis using endpointsD [OF assms(1)] assms(3-6) unfolding endpoints_ok_def
    by (auto simp: less_imp_le order_trans split: if_splits) (meson less_imp_le order_trans)+
qed

lemma endpoints_remove:
  assumes "endpoints_ok n u" "us_id_2_endpoint u c = Some i"
  shows "endpoints_ok n (u \<lparr> us_id_2_endpoint := (us_id_2_endpoint u)(c := None),
    us_endpoint_2_id := (us_endpoint_2_id u)(ui_send_endpoint i := None) \<rparr>)"
proof -
  have "us_id_2_endpoint u d = Some j \<Longrightarrow> d \<noteq> c \<Longrightarrow> ui_send_endpoint j \<noteq> ui_send_endpoint i" for d j
    using endpoints_info [OF assms(1), of d j] endpoints_info [OF assms] by auto
  moreover have "us_endpoint_2_id u ep = Some c \<Longrightarrow> ep = ui_send_endpoint i" for ep
    using endpoints_id [OF assms(1), of ep c] assms(2) by auto
  ultimately show ?thesis using endpointsD [OF assms(1)] unfolding endpoints_ok_def by (auto split: if_splits)
qed

lemma endpoints_clear: "endpoints_ok n (u \<lparr> us_id_2_endpoint := Map.empty, us_endpoint_2_id := Map.empty, us_open := b \<rparr>)"
  by (simp add: endpoints_ok_def)

lemma counter_step: "unat (n::u32) + 1 < 2 ^ 32 \<Longrightarrow> n < n + 1 \<and> unat (n + 1) = unat n + 1"
  by (simp add: word_less_nat_alt unat_word_ariths)

text \<open>The id of an end point: the old one, or a new one that no client has.\<close>

lemma check_endpoint:
  assumes "endpoints_ok n u" "unat n + 1 < 2 ^ 32" "length mem < 2 ^ 64"
  obtains c is_new n' u' where "check_udp_endpoint_list ep len mem n u = ((c, is_new), n', u')" "endpoints_ok n' u'"
    "us_endpoint_2_id u' = (us_endpoint_2_id u)(ep \<mapsto> c)" "is_new \<longleftrightarrow> us_endpoint_2_id u ep = None"
    "unat n' \<le> unat n + 1" "us_recv_buffer u' = us_recv_buffer u" "us_open u' = us_open u"
    "us_receiving u' = us_receiving u" "us_max_send_size u' = us_max_send_size u"
proof (cases "us_endpoint_2_id u ep")
  case (Some c)
  show thesis by (rule that [of c False n u]) (use assms(1) Some in \<open>auto simp: check_udp_endpoint_list_def fun_upd_idem\<close>)
next
  case None
  note step = counter_step [OF assms(2)]
  define i where "i = \<lparr> ui_connect_id = n + 1, ui_io_bridge_connect_id = 0, ui_io_state = SESSION_IO_LOGIC, ui_send_endpoint = ep,
    ui_recv_data_size = of_nat len, ui_send_data_size = 0, ui_send_buffer = Init mem, ui_udp_state = UDP_VALUD \<rparr>"
  let ?u = "u \<lparr> us_endpoint_2_id := (us_endpoint_2_id u)(ep \<mapsto> n + 1), us_id_2_endpoint := (us_id_2_endpoint u)(n + 1 \<mapsto> i) \<rparr>"
  have "endpoints_ok (n + 1) ?u" by (rule endpoints_new [OF assms(1) None conjunct1 [OF step]]) (use assms(3) in \<open>simp_all add: i_def\<close>)
  thus thesis using None step by (intro that [of "n + 1" True "n + 1" ?u]) (auto simp: check_udp_endpoint_list_def CreateCounter_def i_def Let_def)
qed


subsection \<open>Every event is defined and keeps the invariant\<close>

lemma udp_ok_Some [simp]: "udp_ok n (Some U) \<longleftrightarrow> udp_inv U \<and> unat (uw_counter U) \<le> n"
  by (simp add: udp_ok_def)

lemma udp_ok_mono: "udp_ok m r \<Longrightarrow> m \<le> n \<Longrightarrow> udp_ok n r"
  by (auto simp: udp_ok_def split: option.splits)

lemma endpoints_recv [simp]:
  "endpoints_ok n (u \<lparr> us_recv_buffer := sb \<rparr>) = endpoints_ok n u" "endpoints_ok n (u \<lparr> us_receiving := r \<rparr>) = endpoints_ok n u"
  "endpoints_ok n (udp_touch now c u) = endpoints_ok n u" "endpoints_ok n (udp_do_receive u) = endpoints_ok n u"
  "endpoints_ok n (udp_drop len u) = endpoints_ok n u" "endpoints_ok n (u \<lparr> us_sending := q \<rparr>) = endpoints_ok n u"
  "endpoints_ok n (u \<lparr> us_cid_recv_time := t \<rparr>) = endpoints_ok n u" "endpoints_ok n (u \<lparr> us_recv_time := now \<rparr>) = endpoints_ok n u"
  by (simp_all add: endpoints_ok_def udp_touch_def udp_do_receive_def udp_drop_def)

text \<open>After a datagram of \<open>len\<close> bytes the server drops them and receives again.\<close>

lemma udp_inv_received:
  assumes "wt_safe (uw_logic U)" "endpoints_ok (uw_counter U) (uw_server U)" "sb_inv (us_recv_buffer (uw_server U))"
    "length (contents (us_recv_buffer (uw_server U))) \<le> len" "us_max_send_size (uw_server U) < 2 ^ 64"
  shows "udp_inv (U \<lparr> uw_server := udp_do_receive (udp_drop len (uw_server U)) \<rparr>)"
  using assms unfolding udp_inv_def
  by (simp add: udp_do_receive_def udp_drop_def contents_move_buffer)

lemma udp_bridge_ok:
  assumes "wt_safe (uw_logic U)" "endpoints_ok (uw_counter U) (uw_server U)" "sb_inv (us_recv_buffer (uw_server U))"
    "length (contents (us_recv_buffer (uw_server U))) = len" "us_max_send_size (uw_server U) < 2 ^ 64"
    "us_id_2_endpoint (uw_server U) c = Some i"
  shows "udp_ok (unat (uw_counter U)) (udp_bridge_data S self now c i len U \<bind>
    (\<lambda>U. Some (U \<lparr> uw_server := udp_do_receive (udp_drop len (uw_server U)) \<rparr>)))"
proof -
  let ?u = "udp_touch now c (uw_server U)" and ?i = "i \<lparr> ui_io_bridge_connect_id := 0, ui_io_state := SESSION_IO_LOGIC \<rparr>"
  have u: "us_recv_buffer ?u = us_recv_buffer (uw_server U)" "us_id_2_endpoint ?u = us_id_2_endpoint (uw_server U)"
    "us_max_send_size ?u = us_max_send_size (uw_server U)" by (simp_all add: udp_touch_def)
  have "len \<le> length (sb_buffer (us_recv_buffer ?u))" using assms(3,4) u by (simp add: sb_inv_def)
  from safe_bridge [OF assms(1) this] obtain ret w where
    w: "do_io_bridge_data S (ui_connect_id i) (ui_io_bridge_connect_id i) (us_recv_buffer ?u) len self (uw_logic U)
      = Some (ret, move_buffer len (us_recv_buffer ?u), w)" "wt_safe w" by blast
  let ?u1 = "?u \<lparr> us_recv_buffer := move_buffer len (us_recv_buffer ?u) \<rparr>"
  let ?u2 = "if ret = 1 then udp_set_session c ?i ?u1 else ?u1"
  have "endpoints_ok (uw_counter U) ?u1" using assms(2) by simp
  moreover from this have "endpoints_ok (uw_counter U) (udp_set_session c ?i ?u1)"
    by (rule endpoints_set_session [where i = i]) (use assms(6) u endpoints_info [OF assms(2,6)] in auto)
  ultimately have "endpoints_ok (uw_counter U) ?u2" by simp
  moreover have "us_recv_buffer ?u2 = move_buffer len (us_recv_buffer (uw_server U))" "us_max_send_size ?u2 = us_max_send_size (uw_server U)"
    using u by (simp_all add: udp_set_session_def)
  ultimately have "udp_inv (U \<lparr> uw_logic := w, uw_server := ?u2 \<rparr> \<lparr> uw_server := udp_do_receive (udp_drop len ?u2) \<rparr>)"
    using udp_inv_received [of "U \<lparr> uw_logic := w, uw_server := ?u2 \<rparr>" len] assms(3-5) w(2) by (simp add: contents_move_buffer)
  thus ?thesis by (simp add: udp_bridge_data_def Let_def w(1))
qed

lemma udp_parse_ok:
  assumes "parser_ok pk" "parser_consumes pk" "wt_safe (uw_logic U)" "endpoints_ok (uw_counter U) (uw_server U)"
    "sb_inv (us_recv_buffer (uw_server U))" "length (contents (us_recv_buffer (uw_server U))) = len" "us_max_send_size (uw_server U) < 2 ^ 64"
  shows "udp_ok (unat (uw_counter U)) (udp_parse_data S pk self now c len U \<bind>
    (\<lambda>U. Some (U \<lparr> uw_server := udp_do_receive (udp_drop len (uw_server U)) \<rparr>)))"
proof -
  let ?u = "uw_server U"
  obtain ret sb ms p where pk: "pk_from_recv_buffer pk (us_connect_client_id ?u) (us_recv_buffer ?u) (us_io_type ?u) (uw_parser U)
      = Some (ret, sb, ms, p)" "sb_inv sb"
    using assms(1,5) unfolding parser_ok_def by meson
  have len: "length (contents sb) \<le> len" using assms(2,5,6) pk(1) unfolding parser_consumes_def by meson
  obtain w1 where w1: "close_session_event c (Some self) (uw_logic U) = Some w1" "wt_safe w1"
    by (rule ends_safeE [OF safe_close_session [OF assms(3)]])
  obtain w2 where w2: "assignation_thread_module_logic S c ms self (uw_logic U) = Some w2" "wt_safe w2"
    by (rule ends_safeE [OF safe_assignation(1) [OF assms(3)]])
  let ?drop = "\<lambda>u. udp_do_receive (udp_drop len u)"
  have no: "udp_inv (U \<lparr> uw_parser := p, uw_logic := w1, uw_server := ?drop (udp_drop len (?u \<lparr> us_recv_buffer := sb \<rparr>)) \<rparr>)"
    using udp_inv_received [of "U \<lparr> uw_parser := p, uw_logic := w1, uw_server := udp_drop len (?u \<lparr> us_recv_buffer := sb \<rparr>) \<rparr>" len]
      assms(4,7) pk(2) len w1(2) by (simp add: udp_drop_def contents_move_buffer)
  have yes: "udp_inv (U \<lparr> uw_parser := p, uw_logic := w2, uw_server := ?drop (udp_touch now c (?u \<lparr> us_recv_buffer := sb \<rparr>)) \<rparr>)"
    using udp_inv_received [of "U \<lparr> uw_parser := p, uw_logic := w2, uw_server := udp_touch now c (?u \<lparr> us_recv_buffer := sb \<rparr>) \<rparr>" len]
      assms(4,7) pk(2) len w2(2) by (simp add: udp_touch_def)
  show ?thesis using yes no by (simp add: udp_parse_data_def Let_def pk(1) w1(1) w2(1))
qed


lemma udp_receive_data_ok:
  assumes "parser_ok pk" "parser_consumes pk" "wt_safe (uw_logic U)" "endpoints_ok (uw_counter U) (uw_server U)"
    "us_max_send_size (uw_server U) < 2 ^ 64" "sb_inv (us_recv_buffer (uw_server U))" "0 < get_buffer_size (us_recv_buffer (uw_server U))"
    "sb_inv (snd (set_write_data len (us_recv_buffer (uw_server U))))"
    "length (contents (snd (set_write_data len (us_recv_buffer (uw_server U))))) = len"
  shows "udp_ok (unat (uw_counter U)) (udp_receive_data S pk self now c len U)"
proof -
  let ?U = "U \<lparr> uw_server := (uw_server U) \<lparr> us_recv_buffer := snd (set_write_data len (us_recv_buffer (uw_server U))) \<rparr> \<rparr>"
  have U: "wt_safe (uw_logic ?U)" "endpoints_ok (uw_counter ?U) (uw_server ?U)" "sb_inv (us_recv_buffer (uw_server ?U))"
    "length (contents (us_recv_buffer (uw_server ?U))) = len" "us_max_send_size (uw_server ?U) < 2 ^ 64" "uw_counter ?U = uw_counter U"
    using assms by simp_all
  note parse = udp_parse_ok [OF assms(1,2) U(1-5), of S self now c]
  show ?thesis
  proof (cases "us_id_2_endpoint (uw_server ?U) c")
    case None
    thus ?thesis using assms(7) parse by (simp add: udp_receive_data_def Let_def find_udp_endpoint_by_id_def)
  next
    case (Some i)
    from udp_bridge_ok [OF U(1-5) Some, of S self now] Some show ?thesis using assms(7) parse
      by (simp add: udp_receive_data_def Let_def find_udp_endpoint_by_id_def)
  qed
qed

lemma udp_receive_from_ok:
  assumes "parser_ok pk" "parser_consumes pk" "udp_inv U" "us_receiving (uw_server U) = None"
    "length data \<le> get_buffer_size (us_recv_buffer (uw_server U))" "unat (uw_counter U) + 1 < 2 ^ 32"
    "length mem = us_max_send_size (uw_server U)"
  shows "udp_ok (unat (uw_counter U) + 1) (udp_do_receive_from S pk self now ep data mem U)"
proof -
  let ?u = "uw_server U" and ?rb = "us_recv_buffer (uw_server U)"
  have rb: "sb_inv ?rb" "contents ?rb = []" and ep: "endpoints_ok (uw_counter U) ?u" "wt_safe (uw_logic U)"
    "us_max_send_size ?u < 2 ^ 64" using assms(3) by (simp_all add: udp_inv_def)
  obtain sb where sb: "write_memory (get_curr_write_ptr ?rb) data ?rb = Some sb" "sb_inv (snd (set_write_data (length data) sb))"
    "contents (snd (set_write_data (length data) sb)) = data"
    using recv_commit [OF rb(1) assms(5)] rb(2) by auto
  have sb': "sb_inv sb" "contents sb = []" "get_buffer_size sb = get_buffer_size ?rb" using sb(1) rb
    by (auto simp: write_memory_def sb_inv_def contents_def get_buffer_size_def split: if_splits)
  let ?u1 = "?u \<lparr> us_recv_buffer := sb \<rparr>"
  have mem: "length mem < 2 ^ 64" using ep(3) assms(7) by simp
  have ep1: "endpoints_ok (uw_counter U) ?u1" using ep(1) by simp
  obtain c is_new n u where chk: "check_udp_endpoint_list ep (length data) mem (uw_counter U) ?u1 = ((c, is_new), n, u)" "endpoints_ok n u"
    "unat n \<le> unat (uw_counter U) + 1" "us_recv_buffer u = sb" "us_receiving u = None" "us_max_send_size u = us_max_send_size ?u"
    by (rule check_endpoint [OF ep1 assms(6) mem, of ep "length data"]) (use assms(4) in auto)
  obtain w where w: "add_thread_session S c self (us_local_ip u) ep (uw_logic U) = Some w" "wt_safe w"
    by (rule ends_safeE [OF safe_connect [OF ep(2)]])
  have idle: "udp_ok (unat (uw_counter U) + 1) (Some (U \<lparr> uw_server := u, uw_counter := n, uw_parser := p, uw_logic := w' \<rparr>))"
    if "wt_safe w'" for p w' using that chk sb' ep(3) by (simp add: udp_inv_def)
  have data: "udp_ok (unat (uw_counter U) + 1) (udp_receive_data S pk self now c (length data)
      (U \<lparr> uw_server := u, uw_counter := n, uw_parser := p, uw_logic := w' \<rparr>))" if "wt_safe w'" "data \<noteq> []" for p w'
  proof -
    have "0 < get_buffer_size ?rb" using that(2) assms(5) by (cases data) auto
    thus ?thesis using udp_ok_mono [OF _ chk(3)] udp_receive_data_ok [OF assms(1,2), of "U \<lparr> uw_server := u, uw_counter := n, uw_parser := p, uw_logic := w' \<rparr>" "length data" S self now c]
      that chk sb sb' ep(3) by simp
  qed
  show ?thesis using idle [OF ep(2), of "uw_parser U"] idle [OF w(2)] data [OF ep(2), of "uw_parser U"] data [OF w(2)]
      sb(1) chk(1) w(1) by (cases "data = []") (auto simp: udp_do_receive_from_def add_udp_endpoint_def Let_def)
qed


lemma udp_inv_server:
  assumes "udp_inv U" "endpoints_ok (uw_counter U) u" "us_recv_buffer u = us_recv_buffer (uw_server U)"
    "us_receiving u = us_receiving (uw_server U) \<or> us_receiving u = None" "us_max_send_size u = us_max_send_size (uw_server U)"
  shows "udp_inv (U \<lparr> uw_server := u \<rparr>)"
  using assms by (auto simp: udp_inv_def)

lemma udp_inv_logic: "udp_inv U \<Longrightarrow> wt_safe w \<Longrightarrow> udp_inv (U \<lparr> uw_parser := p, uw_logic := w \<rparr>)"
  by (simp add: udp_inv_def)

lemma session_fields [simp]:
  "us_recv_buffer (udp_set_session c i u) = us_recv_buffer u" "us_receiving (udp_set_session c i u) = us_receiving u"
  "us_max_send_size (udp_set_session c i u) = us_max_send_size u"
  by (simp_all add: udp_set_session_def)

lemma udp_close_endpoint_ok:
  assumes "udp_inv U" shows "udp_ok (unat (uw_counter U)) (close_udp_endpoint_by_id S pk self c U)"
proof (cases "us_id_2_endpoint (uw_server U) c")
  case None
  thus ?thesis using assms udp_inv_server [OF assms, of "(uw_server U) \<lparr> us_cid_recv_time := (us_cid_recv_time (uw_server U))(c := None) \<rparr>"]
    by (simp add: close_udp_endpoint_by_id_def Let_def udp_inv_def)
next
  case (Some i)
  let ?u = "uw_server U"
  have inv: "wt_safe (uw_logic U)" "endpoints_ok (uw_counter U) ?u" using assms by (simp_all add: udp_inv_def)
  obtain w where w: "delete_thread_session S c self (ui_send_endpoint i) (us_io_type ?u) (uw_logic U) = Some w" "wt_safe w"
    by (rule ends_safeE [OF safe_disconnect [OF inv(1)]])
  show ?thesis using assms Some w endpoints_remove [OF inv(2) Some]
    by (simp add: close_udp_endpoint_by_id_def Let_def udp_inv_def)
qed

lemma udp_delete_sessions_ok: "wt_safe w \<Longrightarrow> ends_safe (udp_delete_sessions S self u ids w)"
proof (induction ids arbitrary: w)
  case (Cons c ids)
  show ?case by (rule ends_safeE [OF safe_disconnect [OF Cons.prems, of S c self "udp_get_remote_ip c u" "us_io_type u"]])
    (simp add: Cons.IH)
qed simp

lemma udp_close_server_ok:
  assumes "udp_inv U" shows "udp_ok (unat (uw_counter U)) (udp_close_server S pk self U)"
proof -
  let ?ids = "sorted_list_of_set (dom (us_id_2_endpoint (uw_server U)))"
  have "wt_safe (uw_logic U)" using assms by (simp add: udp_inv_def)
  then obtain w where w: "udp_delete_sessions S self (uw_server U) ?ids (uw_logic U) = Some w" "wt_safe w"
    by (rule ends_safeE [OF udp_delete_sessions_ok])
  show ?thesis using assms w endpoints_clear [where n = "uw_counter U" and u = "uw_server U" and b = False]
    by (simp add: udp_close_server_def Let_def udp_inv_def)
qed

lemma udp_set_buffer_ok:
  assumes "udp_inv U" shows "\<exists>u. udp_set_write_buffer c data (uw_server U) = Some u \<and> udp_inv (U \<lparr> uw_server := u \<rparr>)"
proof (cases "us_id_2_endpoint (uw_server U) c")
  case (Some i)
  have ep: "endpoints_ok (uw_counter U) (uw_server U)" using assms by (simp add: udp_inv_def)
  have sbi: "sb_inv (ui_send_buffer i)" using endpoints_info [OF ep Some] by simp
  show ?thesis
  proof (cases "get_buffer_size (ui_send_buffer i) \<le> length data")
    case False
    then obtain sb where sb: "write_memory (get_curr_write_ptr (ui_send_buffer i)) data (ui_send_buffer i) = Some sb"
      "sb_inv (snd (set_write_data (length data) sb))" using recv_commit [OF sbi, of data] by auto
    have "endpoints_ok (uw_counter U) (udp_set_session c (i \<lparr> ui_send_buffer := snd (set_write_data (length data) sb) \<rparr>) (uw_server U))"
      by (rule endpoints_set_session [OF ep Some]) (simp_all add: sb(2))
    thus ?thesis using False Some sb(1) udp_inv_server [OF assms] by (simp add: udp_set_write_buffer_def find_udp_endpoint_by_id_def)
  qed (use Some assms in \<open>simp add: udp_set_write_buffer_def find_udp_endpoint_by_id_def\<close>)
qed (use assms in \<open>simp add: udp_set_write_buffer_def find_udp_endpoint_by_id_def\<close>)

text \<open>The calls that only change one client: its send buffer, its byte count, its bridge.\<close>

lemma udp_one_client_ok:
  assumes "udp_inv U"
  shows "udp_inv (U \<lparr> uw_server := udp_do_write c (uw_server U) \<rparr>)"
    "udp_inv (U \<lparr> uw_server := udp_do_write_immediately c data (uw_server U) \<rparr>)"
    "udp_inv (U \<lparr> uw_server := udp_add_send_finish_size c len (uw_server U \<lparr> us_sending := q \<rparr>) \<rparr>)"
    "udp_inv (U \<lparr> uw_server := udp_set_io_bridge_connect_id c peer (uw_server U) \<rparr>)"
proof -
  have ep: "endpoints_ok (uw_counter U) (uw_server U)" using assms by (simp add: udp_inv_def)
  have set: "endpoints_ok (uw_counter U) (udp_set_session c i' (uw_server U))"
    if "us_id_2_endpoint (uw_server U) c = Some i" "ui_connect_id i' = ui_connect_id i" "ui_send_endpoint i' = ui_send_endpoint i"
      "sb_inv (ui_send_buffer i) \<Longrightarrow> sb_inv (ui_send_buffer i')" for i i'
    by (rule endpoints_set_session [OF ep that(1-3)]) (use endpoints_info [OF ep that(1)] that(4) in simp)
  have ep': "endpoints_ok (uw_counter U) (uw_server U \<lparr> us_sending := q \<rparr>)" using ep by simp
  show "udp_inv (U \<lparr> uw_server := udp_do_write c (uw_server U) \<rparr>)"
    "udp_inv (U \<lparr> uw_server := udp_do_write_immediately c data (uw_server U) \<rparr>)"
    "udp_inv (U \<lparr> uw_server := udp_set_io_bridge_connect_id c peer (uw_server U) \<rparr>)"
    using assms set by (auto intro!: udp_inv_server simp: udp_do_write_def udp_do_write_immediately_def udp_clear_write_buffer_def
        udp_set_io_bridge_connect_id_def find_udp_endpoint_by_id_def Let_def split: option.split)
  show "udp_inv (U \<lparr> uw_server := udp_add_send_finish_size c len (uw_server U \<lparr> us_sending := q \<rparr>) \<rparr>)"
    using assms ep' by (auto intro!: udp_inv_server endpoints_set_session [OF ep'] simp: udp_add_send_finish_size_def
        dest: endpoints_info [OF ep] split: option.split)
qed


lemma udp_step_ok:
  assumes "parser_ok pk" "parser_consumes pk" "udp_inv U" "unat (uw_counter U) + 1 < 2 ^ 32"
  shows "udp_ok (unat (uw_counter U) + 1) (udp_step S pk self e U)"
proof (cases e)
  case (U_Receive now ep data mem)
  let ?U = "U \<lparr> uw_server := (uw_server U) \<lparr> us_receiving := None \<rparr> \<rparr>"
  have "udp_inv ?U" using assms(3) by (simp add: udp_inv_def)
  from udp_receive_from_ok [OF assms(1,2) this, of data mem S self now ep] assms(3,4) U_Receive show ?thesis
    by (auto simp: udp_do_receive_data_logic_def udp_inv_def split: option.split)
next
  case (U_Receive_Error now)
  thus ?thesis using assms(3)
    by (auto simp: udp_do_receive_data_logic_def set_listen_error_event_def add_frame_events_def udp_inv_def intro!: wt_safe_post)
next
  case (U_Sent k ec)
  obtain c ep data where q: "us_sending (uw_server U) ! k = (c, ep, data)" by (cases "us_sending (uw_server U) ! k")
  have "udp_inv (U \<lparr> uw_server := (uw_server U) \<lparr> us_sending := remove_nth k (us_sending (uw_server U)) \<rparr> \<rparr>)"
    using assms(3) by (simp add: udp_inv_def)
  thus ?thesis using U_Sent q assms(3) udp_one_client_ok(3) [OF assms(3)] by (simp add: Let_def)
next
  case (U_Close c)
  thus ?thesis using udp_ok_mono [OF udp_close_endpoint_ok [OF assms(3)]] by simp
next
  case U_Close_Server
  thus ?thesis using udp_ok_mono [OF udp_close_server_ok [OF assms(3)]] by simp
next
  case (U_Set_Write_Buffer c data)
  thus ?thesis using udp_set_buffer_ok [OF assms(3), of c data] by auto
next
  case U_Other_Connection
  have "uw_counter U \<le> uw_counter U + 1" "unat (uw_counter U + 1) = unat (uw_counter U) + 1"
    using counter_step [OF assms(4)] by (simp_all add: less_imp_le)
  thus ?thesis using U_Other_Connection assms(3) by (auto simp: CreateCounter_def Let_def udp_inv_def intro: endpoints_more)
qed (use udp_one_client_ok [OF assms(3)] in simp_all)

lemma udp_run_ok:
  "parser_ok pk \<Longrightarrow> parser_consumes pk \<Longrightarrow> udp_inv U \<Longrightarrow> unat (uw_counter U) + length es < 2 ^ 32 \<Longrightarrow>
   \<exists>U'. udp_run S pk self es U = Some U' \<and> udp_inv U'"
proof (induction es arbitrary: U)
  case (Cons e es)
  from udp_step_ok [OF Cons.prems(1-3), of S self e] Cons.prems(4) obtain U1 where
    "udp_step S pk self e U = Some U1" "udp_inv U1" "unat (uw_counter U1) \<le> unat (uw_counter U) + 1"
    by (auto simp: udp_ok_def split: option.splits)
  with Cons.IH [of U1] Cons.prems show ?case by simp
qed simp

lemma udp_world_start_inv:
  "length mem < 2 ^ 64 \<Longrightarrow> max_send_size < 2 ^ 64 \<Longrightarrow> wt_safe w \<Longrightarrow> udp_inv (udp_world_start mem max_send_size p counter w)"
  by (simp add: udp_inv_def udp_world_start_def CUdpServer_ctor_def udp_do_receive_def endpoints_ok_def)

lemma one_message_parser_consumes: "parser_consumes one_message_parser"
  by (auto simp: parser_consumes_def one_message_parser_def contents_move_buffer)




subsection \<open>What a datagram does\<close>

lemma receive_data_parsed:
  assumes "0 < get_buffer_size (us_recv_buffer (uw_server U))"
    "\<forall>i. us_id_2_endpoint (uw_server U) c = Some i \<longrightarrow> ui_io_state i = SESSION_IO_LOGIC"
    "pk_from_recv_buffer pk (us_connect_client_id (uw_server U)) (snd (set_write_data len (us_recv_buffer (uw_server U))))
      (us_io_type (uw_server U)) (uw_parser U) = Some (True, sb, ms, p)"
    "assignation_thread_module_logic S c ms self (uw_logic U) = Some w"
  shows "udp_receive_data S pk self now c len U = Some (U \<lparr> uw_parser := p, uw_logic := w,
    uw_server := udp_do_receive (udp_drop len (udp_touch now c ((uw_server U) \<lparr> us_recv_buffer := sb \<rparr>))) \<rparr>)"
  using assms by (auto simp: udp_receive_data_def udp_parse_data_def find_udp_endpoint_by_id_def Let_def split: option.split)

lemma received_server [simp]:
  "us_endpoint_2_id (udp_do_receive (udp_drop len (udp_touch now c u))) = us_endpoint_2_id u"
  "sb_inv (us_recv_buffer u) \<Longrightarrow> length (contents (us_recv_buffer u)) \<le> len \<Longrightarrow>
   us_receiving (udp_do_receive (udp_drop len (udp_touch now c u))) = Some (sb_max_buff_size (us_recv_buffer u))"
  by (simp_all add: udp_do_receive_def udp_drop_def udp_touch_def get_buffer_size_contents contents_move_buffer)





subsection \<open>An empty datagram\<close>

text \<open>Only the handler of a datagram starts the next receive.\<close>

lemma receiving_kept:
  assumes "us_receiving (uw_server U) = None" "udp_step S pk self e U = Some U'"
  shows "us_receiving (uw_server U') = None"
proof (cases e)
  case (U_Sent k ec)
  thus ?thesis using assms by (auto simp: Let_def udp_add_send_finish_size_def split: if_splits prod.splits option.splits)
qed (use assms in \<open>auto simp: Let_def close_udp_endpoint_by_id_def udp_close_server_def udp_set_write_buffer_def udp_do_write_def
    udp_do_write_immediately_def udp_set_io_bridge_connect_id_def find_udp_endpoint_by_id_def
    split: if_splits option.splits bind_splits\<close>)

lemma deaf_run:
  "us_receiving (uw_server U) = None \<Longrightarrow> udp_run S pk self es U = Some U' \<Longrightarrow> us_receiving (uw_server U') = None"
  by (induction es arbitrary: U) (auto dest: receiving_kept split: option.splits)

text \<open>
  One empty datagram, from anybody, stops the server for good: its handler does not
  start another receive, and whatever happens afterwards, no datagram is handled.
\<close>

theorem empty_datagram_stops_server:
  assumes "us_receiving (uw_server U) = Some n" "length mem = us_max_send_size (uw_server U)"
    "udp_run S pk self (U_Receive now ep [] mem # es) U = Some U'"
  shows "udp_step S pk self (U_Receive now' ep' data mem') U' = Some U'"
proof -
  from assms(3) obtain U1 where U1: "udp_step S pk self (U_Receive now ep [] mem) U = Some U1" "udp_run S pk self es U1 = Some U'"
    by (auto split: option.splits)
  have "us_receiving (uw_server U1) = None" using U1(1) assms(1,2)
    by (auto simp: udp_do_receive_data_logic_def udp_do_receive_from_def add_udp_endpoint_def check_udp_endpoint_list_def Let_def
        split: option.splits bind_splits prod.splits if_splits)
  from deaf_run [OF this U1(2)] show ?thesis by simp
qed

theorem empty_datagram_stops_server_witness:
  "\<exists>U'. udp_run echo_ops one_message_parser 7 [U_Receive 1 (ClientIPInfo ''1'' 5) [] [0, 0, 0], U_Other_Connection]
      (udp_world_start [0, 0] 3 () 3 echo_server) = Some U' \<and>
    udp_step echo_ops one_message_parser 7 (U_Receive 2 (ClientIPInfo ''1'' 6) [1] [0, 0, 0]) U' = Some U'"
proof -
  let ?U = "udp_world_start [0, 0] 3 () 3 echo_server"
  let ?es = "[U_Receive 1 (ClientIPInfo ''1'' 5) [] [0, 0, 0], U_Other_Connection]"
  have "udp_inv ?U" by (rule udp_world_start_inv) (simp_all add: echo_server_safe)
  from udp_run_ok [OF one_message_parser_ok one_message_parser_consumes this, of ?es echo_ops 7] obtain U' where
    U': "udp_run echo_ops one_message_parser 7 ?es ?U = Some U'" by (auto simp: udp_world_start_def)
  show ?thesis using empty_datagram_stops_server [OF _ _ U', of 2] U'
    by (simp add: udp_world_start_def CUdpServer_ctor_def udp_do_receive_def Init_def get_buffer_size_def)
qed

end
