(* ===== verification/Client_Common.thy ===== *)
theory Client_Common
  imports Session_Common
begin

text \<open>
  What the connections opened by this server and the serial ports have in common: the
  state of a session next to the parser and the dispatcher, and what all of them do
  with received data - hand it to the bridged connection, or parse it and pass the
  messages on.
\<close>


section \<open>Received data of client sessions and serial ports\<close>


subsection \<open>Definitions\<close>

record ('c, 's, 'p) io_world =
  iw_session :: 'c
  iw_parser :: 'p
  iw_logic :: "'s CWorkThreadLogic"

text \<open>
  The \<open>len\<close> bytes just committed to \<open>sb\<close>.  The result says whether the time of the last
  data is set anew, then the peer of the bridge, the buffer, the parser and the dispatcher.
\<close>

definition received_data ::
  "'s session_ops \<Rightarrow> 'p packet_parse \<Rightarrow> 's \<Rightarrow> u32 \<Rightarrow> u32 \<Rightarrow> EM_SESSION_STATE \<Rightarrow> EM_CONNECT_IO_TYPE \<Rightarrow> nat \<Rightarrow>
   CSessionBuffer \<Rightarrow> 'p \<Rightarrow> 's CWorkThreadLogic \<Rightarrow> (bool \<times> u32 \<times> CSessionBuffer \<times> 'p \<times> 's CWorkThreadLogic) option" where
  "received_data S pk self connect_id io_bridge_connect_id io_state io_type len sb p w =
    (if io_state = SESSION_IO_BRIDGE then do {
       (ret, sb, w) \<leftarrow> do_io_bridge_data S connect_id io_bridge_connect_id sb len self w;
       Some (True, if ret = 1 then 0 else io_bridge_connect_id, sb, p, w) }
     else do {
       (ret, sb, message_list, p) \<leftarrow> pk_from_recv_buffer pk connect_id sb io_type p;
       if \<not> ret then do {
         w \<leftarrow> close_session_event connect_id (Some self) w;
         Some (False, io_bridge_connect_id, sb, p, w) }
       else do {
         w \<leftarrow> assignation_thread_module_logic S connect_id message_list self w;
         Some (True, io_bridge_connect_id, sb, p, w) } })"

text \<open>The packet that reports bytes that could not be written.\<close>

definition write_fail_packet :: "bytes \<Rightarrow> nat \<Rightarrow> CMessage_Packet" where
  "write_fail_packet write_fail_buffer buffer_length =
     new_packet \<lparr> msg_command_id := LOGIC_THREAD_WRITE_IO_ERROR, msg_buffer := take buffer_length write_fail_buffer \<rparr>"

text \<open>A parser that rejects everything, as an example.\<close>

definition refusing_parser :: "unit packet_parse" where
  "refusing_parser = one_message_parser \<lparr> pk_from_recv_buffer := (\<lambda>c sb ty p. Some (False, sb, [], p)) \<rparr>"


subsection \<open>Received data never leads to undefined behaviour\<close>

lemma received_dataE:
  assumes "parser_ok pk" "wt_safe w" "sb_inv sb" "len \<le> length (sb_buffer sb)"
  obtains b peer' sb' p' w' where "received_data S pk self c peer st ty len sb p w = Some (b, peer', sb', p', w')"
    "sb_inv sb'" "sb_max_buff_size sb' = sb_max_buff_size sb" "wt_safe w'"
proof (cases "st = SESSION_IO_BRIDGE")
  case True
  obtain r w' where "do_io_bridge_data S c peer sb len self w = Some (r, move_buffer len sb, w')" "wt_safe w'"
    using safe_bridge [OF assms(2,4)] by blast
  hence "received_data S pk self c peer st ty len sb p w = Some (True, if r = 1 then 0 else peer, move_buffer len sb, p, w')"
    using True by (simp add: received_data_def)
  thus thesis by (rule that) (use assms(3) \<open>wt_safe w'\<close> in simp_all)
next
  case False
  obtain ret sb' ms p' where pk: "pk_from_recv_buffer pk c sb ty p = Some (ret, sb', ms, p')" "sb_inv sb'"
      "sb_max_buff_size sb' = sb_max_buff_size sb"
    using assms(1,3) unfolding parser_ok_def by meson
  obtain w1 where w1: "close_session_event c (Some self) w = Some w1" "wt_safe w1"
    by (rule ends_safeE [OF safe_close_session [OF assms(2)]])
  obtain w2 where w2: "assignation_thread_module_logic S c ms self w = Some w2" "wt_safe w2"
    by (rule ends_safeE [OF safe_assignation(1) [OF assms(2)]])
  show thesis
  proof (cases ret)
    case True
    with False pk(1) w2(1) have "received_data S pk self c peer st ty len sb p w = Some (True, peer, sb', p', w2)"
      by (simp add: received_data_def)
    thus thesis by (rule that) (use pk w2 in simp_all)
  next
    case ret: False
    with False pk(1) w1(1) have "received_data S pk self c peer st ty len sb p w = Some (False, peer, sb', p', w1)"
      by (simp add: received_data_def)
    thus thesis by (rule that) (use pk w1 in simp_all)
  qed
qed

lemma refusing_parser_ok: "parser_ok refusing_parser"
  by (auto simp: parser_ok_def refusing_parser_def)

end
