(* ===== verification/Tcp_Client.thy ===== *)
theory Tcp_Client
  imports Client_Common
begin

text \<open>
  A TCP connection this server opens to another one.  \<open>start\<close> begins to connect and
  \<open>handle_connect\<close> finishes; from then on the session reads, parses, writes and closes
  like an accepted one, but keeps a send buffer of fixed size and closes without
  waiting for writes.

  \<open>tc_connecting\<close> is the outstanding \<open>async_connect\<close>.  Its handler is the only one that
  holds a plain pointer to the session; \<open>tc_alive\<close> says whether the object still exists.
  The other asynchronous operations are as in \<open>Tcp_Session\<close>.  \<open>None\<close> is undefined
  behaviour or an exception that leaves the thread.
\<close>


section \<open>TCP client sessions (TcpSession/TcpClientSession)\<close>


subsection \<open>Definitions\<close>

datatype tcp_client_lambda = LC_Close u32 EM_CONNECT_IO_TYPE ClientIPInfo | LC_Write bytes

record CTcpClientSession =
  tc_server_id :: u32
  tc_connect_id :: u32
  tc_io_bridge_connect_id :: u32
  tc_is_connect :: bool
  tc_recv_buffer :: CSessionBuffer
  tc_send_buffer :: CSessionBuffer
  tc_remote_ip :: ClientIPInfo
  tc_local_ip :: ClientIPInfo
  tc_recv_data_size :: u64
  tc_send_data_size :: u64
  tc_recv_data_time :: int
  tc_io_type :: EM_CONNECT_IO_TYPE
  tc_io_state :: EM_SESSION_STATE
  tc_open :: bool
  tc_alive :: bool
  tc_connecting :: bool
  tc_reading :: "nat option"
  tc_writes :: "bytes list"
  tc_lambdas :: "tcp_client_lambda list"

type_synonym ('s, 'p) tcp_client_world = "(CTcpClientSession, 's, 'p) io_world"

definition CTcpClientSession_ctor :: "int \<Rightarrow> CTcpClientSession" where
  "CTcpClientSession_ctor now = \<lparr> tc_server_id = 0, tc_connect_id = 0, tc_io_bridge_connect_id = 0, tc_is_connect = False,
     tc_recv_buffer = Init [], tc_send_buffer = Init [], tc_remote_ip = ClientIPInfo_default,
     tc_local_ip = ClientIPInfo_default, tc_recv_data_size = 0, tc_send_data_size = 0, tc_recv_data_time = now,
     tc_io_type = CONNECT_IO_SERVER_TCP, tc_io_state = SESSION_IO_LOGIC, tc_open = False, tc_alive = True,
     tc_connecting = False, tc_reading = None, tc_writes = [], tc_lambdas = [] \<rparr>"

text \<open>
  \<open>start\<close>, with the memory of the two buffers.  \<open>is_address\<close> says which texts asio reads as
  an address, \<open>opens\<close> whether the socket could be opened; otherwise \<open>from_string\<close> and
  \<open>set_option\<close> throw.  A failed \<open>bind\<close> is not looked at.
\<close>

definition tcp_client_start ::
  "(string \<Rightarrow> bool) \<Rightarrow> bool \<Rightarrow> bytes \<Rightarrow> bytes \<Rightarrow> CConnect_IO_Info \<Rightarrow> CTcpClientSession \<Rightarrow> (bool \<times> CTcpClientSession) option" where
  "tcp_client_start is_address opens recv_mem send_mem io_info t =
    (let t = t \<lparr> tc_server_id := ci_server_id io_info, tc_recv_buffer := Init recv_mem, tc_send_buffer := Init send_mem \<rparr> in
     if \<not> is_address (ci_server_ip io_info) then None
     else if ci_client_port io_info > 0 \<and> length (ci_client_ip io_info) > 0 \<and>
       \<not> (is_address (ci_client_ip io_info) \<and> opens) then None
     else Some (True, t \<lparr> tc_local_ip := ClientIPInfo (ci_client_ip io_info) (ci_client_port io_info),
       tc_remote_ip := ClientIPInfo (ci_server_ip io_info) (ci_server_port io_info), tc_open := True, tc_connecting := True \<rparr>))"

definition tcp_client_close :: "u32 \<Rightarrow> CTcpClientSession \<Rightarrow> CTcpClientSession" where
  "tcp_client_close connect_id t =
     t \<lparr> tc_lambdas := tc_lambdas t @ [LC_Close connect_id (tc_io_type t) (tc_remote_ip t)] \<rparr>"

definition tcp_client_set_write_buffer :: "bytes \<Rightarrow> CTcpClientSession \<Rightarrow> CTcpClientSession option" where
  "tcp_client_set_write_buffer data t =
    (if get_buffer_size (tc_send_buffer t) \<le> length data then Some t
     else do {
       sb \<leftarrow> write_memory (get_curr_write_ptr (tc_send_buffer t)) data (tc_send_buffer t);
       Some (t \<lparr> tc_send_buffer := snd (set_write_data (length data) sb) \<rparr>) })"

text \<open>A full buffer: the close is posted to the task thread with the number 1.\<close>

definition tcp_client_do_read :: "'s \<Rightarrow> ('s, 'p) tcp_client_world \<Rightarrow> ('s, 'p) tcp_client_world" where
  "tcp_client_do_read self W =
    (let t = iw_session W;
         w = (if get_buffer_size (tc_recv_buffer t) = 0
              then post 1 (T_Close_Session (tc_connect_id t) (Some self)) (iw_logic W) else iw_logic W) in
     W \<lparr> iw_logic := w, iw_session := t \<lparr> tc_reading := Some (get_buffer_size (tc_recv_buffer t)) \<rparr> \<rparr>)"

definition tcp_client_do_write_immediately :: "bytes \<Rightarrow> CTcpClientSession \<Rightarrow> CTcpClientSession" where
  "tcp_client_do_write_immediately data t =
    (if \<not> tc_is_connect t then t else t \<lparr> tc_lambdas := tc_lambdas t @ [LC_Write data] \<rparr>)"

definition tcp_client_clear_write_buffer :: "CTcpClientSession \<Rightarrow> CTcpClientSession" where
  "tcp_client_clear_write_buffer t =
     t \<lparr> tc_send_buffer := move_buffer (get_write_size (tc_send_buffer t)) (tc_send_buffer t) \<rparr>"

definition tcp_client_do_write :: "CTcpClientSession \<Rightarrow> CTcpClientSession" where
  "tcp_client_do_write t =
    (if \<not> tc_is_connect t then t
     else
       let data = mem_slice (read_ptr (tc_send_buffer t)) (get_write_size (tc_send_buffer t)) (sb_buffer (tc_send_buffer t));
           t = tcp_client_clear_write_buffer t in
       t \<lparr> tc_writes := tc_writes t @ [data] \<rparr>)"

definition tcp_client_add_send_finish_size :: "nat \<Rightarrow> CTcpClientSession \<Rightarrow> CTcpClientSession" where
  "tcp_client_add_send_finish_size send_length t = t \<lparr> tc_send_data_size := tc_send_data_size t + of_nat send_length \<rparr>"

definition tcp_client_get_mark_id :: "u32 \<Rightarrow> CTcpClientSession \<Rightarrow> u32" where
  "tcp_client_get_mark_id connect_id t = tc_server_id t"

definition tcp_client_set_io_bridge_connect_id :: "u32 \<Rightarrow> u32 \<Rightarrow> CTcpClientSession \<Rightarrow> CTcpClientSession" where
  "tcp_client_set_io_bridge_connect_id from_io_connect_id to_io_connect_id t =
    (if to_io_connect_id > 0
     then t \<lparr> tc_io_state := SESSION_IO_BRIDGE, tc_io_bridge_connect_id := to_io_connect_id \<rparr>
     else t \<lparr> tc_io_state := SESSION_IO_LOGIC, tc_io_bridge_connect_id := 0 \<rparr>)"

definition tcp_client_format_send_packet ::
  "'p packet_parse \<Rightarrow> u32 \<Rightarrow> CMessage_Packet \<Rightarrow> ('s, 'p) tcp_client_world \<Rightarrow> CMessage_Packet option" where
  "tcp_client_format_send_packet pk connect_id message W =
     pk_format_send_buffer pk connect_id message (tc_io_type (iw_session W)) (iw_parser W)"

definition tcp_client_send_write_fail_to_logic ::
  "'s \<Rightarrow> bytes \<Rightarrow> nat \<Rightarrow> ('s, 'p) tcp_client_world \<Rightarrow> ('s, 'p) tcp_client_world option" where
  "tcp_client_send_write_fail_to_logic self write_fail_buffer buffer_length W = do {
     w \<leftarrow> assignation_thread_module_logic_with_events (tc_connect_id (iw_session W))
            [write_fail_packet write_fail_buffer buffer_length] self (iw_logic W);
     Some (W \<lparr> iw_logic := w \<rparr>) }"

text \<open>The handler of a write, after \<open>len\<close> bytes.\<close>

definition tcp_client_write_finish ::
  "'s \<Rightarrow> bool \<Rightarrow> bytes \<Rightarrow> nat \<Rightarrow> ('s, 'p) tcp_client_world \<Rightarrow> ('s, 'p) tcp_client_world option" where
  "tcp_client_write_finish self ec send_buffer len W =
    (if ec then tcp_client_send_write_fail_to_logic self send_buffer len W
     else Some (W \<lparr> iw_session := tcp_client_add_send_finish_size len (iw_session W) \<rparr>))"

definition tcp_client_do_read_some ::
  "'s session_ops \<Rightarrow> 'p packet_parse \<Rightarrow> 's \<Rightarrow> int \<Rightarrow> bytes option \<Rightarrow> ('s, 'p) tcp_client_world \<Rightarrow> ('s, 'p) tcp_client_world option" where
  "tcp_client_do_read_some S pk self now received W =
    (let t = iw_session W in
     case received of
       Some data \<Rightarrow> do {
         sb \<leftarrow> write_memory (get_curr_write_ptr (tc_recv_buffer t)) data (tc_recv_buffer t);
         let t = t \<lparr> tc_recv_data_size := tc_recv_data_size t + of_nat (length data),
                     tc_recv_buffer := snd (set_write_data (length data) sb) \<rparr>;
         (fresh, peer, sb, p, w) \<leftarrow> received_data S pk self (tc_connect_id t) (tc_io_bridge_connect_id t) (tc_io_state t)
           (tc_io_type t) (length data) (tc_recv_buffer t) (iw_parser W) (iw_logic W);
         let t = t \<lparr> tc_recv_buffer := sb, tc_io_bridge_connect_id := peer,
                     tc_recv_data_time := if fresh then now else tc_recv_data_time t \<rparr>;
         Some (tcp_client_do_read self (W \<lparr> iw_session := t, iw_parser := p, iw_logic := w \<rparr>)) }
     | None \<Rightarrow> do {
         w \<leftarrow> close_session_event (tc_connect_id t) (Some self) (iw_logic W);
         Some (W \<lparr> iw_logic := w, iw_session := t \<lparr> tc_is_connect := False \<rparr> \<rparr>) })"

text \<open>
  \<open>handle_connect\<close>: \<open>ends\<close> are the end points of the socket, which cannot be read when the
  connection is already gone.  A failed connect has no \<open>Some count_index\<close>.
\<close>

definition tcp_client_handle_connect ::
  "'s session_ops \<Rightarrow> 'p packet_parse option \<Rightarrow> 's \<Rightarrow> int \<Rightarrow> u32 option \<Rightarrow> (ClientIPInfo \<times> ClientIPInfo) option \<Rightarrow>
   ('s, 'p) tcp_client_world \<Rightarrow> ('s, 'p) tcp_client_world option" where
  "tcp_client_handle_connect S P self now connected ends W =
    (let t = iw_session W in
     case connected of
       Some count_index \<Rightarrow> do {
         let t = t \<lparr> tc_is_connect := True, tc_connect_id := fst (CreateCounter count_index), tc_recv_data_time := now \<rparr>;
         (remote, loc) \<leftarrow> ends;
         let t = t \<lparr> tc_remote_ip := remote, tc_local_ip := loc \<rparr>;
         pk \<leftarrow> P;
         let p = pk_connect pk (tc_connect_id t) remote loc (tc_io_type t) (iw_parser W);
         w \<leftarrow> add_thread_session S (tc_connect_id t) self loc remote (iw_logic W);
         Some (tcp_client_do_read self (W \<lparr> iw_session := t, iw_parser := p, iw_logic := w \<rparr>)) }
     | None \<Rightarrow>
         let t = t \<lparr> tc_is_connect := False \<rparr> in
         Some (W \<lparr> iw_session := t, iw_logic := add_frame_events LOGIC_CONNECT_SERVER_ERROR (tc_server_id t)
           (m_strClientIP (tc_remote_ip t)) (m_u2Port (tc_remote_ip t)) (tc_io_type t) (iw_logic W) \<rparr>))"

text \<open>The functions given to \<open>dispatch\<close>.\<close>

definition tcp_client_run_lambda ::
  "'s session_ops \<Rightarrow> 'p packet_parse option \<Rightarrow> 's \<Rightarrow> tcp_client_lambda \<Rightarrow> ('s, 'p) tcp_client_world \<Rightarrow>
   ('s, 'p) tcp_client_world option" where
  "tcp_client_run_lambda S P self l W =
    (let t = iw_session W in
     case l of
       LC_Write data \<Rightarrow> Some (W \<lparr> iw_session := t \<lparr> tc_writes := tc_writes t @ [data] \<rparr> \<rparr>)
     | LC_Close connect_id io_type remote_ip \<Rightarrow> do {
         pk \<leftarrow> P;
         w \<leftarrow> delete_thread_session S connect_id self remote_ip io_type (iw_logic W);
         Some (W \<lparr> iw_parser := pk_disconnect pk connect_id io_type (iw_parser W), iw_logic := w,
           iw_session := t \<lparr> tc_open := False \<rparr> \<rparr>) })"

text \<open>
  Calls on the session and the completions of what it has started.  \<open>EC_Released\<close>: the
  list of server connections, the only owner of a session that is connecting, drops it.
\<close>

datatype tcp_client_event =
    EC_Connected int u32 "(ClientIPInfo \<times> ClientIPInfo) option"
  | EC_Connect_Error int
  | EC_Released
  | EC_Read int bytes
  | EC_Read_Error int
  | EC_Written nat
  | EC_Write_Error nat nat
  | EC_Run nat
  | EC_Set_Write_Buffer bytes
  | EC_Do_Write
  | EC_Write_Immediately bytes
  | EC_Close u32
  | EC_Set_Bridge u32 u32

definition tcp_client_connect_done ::
  "'s session_ops \<Rightarrow> 'p packet_parse option \<Rightarrow> 's \<Rightarrow> int \<Rightarrow> u32 option \<Rightarrow> (ClientIPInfo \<times> ClientIPInfo) option \<Rightarrow>
   ('s, 'p) tcp_client_world \<Rightarrow> ('s, 'p) tcp_client_world option" where
  "tcp_client_connect_done S P self now connected ends W =
    (if \<not> tc_connecting (iw_session W) then Some W
     else if \<not> tc_alive (iw_session W) then None
     else tcp_client_handle_connect S P self now connected ends
       (W \<lparr> iw_session := (iw_session W) \<lparr> tc_connecting := False \<rparr> \<rparr>))"

definition tcp_client_write_done ::
  "'s \<Rightarrow> bool \<Rightarrow> nat \<Rightarrow> nat \<Rightarrow> ('s, 'p) tcp_client_world \<Rightarrow> ('s, 'p) tcp_client_world option" where
  "tcp_client_write_done self ec i len W =
    (let t = iw_session W in
     if i < length (tc_writes t) \<and> len \<le> length (tc_writes t ! i)
     then tcp_client_write_finish self ec (tc_writes t ! i) len
       (W \<lparr> iw_session := t \<lparr> tc_writes := remove_nth i (tc_writes t) \<rparr> \<rparr>) else Some W)"

fun tcp_client_step ::
  "'s session_ops \<Rightarrow> 'p packet_parse option \<Rightarrow> 's \<Rightarrow> tcp_client_event \<Rightarrow> ('s, 'p) tcp_client_world \<Rightarrow> ('s, 'p) tcp_client_world option" where
  "tcp_client_step S P self (EC_Connected now count_index ends) W =
     tcp_client_connect_done S P self now (Some count_index) ends W"
| "tcp_client_step S P self (EC_Connect_Error now) W = tcp_client_connect_done S P self now None None W"
| "tcp_client_step S P self EC_Released W =
    (if tc_connecting (iw_session W) then Some (W \<lparr> iw_session := (iw_session W) \<lparr> tc_alive := False \<rparr> \<rparr>) else Some W)"
| "tcp_client_step S P self (EC_Read now data) W =
    (case (tc_reading (iw_session W), P) of
       (Some n, Some pk) \<Rightarrow> if length data \<le> n
         then tcp_client_do_read_some S pk self now (Some data) (W \<lparr> iw_session := (iw_session W) \<lparr> tc_reading := None \<rparr> \<rparr>)
         else Some W
     | (Some n, None) \<Rightarrow> None
     | (None, _) \<Rightarrow> Some W)"
| "tcp_client_step S P self (EC_Read_Error now) W =
    (case (tc_reading (iw_session W), P) of
       (Some n, Some pk) \<Rightarrow> tcp_client_do_read_some S pk self now None (W \<lparr> iw_session := (iw_session W) \<lparr> tc_reading := None \<rparr> \<rparr>)
     | (Some n, None) \<Rightarrow> None
     | (None, _) \<Rightarrow> Some W)"
| "tcp_client_step S P self (EC_Written i) W =
     (if i < length (tc_writes (iw_session W))
      then tcp_client_write_done self False i (length (tc_writes (iw_session W) ! i)) W else Some W)"
| "tcp_client_step S P self (EC_Write_Error i len) W = tcp_client_write_done self True i len W"
| "tcp_client_step S P self (EC_Run i) W =
    (let t = iw_session W in
     if i < length (tc_lambdas t)
     then tcp_client_run_lambda S P self (tc_lambdas t ! i)
       (W \<lparr> iw_session := t \<lparr> tc_lambdas := remove_nth i (tc_lambdas t) \<rparr> \<rparr>) else Some W)"
| "tcp_client_step S P self (EC_Set_Write_Buffer data) W = do {
     t \<leftarrow> tcp_client_set_write_buffer data (iw_session W);
     Some (W \<lparr> iw_session := t \<rparr>) }"
| "tcp_client_step S P self EC_Do_Write W = Some (W \<lparr> iw_session := tcp_client_do_write (iw_session W) \<rparr>)"
| "tcp_client_step S P self (EC_Write_Immediately data) W =
     Some (W \<lparr> iw_session := tcp_client_do_write_immediately data (iw_session W) \<rparr>)"
| "tcp_client_step S P self (EC_Close connect_id) W =
     Some (W \<lparr> iw_session := tcp_client_close connect_id (iw_session W) \<rparr>)"
| "tcp_client_step S P self (EC_Set_Bridge from_id to_id) W =
     Some (W \<lparr> iw_session := tcp_client_set_io_bridge_connect_id from_id to_id (iw_session W) \<rparr>)"

definition tcp_client_run ::
  "'s session_ops \<Rightarrow> 'p packet_parse option \<Rightarrow> 's \<Rightarrow> tcp_client_event list \<Rightarrow> ('s, 'p) tcp_client_world \<Rightarrow>
   ('s, 'p) tcp_client_world option" where
  "tcp_client_run S P self = run_steps (tcp_client_step S P self)"

definition tcp_client_inv :: "('s, 'p) tcp_client_world \<Rightarrow> bool" where
  "tcp_client_inv W \<longleftrightarrow> wt_safe (iw_logic W) \<and> sb_inv (tc_recv_buffer (iw_session W)) \<and> sb_inv (tc_send_buffer (iw_session W)) \<and>
     tc_alive (iw_session W) \<and>
     (\<forall>n. tc_reading (iw_session W) = Some n \<longrightarrow> n = get_buffer_size (tc_recv_buffer (iw_session W)))"

text \<open>The events that keep the session: it is not released while connecting, and its end points can be read.\<close>

fun harmless :: "tcp_client_event \<Rightarrow> bool" where
  "harmless (EC_Connected now count_index ends) = (ends \<noteq> None)"
| "harmless EC_Released = False"
| "harmless _ = True"

text \<open>An answer as the dispatcher gives it to a session: \<open>set_write_buffer\<close> and \<open>do_write\<close>.\<close>

definition tcp_client_answer :: "bytes \<Rightarrow> CTcpClientSession \<Rightarrow> CTcpClientSession option" where
  "tcp_client_answer data t = do {
     t \<leftarrow> tcp_client_set_write_buffer data t;
     Some (tcp_client_do_write t) }"

fun tcp_client_answers :: "bytes list \<Rightarrow> CTcpClientSession \<Rightarrow> CTcpClientSession option" where
  "tcp_client_answers [] t = Some t"
| "tcp_client_answers (d # ds) t = (case tcp_client_answer d t of None \<Rightarrow> None | Some t \<Rightarrow> tcp_client_answers ds t)"

definition tcp_client_ok :: "('s, 'p) tcp_client_world option \<Rightarrow> bool" where
  "tcp_client_ok r = (case r of Some W \<Rightarrow> tcp_client_inv W | None \<Rightarrow> False)"


subsection \<open>No event is undefined\<close>

lemma tcp_client_ok_Some [simp]: "tcp_client_ok (Some W) = tcp_client_inv W"
  by (simp add: tcp_client_ok_def)

lemma tcp_client_okE: "tcp_client_ok r \<Longrightarrow> (\<And>W. r = Some W \<Longrightarrow> tcp_client_inv W \<Longrightarrow> P) \<Longrightarrow> P"
  by (auto simp: tcp_client_ok_def split: option.splits)

lemma client_bind_safe: "ends_safe r \<Longrightarrow> (\<And>w. wt_safe w \<Longrightarrow> tcp_client_ok (f w)) \<Longrightarrow> tcp_client_ok (r \<bind> f)"
  by (auto elim: ends_safeE)

lemma client_inv_session:
  "tcp_client_inv W \<Longrightarrow> tc_recv_buffer t = tc_recv_buffer (iw_session W) \<Longrightarrow> sb_inv (tc_send_buffer t) \<Longrightarrow>
   tc_alive t = tc_alive (iw_session W) \<Longrightarrow> tc_reading t = tc_reading (iw_session W) \<or> tc_reading t = None \<Longrightarrow>
   tcp_client_inv (W \<lparr> iw_session := t \<rparr>)"
  by (auto simp: tcp_client_inv_def)

lemma client_ok_read:
  "wt_safe (iw_logic W) \<Longrightarrow> sb_inv (tc_recv_buffer (iw_session W)) \<Longrightarrow> sb_inv (tc_send_buffer (iw_session W)) \<Longrightarrow>
   tc_alive (iw_session W) \<Longrightarrow> tcp_client_inv (tcp_client_do_read self W)"
  by (simp add: tcp_client_do_read_def tcp_client_inv_def Let_def wt_safe_post)

lemma client_ok_set_write:
  assumes "sb_inv (tc_send_buffer t)"
  obtains sb where "tcp_client_set_write_buffer data t = Some (t \<lparr> tc_send_buffer := sb \<rparr>)" "sb_inv sb"
    "sb_max_buff_size sb = sb_max_buff_size (tc_send_buffer t)"
    "contents sb = (if length (contents (tc_send_buffer t)) + length data < sb_max_buff_size (tc_send_buffer t)
       then contents (tc_send_buffer t) @ data else contents (tc_send_buffer t))"
proof (cases "get_buffer_size (tc_send_buffer t) \<le> length data")
  case True
  thus thesis using assms by (intro that [of "tc_send_buffer t"])
    (auto simp: tcp_client_set_write_buffer_def get_buffer_size_def sb_inv_def)
next
  case False
  then obtain sb' where "write_memory (get_curr_write_ptr (tc_send_buffer t)) data (tc_send_buffer t) = Some sb'"
      "sb_inv (snd (set_write_data (length data) sb'))"
      "contents (snd (set_write_data (length data) sb')) = contents (tc_send_buffer t) @ data"
      "sb_max_buff_size (snd (set_write_data (length data) sb')) = sb_max_buff_size (tc_send_buffer t)"
    using recv_commit [OF assms, of data] by auto
  thus thesis using False assms by (intro that [of "snd (set_write_data (length data) sb')"])
    (auto simp: tcp_client_set_write_buffer_def get_buffer_size_def sb_inv_def)
qed

lemma client_do_write_inv [simp]:
  "sb_inv (tc_send_buffer t) \<Longrightarrow> sb_inv (tc_send_buffer (tcp_client_do_write t))"
  "tc_recv_buffer (tcp_client_do_write t) = tc_recv_buffer t" "tc_alive (tcp_client_do_write t) = tc_alive t"
  "tc_reading (tcp_client_do_write t) = tc_reading t"
  by (simp_all add: tcp_client_do_write_def tcp_client_clear_write_buffer_def Let_def)

lemma client_ok_fail: "tcp_client_inv W \<Longrightarrow> tcp_client_ok (tcp_client_send_write_fail_to_logic self buf n W)"
  unfolding tcp_client_send_write_fail_to_logic_def
  by (rule client_bind_safe, rule safe_assignation(3)) (simp_all add: tcp_client_inv_def)

lemma client_ok_write_done: "tcp_client_inv W \<Longrightarrow> tcp_client_ok (tcp_client_write_done self ec i n W)"
  by (auto simp: tcp_client_write_done_def tcp_client_write_finish_def tcp_client_add_send_finish_size_def Let_def
      intro!: client_ok_fail client_inv_session) (simp_all add: tcp_client_inv_def)

lemma client_ok_lambda: "tcp_client_inv W \<Longrightarrow> tcp_client_ok (tcp_client_run_lambda S (Some pk) self l W)"
  by (cases l) (auto simp: tcp_client_run_lambda_def Let_def tcp_client_inv_def intro!: client_bind_safe dispatcher_safe)

lemma client_ok_read_some:
  assumes "parser_ok pk" "tcp_client_inv W" "tc_reading (iw_session W) = None"
    "\<forall>data. received = Some data \<longrightarrow> length data \<le> get_buffer_size (tc_recv_buffer (iw_session W))"
  shows "tcp_client_ok (tcp_client_do_read_some S pk self now received W)"
proof (cases received)
  case None
  thus ?thesis using assms(2) by (auto simp: tcp_client_do_read_some_def Let_def tcp_client_inv_def intro!: client_bind_safe dispatcher_safe)
next
  case (Some data)
  let ?t = "iw_session W"
  have i: "wt_safe (iw_logic W)" "sb_inv (tc_recv_buffer ?t)" "sb_inv (tc_send_buffer ?t)" "tc_alive ?t"
    using assms(2) by (simp_all add: tcp_client_inv_def)
  obtain sb where sb: "write_memory (get_curr_write_ptr (tc_recv_buffer ?t)) data (tc_recv_buffer ?t) = Some sb"
    "sb_inv (snd (set_write_data (length data) sb))" "length data \<le> length (sb_buffer (snd (set_write_data (length data) sb)))"
    using recv_commit [OF i(2), of data] assms(4) Some by blast
  obtain b peer' sb' p' w' where "received_data S pk self (tc_connect_id ?t) (tc_io_bridge_connect_id ?t) (tc_io_state ?t) (tc_io_type ?t)
      (length data) (snd (set_write_data (length data) sb)) (iw_parser W) (iw_logic W) = Some (b, peer', sb', p', w')"
    "sb_inv sb'" "wt_safe w'"
    by (rule received_dataE [OF assms(1) i(1) sb(2,3)])
  thus ?thesis using Some sb(1) i by (auto simp: tcp_client_do_read_some_def Let_def intro!: client_ok_read)
qed

lemma client_ok_connect:
  assumes "tcp_client_inv W" "connected \<noteq> None \<longrightarrow> ends \<noteq> None"
  shows "tcp_client_ok (tcp_client_connect_done S (Some pk) self now connected ends W)"
proof (cases connected)
  case None
  thus ?thesis using assms(1)
    by (simp add: tcp_client_connect_done_def tcp_client_handle_connect_def Let_def tcp_client_inv_def add_frame_events_def wt_safe_post)
next
  case (Some n)
  with assms(2) obtain r l where e: "ends = Some (r, l)" by auto
  have i: "wt_safe (iw_logic W)" "sb_inv (tc_recv_buffer (iw_session W))" "sb_inv (tc_send_buffer (iw_session W))"
    "tc_alive (iw_session W)" using assms(1) by (simp_all add: tcp_client_inv_def)
  obtain w where "add_thread_session S (n + 1) self l r (iw_logic W) = Some w" "wt_safe w"
    by (rule ends_safeE [OF safe_connect [OF i(1)]])
  thus ?thesis using Some e i assms(1)
    by (auto simp: tcp_client_connect_done_def tcp_client_handle_connect_def Let_def CreateCounter_def intro!: client_ok_read)
qed

lemma client_ok_step:
  assumes "parser_ok pk" "tcp_client_inv W" "harmless e"
  shows "tcp_client_ok (tcp_client_step S (Some pk) self e W)"
proof (cases e)
  case (EC_Read now data)
  show ?thesis
  proof (cases "tc_reading (iw_session W)")
    case (Some n)
    hence "n = get_buffer_size (tc_recv_buffer (iw_session W))" using assms(2) by (simp add: tcp_client_inv_def)
    thus ?thesis using EC_Read Some assms(2)
      by (auto intro!: client_ok_read_some [OF assms(1)] client_inv_session) (simp_all add: tcp_client_inv_def)
  qed (use EC_Read assms(2) in simp)
next
  case (EC_Read_Error now)
  thus ?thesis using assms(2) by (auto intro!: client_ok_read_some [OF assms(1)] client_inv_session split: option.split)
    (simp_all add: tcp_client_inv_def)
next
  case (EC_Set_Write_Buffer data)
  have "sb_inv (tc_send_buffer (iw_session W))" using assms(2) by (simp add: tcp_client_inv_def)
  then obtain sb where "tcp_client_set_write_buffer data (iw_session W) = Some ((iw_session W) \<lparr> tc_send_buffer := sb \<rparr>)" "sb_inv sb"
    by (rule client_ok_set_write)
  thus ?thesis using EC_Set_Write_Buffer assms(2) by (auto intro!: client_inv_session)
next
  case (EC_Run i)
  thus ?thesis using assms(2) by (auto simp: Let_def intro!: client_ok_lambda client_inv_session) (simp add: tcp_client_inv_def)
qed (use assms(2,3) in \<open>auto intro!: client_ok_connect client_ok_write_done client_inv_session\<close>,
  (simp_all add: tcp_client_inv_def tcp_client_do_write_immediately_def tcp_client_close_def tcp_client_set_io_bridge_connect_id_def
    split: if_splits))

lemma client_ok_run:
  "parser_ok pk \<Longrightarrow> tcp_client_inv W \<Longrightarrow> \<forall>e \<in> set es. harmless e \<Longrightarrow> tcp_client_ok (tcp_client_run S (Some pk) self es W)"
  unfolding tcp_client_run_def
proof (induction es arbitrary: W)
  case (Cons e es)
  obtain W' where "tcp_client_step S (Some pk) self e W = Some W'" "tcp_client_inv W'"
    by (rule tcp_client_okE [OF client_ok_step [of pk W e]]) (use Cons.prems in simp_all)
  with Cons show ?case by simp
qed simp


text \<open>A released session stays dead until the connect completes.\<close>

lemma client_dead_step:
  assumes "tc_connecting (iw_session W)" "\<not> tc_alive (iw_session W)" "tcp_client_step S P self e W = Some W'"
  shows "tc_connecting (iw_session W') \<and> \<not> tc_alive (iw_session W')"
proof -
  have read: "tcp_client_do_read_some S pk self now r V = Some W' \<Longrightarrow>
      tc_connecting (iw_session W') = tc_connecting (iw_session V) \<and> tc_alive (iw_session W') = tc_alive (iw_session V)" for pk now r V
    by (auto simp: tcp_client_do_read_some_def tcp_client_do_read_def Let_def split: option.splits bind_splits prod.splits)
  have lam: "tcp_client_run_lambda S P self l V = Some W' \<Longrightarrow>
      tc_connecting (iw_session W') = tc_connecting (iw_session V) \<and> tc_alive (iw_session W') = tc_alive (iw_session V)" for l V
    by (auto simp: tcp_client_run_lambda_def Let_def split: tcp_client_lambda.splits bind_splits)
  have wr: "tcp_client_write_done self ec i n W = Some W' \<Longrightarrow>
      tc_connecting (iw_session W') = tc_connecting (iw_session W) \<and> tc_alive (iw_session W') = tc_alive (iw_session W)" for ec i n
    by (auto simp: tcp_client_write_done_def tcp_client_write_finish_def tcp_client_send_write_fail_to_logic_def
        tcp_client_add_send_finish_size_def Let_def split: if_splits bind_splits)
  show ?thesis using assms
    by (cases e) (auto simp: tcp_client_connect_done_def tcp_client_set_write_buffer_def tcp_client_do_write_def
        tcp_client_clear_write_buffer_def tcp_client_do_write_immediately_def tcp_client_close_def
        tcp_client_set_io_bridge_connect_id_def Let_def dest!: read lam wr split: option.splits if_splits bind_splits)
qed

lemma client_dead_run:
  "tc_connecting (iw_session W) \<Longrightarrow> \<not> tc_alive (iw_session W) \<Longrightarrow>
   run_steps (tcp_client_step S P self) (es @ [EC_Connect_Error now]) W = None"
proof (induction es arbitrary: W)
  case Nil
  thus ?case by (simp add: tcp_client_connect_done_def)
next
  case (Cons e es)
  thus ?case using client_dead_step [of W S P self e] by (cases "tcp_client_step S P self e W") auto
qed

lemma client_answer:
  assumes "tc_is_connect t" "sb_inv (tc_send_buffer t)" "contents (tc_send_buffer t) = []"
  obtains t' where "tcp_client_answer d t = Some t'" "tc_is_connect t'" "sb_inv (tc_send_buffer t')" "contents (tc_send_buffer t') = []"
    "sb_max_buff_size (tc_send_buffer t') = sb_max_buff_size (tc_send_buffer t)"
    "tc_writes t' = tc_writes t @ [if length d < sb_max_buff_size (tc_send_buffer t) then d else []]"
proof -
  obtain sb where sb: "tcp_client_set_write_buffer d t = Some (t \<lparr> tc_send_buffer := sb \<rparr>)" "sb_inv sb"
      "sb_max_buff_size sb = sb_max_buff_size (tc_send_buffer t)"
      "contents sb = (if length d < sb_max_buff_size (tc_send_buffer t) then d else [])"
    by (rule client_ok_set_write [OF assms(2), of d]) (use assms(3) in auto)
  have "mem_slice (read_ptr sb) (get_write_size sb) (sb_buffer sb) = contents sb"
    by (simp add: mem_slice_def read_ptr_def get_write_size_def contents_def)
  with sb assms(1) show thesis
    by (intro that [of "tcp_client_do_write (t \<lparr> tc_send_buffer := sb \<rparr>)"])
      (auto simp: tcp_client_answer_def tcp_client_do_write_def tcp_client_clear_write_buffer_def Let_def contents_move_buffer get_write_size_def)
qed


subsection \<open>Main properties\<close>



text \<open>
  A link that is dropped while it connects is used after it was freed: the handler of
  \<open>async_connect\<close> holds a plain pointer, and \<open>close_connect\<close> removes the only shared one.
  Whatever happens in between, the completion of the connect runs on the dead object.
\<close>

theorem dropped_client_used_after_free:
  assumes "tc_connecting (iw_session W)"
  shows "tcp_client_run S P self (EC_Released # es @ [EC_Connect_Error now]) W = None"
  using client_dead_run [of "W \<lparr> iw_session := (iw_session W) \<lparr> tc_alive := False \<rparr> \<rparr>" S P self es now] assms
  by (simp add: tcp_client_run_def)

theorem dropped_client_used_after_free_witness:
  "tcp_client_run echo_ops (Some one_message_parser) 7 (EC_Released # [EC_Do_Write] @ [EC_Connect_Error 1])
    \<lparr> iw_session = snd (the (tcp_client_start (\<lambda>s. True) True [0] [0] CConnect_IO_Info_default (CTcpClientSession_ctor 0))),
      iw_parser = (), iw_logic = echo_server \<rparr> = None"
  by (rule dropped_client_used_after_free) (simp add: tcp_client_start_def CConnect_IO_Info_default_def Let_def)



text \<open>
  With a single work thread a client that fills its receive buffer is not closed: the
  close is posted to the task thread 1, which does not exist, and is lost.
\<close>

theorem full_client_not_closed:
  assumes "tms_is_start (wt_tms (iw_logic W))" "m_mapLogicList (wt_tms (iw_logic W)) 1 = None"
  shows "iw_logic (tcp_client_do_read self W) = iw_logic W"
  using assms by (simp add: tcp_client_do_read_def post_def AddMessage_def Let_def)

end
