(* ===== verification/Udp_Client.thy ===== *)
theory Udp_Client
  imports Client_Common
begin

text \<open>
  A UDP connection this server opens to another one: a connected socket with a receive
  buffer and a send buffer of fixed size.  The outstanding receive is \<open>uc_receiving\<close>, the
  functions given to \<open>dispatch\<close> are \<open>uc_lambdas\<close>, the datagrams handed to the socket
  \<open>uc_sending\<close>.  \<open>None\<close> is undefined behaviour or an exception that leaves the thread.
\<close>


section \<open>UDP client sessions (UdpSession/UdpClientSession)\<close>


subsection \<open>Definitions\<close>

datatype udp_client_lambda = LU_Close u32 EM_CONNECT_IO_TYPE ClientIPInfo | LU_Send u32 bytes

record CUdpClientSession =
  uc_server_id :: u32
  uc_connect_id :: u32
  uc_io_bridge_connect_id :: u32
  uc_recv_buffer :: CSessionBuffer
  uc_send_buffer :: CSessionBuffer
  uc_send_endpoint :: ClientIPInfo
  uc_recv_data_size :: u64
  uc_send_data_size :: u64
  uc_recv_data_time :: int
  uc_io_type :: EM_CONNECT_IO_TYPE
  uc_io_state :: EM_SESSION_STATE
  uc_open :: bool
  uc_remote :: "ClientIPInfo option"
  uc_receiving :: "nat option"
  uc_lambdas :: "udp_client_lambda list"
  uc_sending :: "(ClientIPInfo \<times> bytes) list"

type_synonym ('s, 'p) udp_client_world = "(CUdpClientSession, 's, 'p) io_world"

definition CUdpClientSession_ctor :: "int \<Rightarrow> CUdpClientSession" where
  "CUdpClientSession_ctor now = \<lparr> uc_server_id = 0, uc_connect_id = 0, uc_io_bridge_connect_id = 0,
     uc_recv_buffer = Init [], uc_send_buffer = Init [], uc_send_endpoint = ClientIPInfo_default, uc_recv_data_size = 0,
     uc_send_data_size = 0, uc_recv_data_time = now, uc_io_type = CONNECT_IO_SERVER_UDP, uc_io_state = SESSION_IO_LOGIC,
     uc_open = False, uc_remote = None, uc_receiving = None, uc_lambdas = [], uc_sending = [] \<rparr>"

definition udp_client_do_receive :: "'s \<Rightarrow> ('s, 'p) udp_client_world \<Rightarrow> ('s, 'p) udp_client_world option" where
  "udp_client_do_receive self W =
    (let t = iw_session W in do {
       w \<leftarrow> (if get_buffer_size (uc_recv_buffer t) = 0
             then close_session_event (uc_connect_id t) (Some self) (iw_logic W) else Some (iw_logic W));
       Some (W \<lparr> iw_logic := w, iw_session := t \<lparr> uc_receiving := Some (get_buffer_size (uc_recv_buffer t)) \<rparr> \<rparr>) })"

text \<open>
  \<open>start\<close>, with the memory of the buffers and what asio gives: which texts are addresses,
  whether the socket could be opened, and the end points when it could be connected.
\<close>

definition udp_client_start ::
  "'s session_ops \<Rightarrow> 'p packet_parse option \<Rightarrow> 's \<Rightarrow> (string \<Rightarrow> bool) \<Rightarrow> bool \<Rightarrow> (ClientIPInfo \<times> ClientIPInfo) option \<Rightarrow>
   u32 \<Rightarrow> int \<Rightarrow> bytes \<Rightarrow> bytes \<Rightarrow> CConnect_IO_Info \<Rightarrow> ('s, 'p) udp_client_world \<Rightarrow> (u32 \<times> ('s, 'p) udp_client_world) option" where
  "udp_client_start S P self is_address opens connected count_index now recv_mem send_mem io_info W =
    (let t = (iw_session W) \<lparr> uc_recv_buffer := Init recv_mem, uc_send_buffer := Init send_mem,
               uc_server_id := ci_server_id io_info,
               uc_send_endpoint := ClientIPInfo (ci_server_ip io_info) (ci_server_port io_info), uc_open := True \<rparr> in
     if \<not> is_address (ci_server_ip io_info) \<or> \<not> opens then None
     else if length (ci_client_ip io_info) > 0 \<and> ci_client_port io_info > 0 \<and> \<not> is_address (ci_client_ip io_info) then None
     else case connected of
       None \<Rightarrow> Some (count_index, W \<lparr> iw_session := t \<rparr>)
     | Some (remote, loc) \<Rightarrow> do {
         let (c, count_index) = CreateCounter count_index;
         let t = t \<lparr> uc_connect_id := c, uc_recv_data_time := now, uc_remote := Some remote \<rparr>;
         pk \<leftarrow> P;
         let p = pk_connect pk c remote loc (uc_io_type t) (iw_parser W);
         w \<leftarrow> add_thread_session S c self loc remote (iw_logic W);
         W' \<leftarrow> udp_client_do_receive self (W \<lparr> iw_session := t, iw_parser := p, iw_logic := w \<rparr>);
         Some (count_index, W') })"

text \<open>\<open>remote_endpoint\<close> throws on a socket that is not connected.\<close>

definition udp_client_get_remote_ip :: "CUdpClientSession \<Rightarrow> ClientIPInfo option" where
  "udp_client_get_remote_ip t = (if uc_open t then uc_remote t else None)"

definition udp_client_close :: "u32 \<Rightarrow> CUdpClientSession \<Rightarrow> CUdpClientSession option" where
  "udp_client_close connect_id t =
    (if \<not> uc_open t then Some t
     else do {
       remote_info \<leftarrow> udp_client_get_remote_ip t;
       Some (t \<lparr> uc_lambdas := uc_lambdas t @ [LU_Close connect_id (uc_io_type t) remote_info] \<rparr>) })"

definition udp_client_clear_write_buffer :: "nat \<Rightarrow> CUdpClientSession \<Rightarrow> CUdpClientSession" where
  "udp_client_clear_write_buffer len t = t \<lparr> uc_send_buffer := move_buffer len (uc_send_buffer t) \<rparr>"

definition udp_client_send_io_data :: "u32 \<Rightarrow> bytes \<Rightarrow> CUdpClientSession \<Rightarrow> CUdpClientSession" where
  "udp_client_send_io_data connect_id send_buffer t =
    (if \<not> uc_open t then t
     else
       let t = udp_client_clear_write_buffer (length send_buffer) t in
       t \<lparr> uc_lambdas := uc_lambdas t @ [LU_Send connect_id send_buffer] \<rparr>)"

definition udp_client_do_write :: "u32 \<Rightarrow> CUdpClientSession \<Rightarrow> CUdpClientSession" where
  "udp_client_do_write connect_id t =
    (let sb = uc_send_buffer t;
         data = mem_slice (read_ptr sb) (get_write_size sb) (sb_buffer sb) in
     udp_client_send_io_data connect_id data (t \<lparr> uc_send_buffer := move_buffer (get_write_size sb) sb \<rparr>))"

text \<open>\<open>std::memcpy\<close> to the write position of the send buffer, without looking at its size.\<close>

definition append_send_buffer :: "bytes \<Rightarrow> CUdpClientSession \<Rightarrow> CUdpClientSession option" where
  "append_send_buffer data t = do {
     sb \<leftarrow> write_memory (get_curr_write_ptr (uc_send_buffer t)) data (uc_send_buffer t);
     Some (t \<lparr> uc_send_buffer := snd (set_write_data (length data) sb) \<rparr>) }"

definition udp_client_set_write_buffer :: "bytes \<Rightarrow> CUdpClientSession \<Rightarrow> CUdpClientSession option" where
  "udp_client_set_write_buffer data t = append_send_buffer data t"

definition udp_client_do_write_immediately :: "u32 \<Rightarrow> bytes \<Rightarrow> CUdpClientSession \<Rightarrow> CUdpClientSession" where
  "udp_client_do_write_immediately connect_id data t =
     udp_client_send_io_data connect_id data
       (t \<lparr> uc_send_buffer := move_buffer (get_write_size (uc_send_buffer t)) (uc_send_buffer t) \<rparr>)"

definition udp_client_add_send_finish_size :: "nat \<Rightarrow> CUdpClientSession \<Rightarrow> CUdpClientSession" where
  "udp_client_add_send_finish_size send_length t = t \<lparr> uc_send_data_size := uc_send_data_size t + of_nat send_length \<rparr>"

definition udp_client_get_mark_id :: "u32 \<Rightarrow> CUdpClientSession \<Rightarrow> u32" where
  "udp_client_get_mark_id connect_id t = uc_server_id t"

definition udp_client_set_io_bridge_connect_id :: "u32 \<Rightarrow> u32 \<Rightarrow> CUdpClientSession \<Rightarrow> CUdpClientSession" where
  "udp_client_set_io_bridge_connect_id from_io_connect_id to_io_connect_id t =
    (if to_io_connect_id > 0
     then t \<lparr> uc_io_state := SESSION_IO_BRIDGE, uc_io_bridge_connect_id := to_io_connect_id \<rparr>
     else t \<lparr> uc_io_state := SESSION_IO_LOGIC, uc_io_bridge_connect_id := 0 \<rparr>)"

definition udp_client_format_send_packet ::
  "'p packet_parse \<Rightarrow> u32 \<Rightarrow> CMessage_Packet \<Rightarrow> ('s, 'p) udp_client_world \<Rightarrow> CMessage_Packet option" where
  "udp_client_format_send_packet pk connect_id message W =
     pk_format_send_buffer pk connect_id message (uc_io_type (iw_session W)) (iw_parser W)"

text \<open>
  A receive that failed, or that put \<open>data\<close> at the write position.  The first
  \<open>length\<close> bytes of the receive buffer are copied into the send buffer as well.
\<close>

definition udp_client_do_receive_from ::
  "'s session_ops \<Rightarrow> 'p packet_parse \<Rightarrow> 's \<Rightarrow> int \<Rightarrow> bytes option \<Rightarrow> ('s, 'p) udp_client_world \<Rightarrow> ('s, 'p) udp_client_world option" where
  "udp_client_do_receive_from S pk self now received W =
    (let t = iw_session W in
     case received of
       None \<Rightarrow>
         if \<not> uc_open t then Some W
         else do {
           w \<leftarrow> close_session_event (uc_connect_id t) (Some self) (iw_logic W);
           Some (W \<lparr> iw_logic := w \<rparr>) }
     | Some data \<Rightarrow> do {
         sb \<leftarrow> write_memory (get_curr_write_ptr (uc_recv_buffer t)) data (uc_recv_buffer t);
         if \<not> uc_open t then Some (W \<lparr> iw_session := t \<lparr> uc_recv_buffer := sb \<rparr> \<rparr>)
         else do {
           let t = t \<lparr> uc_recv_data_size := uc_recv_data_size t + of_nat (length data),
                       uc_recv_buffer := snd (set_write_data (length data) sb) \<rparr>;
           t \<leftarrow> append_send_buffer (mem_slice (read_ptr (uc_recv_buffer t)) (length data) (sb_buffer (uc_recv_buffer t))) t;
           (fresh, peer, sb, p, w) \<leftarrow> received_data S pk self (uc_connect_id t) (uc_io_bridge_connect_id t) (uc_io_state t)
             (uc_io_type t) (length data) (uc_recv_buffer t) (iw_parser W) (iw_logic W);
           let sb = (if fresh then sb else move_buffer (length data) sb);
           let t = t \<lparr> uc_recv_buffer := move_buffer (length data) sb, uc_io_bridge_connect_id := peer,
                       uc_recv_data_time := if fresh then now else uc_recv_data_time t \<rparr>;
           udp_client_do_receive self (W \<lparr> iw_session := t, iw_parser := p, iw_logic := w \<rparr>) } })"

text \<open>The functions given to \<open>dispatch\<close>.\<close>

definition udp_client_run_lambda ::
  "'s session_ops \<Rightarrow> 'p packet_parse \<Rightarrow> 's \<Rightarrow> udp_client_lambda \<Rightarrow> ('s, 'p) udp_client_world \<Rightarrow>
   ('s, 'p) udp_client_world option" where
  "udp_client_run_lambda S pk self l W =
    (let t = iw_session W in
     case l of
       LU_Send connect_id data \<Rightarrow> Some (W \<lparr> iw_session := t \<lparr> uc_sending := uc_sending t @ [(uc_send_endpoint t, data)] \<rparr> \<rparr>)
     | LU_Close connect_id io_type remote_info \<Rightarrow> do {
         w \<leftarrow> delete_thread_session S connect_id self remote_info io_type (iw_logic W);
         Some (W \<lparr> iw_parser := pk_disconnect pk connect_id io_type (iw_parser W), iw_logic := w,
           iw_session := t \<lparr> uc_open := False \<rparr> \<rparr>) })"

text \<open>Calls on a started session and the completions of what it has started.\<close>

datatype udp_client_event =
    EU_Receive int bytes
  | EU_Receive_Error int
  | EU_Sent nat
  | EU_Send_Error nat
  | EU_Run nat
  | EU_Set_Write_Buffer bytes
  | EU_Do_Write u32
  | EU_Write_Immediately u32 bytes
  | EU_Close u32
  | EU_Set_Bridge u32 u32

fun udp_client_step ::
  "'s session_ops \<Rightarrow> 'p packet_parse \<Rightarrow> 's \<Rightarrow> udp_client_event \<Rightarrow> ('s, 'p) udp_client_world \<Rightarrow> ('s, 'p) udp_client_world option" where
  "udp_client_step S pk self (EU_Receive now data) W =
    (case uc_receiving (iw_session W) of
       Some n \<Rightarrow> if length data \<le> n
         then udp_client_do_receive_from S pk self now (Some data) (W \<lparr> iw_session := (iw_session W) \<lparr> uc_receiving := None \<rparr> \<rparr>)
         else Some W
     | None \<Rightarrow> Some W)"
| "udp_client_step S pk self (EU_Receive_Error now) W =
    (if uc_receiving (iw_session W) \<noteq> None
     then udp_client_do_receive_from S pk self now None (W \<lparr> iw_session := (iw_session W) \<lparr> uc_receiving := None \<rparr> \<rparr>)
     else Some W)"
| "udp_client_step S pk self (EU_Sent i) W =
    (let t = iw_session W in
     Some (if i < length (uc_sending t)
       then W \<lparr> iw_session := udp_client_add_send_finish_size (length (snd (uc_sending t ! i)))
              (t \<lparr> uc_sending := remove_nth i (uc_sending t) \<rparr>) \<rparr> else W))"
| "udp_client_step S pk self (EU_Send_Error i) W =
    (let t = iw_session W in
     Some (if i < length (uc_sending t) then W \<lparr> iw_session := t \<lparr> uc_sending := remove_nth i (uc_sending t) \<rparr> \<rparr> else W))"
| "udp_client_step S pk self (EU_Run i) W =
    (let t = iw_session W in
     if i < length (uc_lambdas t)
     then udp_client_run_lambda S pk self (uc_lambdas t ! i)
       (W \<lparr> iw_session := t \<lparr> uc_lambdas := remove_nth i (uc_lambdas t) \<rparr> \<rparr>) else Some W)"
| "udp_client_step S pk self (EU_Set_Write_Buffer data) W = do {
     t \<leftarrow> udp_client_set_write_buffer data (iw_session W);
     Some (W \<lparr> iw_session := t \<rparr>) }"
| "udp_client_step S pk self (EU_Do_Write c) W = Some (W \<lparr> iw_session := udp_client_do_write c (iw_session W) \<rparr>)"
| "udp_client_step S pk self (EU_Write_Immediately c data) W =
     Some (W \<lparr> iw_session := udp_client_do_write_immediately c data (iw_session W) \<rparr>)"
| "udp_client_step S pk self (EU_Close c) W = do {
     t \<leftarrow> udp_client_close c (iw_session W);
     Some (W \<lparr> iw_session := t \<rparr>) }"
| "udp_client_step S pk self (EU_Set_Bridge from_id to_id) W =
     Some (W \<lparr> iw_session := udp_client_set_io_bridge_connect_id from_id to_id (iw_session W) \<rparr>)"

definition udp_client_run ::
  "'s session_ops \<Rightarrow> 'p packet_parse \<Rightarrow> 's \<Rightarrow> udp_client_event list \<Rightarrow> ('s, 'p) udp_client_world \<Rightarrow>
   ('s, 'p) udp_client_world option" where
  "udp_client_run S pk self = run_steps (udp_client_step S pk self)"

text \<open>The state of a connected session.\<close>

definition udp_client_inv :: "('s, 'p) udp_client_world \<Rightarrow> bool" where
  "udp_client_inv W \<longleftrightarrow> wt_safe (iw_logic W) \<and> sb_inv (uc_recv_buffer (iw_session W)) \<and> sb_inv (uc_send_buffer (iw_session W)) \<and>
     uc_remote (iw_session W) \<noteq> None \<and>
     (\<forall>n. uc_receiving (iw_session W) = Some n \<longrightarrow> n = get_buffer_size (uc_recv_buffer (iw_session W)))"

text \<open>The bytes an event makes the code copy into the send buffer.\<close>

fun copied :: "udp_client_event \<Rightarrow> ('s, 'p) udp_client_world \<Rightarrow> nat" where
  "copied (EU_Receive now data) W =
    (case uc_receiving (iw_session W) of
       Some n \<Rightarrow> if length data \<le> n \<and> uc_open (iw_session W) then length data else 0
     | None \<Rightarrow> 0)"
| "copied (EU_Set_Write_Buffer data) W = length data"
| "copied _ W = 0"

definition overflows :: "udp_client_event \<Rightarrow> ('s, 'p) udp_client_world \<Rightarrow> bool" where
  "overflows e W \<longleftrightarrow> get_buffer_size (uc_send_buffer (iw_session W)) < copied e W"

definition udp_client_ok :: "('s, 'p) udp_client_world option \<Rightarrow> bool" where
  "udp_client_ok r = (case r of Some W \<Rightarrow> udp_client_inv W | None \<Rightarrow> False)"

text \<open>A connected session with eight bytes for each buffer, as an example.\<close>

definition udp_client_example :: "(nat, unit) udp_client_world" where
  "udp_client_example = \<lparr> iw_session = (CUdpClientSession_ctor 0) \<lparr> uc_connect_id := 3, uc_recv_buffer := Init (replicate 8 0),
     uc_send_buffer := Init (replicate 8 0), uc_open := True, uc_remote := Some ClientIPInfo_default, uc_receiving := Some 8 \<rparr>,
     iw_parser = (), iw_logic = echo_server \<rparr>"


subsection \<open>Undefined exactly when the send buffer overflows\<close>

lemma udp_client_ok_Some [simp]: "udp_client_ok (Some W) = udp_client_inv W"
  by (simp add: udp_client_ok_def)

lemma udp_client_okE: "udp_client_ok r \<Longrightarrow> (\<And>W. r = Some W \<Longrightarrow> udp_client_inv W \<Longrightarrow> P) \<Longrightarrow> P"
  by (auto simp: udp_client_ok_def split: option.splits)

lemma uc_bind_safe: "ends_safe r \<Longrightarrow> (\<And>w. wt_safe w \<Longrightarrow> udp_client_ok (f w)) \<Longrightarrow> udp_client_ok (r \<bind> f)"
  by (auto elim: ends_safeE)

lemma uc_inv_session:
  "udp_client_inv W \<Longrightarrow> uc_recv_buffer t = uc_recv_buffer (iw_session W) \<Longrightarrow> sb_inv (uc_send_buffer t) \<Longrightarrow>
   uc_remote t = uc_remote (iw_session W) \<Longrightarrow> uc_receiving t = uc_receiving (iw_session W) \<or> uc_receiving t = None \<Longrightarrow>
   udp_client_inv (W \<lparr> iw_session := t \<rparr>)"
  by (auto simp: udp_client_inv_def)

lemma uc_ok_receive:
  "wt_safe (iw_logic W) \<Longrightarrow> sb_inv (uc_recv_buffer (iw_session W)) \<Longrightarrow> sb_inv (uc_send_buffer (iw_session W)) \<Longrightarrow>
   uc_remote (iw_session W) \<noteq> None \<Longrightarrow> udp_client_ok (udp_client_do_receive self W)"
  by (auto simp: udp_client_do_receive_def Let_def intro!: uc_bind_safe dispatcher_safe) (simp_all add: udp_client_inv_def)

lemma append_fits:
  assumes "sb_inv (uc_send_buffer t)" "length data \<le> get_buffer_size (uc_send_buffer t)"
  obtains sb where "append_send_buffer data t = Some (t \<lparr> uc_send_buffer := sb \<rparr>)" "sb_inv sb"
    "contents sb = contents (uc_send_buffer t) @ data" "sb_max_buff_size sb = sb_max_buff_size (uc_send_buffer t)"
  by (rule recv_commit [OF assms]) (auto simp: append_send_buffer_def intro: that)

lemma append_overflows:
  "sb_inv (uc_send_buffer t) \<Longrightarrow> get_buffer_size (uc_send_buffer t) < length data \<Longrightarrow> append_send_buffer data t = None"
  by (simp add: append_send_buffer_def write_memory_def get_curr_write_ptr_def get_buffer_size_def sb_inv_def)

lemma uc_ok_lambda: "udp_client_inv W \<Longrightarrow> udp_client_ok (udp_client_run_lambda S pk self l W)"
  by (cases l) (auto simp: udp_client_run_lambda_def Let_def udp_client_inv_def intro!: uc_bind_safe dispatcher_safe)

lemma uc_receive_from:
  assumes "parser_ok pk" "udp_client_inv W" "uc_receiving (iw_session W) = None"
    "length data \<le> get_buffer_size (uc_recv_buffer (iw_session W))" "uc_open (iw_session W)"
  shows "get_buffer_size (uc_send_buffer (iw_session W)) < length data \<Longrightarrow>
      udp_client_do_receive_from S pk self now (Some data) W = None"
    "length data \<le> get_buffer_size (uc_send_buffer (iw_session W)) \<Longrightarrow>
      udp_client_ok (udp_client_do_receive_from S pk self now (Some data) W)"
proof -
  let ?t = "iw_session W"
  have i: "wt_safe (iw_logic W)" "sb_inv (uc_recv_buffer ?t)" "sb_inv (uc_send_buffer ?t)" "uc_remote ?t \<noteq> None"
    using assms(2) by (simp_all add: udp_client_inv_def)
  obtain sb where sb: "write_memory (get_curr_write_ptr (uc_recv_buffer ?t)) data (uc_recv_buffer ?t) = Some sb"
    "sb_inv (snd (set_write_data (length data) sb))" "length data \<le> length (sb_buffer (snd (set_write_data (length data) sb)))"
    using recv_commit [OF i(2) assms(4)] by blast
  let ?r = "snd (set_write_data (length data) sb)"
  let ?d = "mem_slice (read_ptr ?r) (length data) (sb_buffer ?r)"
  let ?u = "?t \<lparr> uc_recv_data_size := uc_recv_data_size ?t + of_nat (length data), uc_recv_buffer := ?r \<rparr>"
  have len: "length ?d = length data" using sb(3) by (simp add: mem_slice_def read_ptr_def)
  show "udp_client_do_receive_from S pk self now (Some data) W = None"
    if "get_buffer_size (uc_send_buffer ?t) < length data"
    using append_overflows [of ?u ?d] that sb(1) assms(5) i(3) len by (simp add: udp_client_do_receive_from_def Let_def)
  assume fits: "length data \<le> get_buffer_size (uc_send_buffer ?t)"
  obtain ss where ss: "append_send_buffer ?d ?u = Some (?u \<lparr> uc_send_buffer := ss \<rparr>)" "sb_inv ss"
    by (rule append_fits [of ?u ?d]) (use i(3) fits len in simp_all)
  obtain b peer' sb' p' w' where "received_data S pk self (uc_connect_id ?t) (uc_io_bridge_connect_id ?t) (uc_io_state ?t)
      (uc_io_type ?t) (length data) ?r (iw_parser W) (iw_logic W) = Some (b, peer', sb', p', w')" "sb_inv sb'" "wt_safe w'"
    by (rule received_dataE [OF assms(1) i(1) sb(2,3)])
  thus "udp_client_ok (udp_client_do_receive_from S pk self now (Some data) W)"
    using sb(1) ss assms(5) i(4) by (auto simp: udp_client_do_receive_from_def Let_def intro!: uc_ok_receive)
qed

lemma uc_step_receive:
  assumes "parser_ok pk" "udp_client_inv W" "uc_receiving (iw_session W) = Some n" "length data \<le> n"
  shows "if overflows (EU_Receive now data) W then udp_client_step S pk self (EU_Receive now data) W = None
    else udp_client_ok (udp_client_step S pk self (EU_Receive now data) W)"
proof -
  let ?W = "W \<lparr> iw_session := (iw_session W) \<lparr> uc_receiving := None \<rparr> \<rparr>"
  have n: "n = get_buffer_size (uc_recv_buffer (iw_session W))" and i: "udp_client_inv ?W"
    using assms(2,3) by (simp_all add: udp_client_inv_def)
  show ?thesis
  proof (cases "uc_open (iw_session W)")
    case True
    thus ?thesis using uc_receive_from [OF assms(1) i, of data S self now] assms(3,4) n
      by (auto simp: overflows_def)
  next
    case False
    have "length data \<le> get_buffer_size (uc_recv_buffer (iw_session W))" using assms(4) n by simp
    hence "\<exists>sb. write_memory (get_curr_write_ptr (uc_recv_buffer (iw_session W))) data (uc_recv_buffer (iw_session W)) = Some sb \<and> sb_inv sb"
      using i by (auto simp: udp_client_inv_def write_memory_def get_curr_write_ptr_def get_buffer_size_def sb_inv_def)
    thus ?thesis using False assms(3,4) i by (auto simp: overflows_def udp_client_do_receive_from_def udp_client_inv_def)
  qed
qed

lemma uc_step:
  assumes "parser_ok pk" "udp_client_inv W"
  shows "if overflows e W then udp_client_step S pk self e W = None else udp_client_ok (udp_client_step S pk self e W)"
proof (cases e)
  case (EU_Receive now data)
  thus ?thesis using uc_step_receive [OF assms, of _ data now S self] assms(2)
    by (cases "uc_receiving (iw_session W)") (auto simp: overflows_def)
next
  case (EU_Receive_Error now)
  thus ?thesis using assms(2) by (auto simp: overflows_def udp_client_do_receive_from_def Let_def udp_client_inv_def
      intro!: uc_bind_safe dispatcher_safe)
next
  case (EU_Set_Write_Buffer data)
  have i: "sb_inv (uc_send_buffer (iw_session W))" using assms(2) by (simp add: udp_client_inv_def)
  show ?thesis
  proof (cases "length data \<le> get_buffer_size (uc_send_buffer (iw_session W))")
    case True
    then obtain sb where "append_send_buffer data (iw_session W) = Some ((iw_session W) \<lparr> uc_send_buffer := sb \<rparr>)" "sb_inv sb"
      by (rule append_fits [OF i])
    thus ?thesis using EU_Set_Write_Buffer assms(2) True
      by (auto simp: overflows_def udp_client_set_write_buffer_def intro!: uc_inv_session)
  next
    case False
    thus ?thesis using EU_Set_Write_Buffer append_overflows [OF i, of data] by (simp add: overflows_def udp_client_set_write_buffer_def)
  qed
next
  case (EU_Run i)
  thus ?thesis using assms(2) by (auto simp: overflows_def Let_def intro!: uc_ok_lambda uc_inv_session) (simp add: udp_client_inv_def)
next
  case (EU_Close c)
  thus ?thesis using assms(2) by (auto simp: overflows_def udp_client_close_def udp_client_get_remote_ip_def udp_client_inv_def)
qed (use assms(2) in \<open>auto simp: overflows_def Let_def udp_client_add_send_finish_size_def udp_client_do_write_def
    udp_client_do_write_immediately_def udp_client_send_io_data_def udp_client_clear_write_buffer_def
    udp_client_set_io_bridge_connect_id_def udp_client_inv_def\<close>)

lemma uc_run_inv:
  "parser_ok pk \<Longrightarrow> udp_client_inv W \<Longrightarrow> udp_client_run S pk self es W = Some W' \<Longrightarrow> udp_client_inv W'"
  unfolding udp_client_run_def
proof (induction es arbitrary: W)
  case (Cons e es)
  from Cons.prems(3) obtain W1 where W1: "udp_client_step S pk self e W = Some W1"
      "run_steps (udp_client_step S pk self) es W1 = Some W'" by (auto split: option.splits)
  hence "udp_client_inv W1" using uc_step [OF Cons.prems(1,2), of e S self] by (auto split: if_splits)
  from Cons.IH [OF Cons.prems(1) this W1(2)] show ?case .
qed simp

lemma uc_receive_copies:
  assumes "parser_ok pk" "udp_client_inv W" "uc_open (iw_session W)" "uc_receiving (iw_session W) \<noteq> None"
    "contents (uc_recv_buffer (iw_session W)) = []" "length data \<le> sb_max_buff_size (uc_recv_buffer (iw_session W))"
    "length data \<le> get_buffer_size (uc_send_buffer (iw_session W))"
  obtains W1 where "udp_client_step S pk self (EU_Receive now data) W = Some W1" "udp_client_inv W1" "uc_open (iw_session W1)"
    "contents (uc_send_buffer (iw_session W1)) = contents (uc_send_buffer (iw_session W)) @ data"
    "uc_lambdas (iw_session W1) = uc_lambdas (iw_session W)"
    "sb_max_buff_size (uc_send_buffer (iw_session W1)) = sb_max_buff_size (uc_send_buffer (iw_session W))"
proof -
  let ?t = "iw_session W"
  have i: "wt_safe (iw_logic W)" "sb_inv (uc_recv_buffer ?t)" "sb_inv (uc_send_buffer ?t)" "uc_remote ?t \<noteq> None"
      "uc_receiving ?t = Some (get_buffer_size (uc_recv_buffer ?t))"
    using assms(2,4) by (auto simp: udp_client_inv_def)
  have f: "length data \<le> get_buffer_size (uc_recv_buffer ?t)" using assms(5,6) i(2) by (simp add: get_buffer_size_contents)
  obtain sb where sb: "write_memory (get_curr_write_ptr (uc_recv_buffer ?t)) data (uc_recv_buffer ?t) = Some sb"
    "sb_inv (snd (set_write_data (length data) sb))" "contents (snd (set_write_data (length data) sb)) = data"
    "length data \<le> length (sb_buffer (snd (set_write_data (length data) sb)))"
    using recv_commit [OF i(2) f] assms(5) by auto
  let ?r = "snd (set_write_data (length data) sb)"
  let ?u = "?t \<lparr> uc_receiving := None, uc_recv_data_size := uc_recv_data_size ?t + of_nat (length data), uc_recv_buffer := ?r \<rparr>"
  have "sb_write_size ?r = length data" using sb(2,3) by (metis get_write_size_contents get_write_size_def)
  hence d: "mem_slice (read_ptr ?r) (length data) (sb_buffer ?r) = data"
    using sb(3) by (simp add: mem_slice_def read_ptr_def contents_def)
  obtain ss where ss: "append_send_buffer data ?u = Some (?u \<lparr> uc_send_buffer := ss \<rparr>)" "sb_inv ss"
      "contents ss = contents (uc_send_buffer ?t) @ data" "sb_max_buff_size ss = sb_max_buff_size (uc_send_buffer ?t)"
    by (rule append_fits [of ?u data]) (use i(3) assms(7) in simp_all)
  obtain b peer' sb' p' w' where rd: "received_data S pk self (uc_connect_id ?t) (uc_io_bridge_connect_id ?t) (uc_io_state ?t)
      (uc_io_type ?t) (length data) ?r (iw_parser W) (iw_logic W) = Some (b, peer', sb', p', w')" "sb_inv sb'" "wt_safe w'"
    by (rule received_dataE [OF assms(1) i(1) sb(2,4)])
  let ?b = "if b then sb' else move_buffer (length data) sb'"
  let ?v = "?u \<lparr> uc_send_buffer := ss, uc_recv_buffer := move_buffer (length data) ?b, uc_io_bridge_connect_id := peer',
      uc_recv_data_time := if b then now else uc_recv_data_time ?t \<rparr>"
  let ?V = "W \<lparr> iw_session := ?v, iw_parser := p', iw_logic := w' \<rparr>"
  have "udp_client_ok (udp_client_do_receive self ?V)" by (rule uc_ok_receive) (use ss rd i in simp_all)
  then obtain W1 where W1: "udp_client_do_receive self ?V = Some W1" "udp_client_inv W1" by (rule udp_client_okE)
  have s: "iw_session W1 = ?v \<lparr> uc_receiving := Some (get_buffer_size (move_buffer (length data) ?b)) \<rparr>"
    using W1(1) by (auto simp: udp_client_do_receive_def Let_def split: bind_splits if_splits)
  have "udp_client_step S pk self (EU_Receive now data) W = Some W1"
    using i(5) f sb(1) assms(3) d ss(1) rd(1) W1(1) by (cases b) (simp_all add: udp_client_do_receive_from_def Let_def)
  thus thesis by (rule that) (use W1(2) s ss assms(3) in simp_all)
qed

lemma udp_client_example_inv: "udp_client_inv udp_client_example"
  by (simp add: udp_client_inv_def udp_client_example_def echo_server_safe Init_def sb_inv_def get_buffer_size_def)

lemma uc_ctor_receiving: "uc_receiving (CUdpClientSession_ctor now) = None"
  by (simp add: CUdpClientSession_ctor_def)

lemma uc_start:
  assumes "wt_safe (iw_logic W)" "is_address (ci_server_ip info)" "opens"
    "ci_client_port info = 0 \<or> is_address (ci_client_ip info)" "length recv_mem < 2 ^ 64" "length send_mem < 2 ^ 64"
    "uc_receiving (iw_session W) = None"
  shows "\<exists>W1. udp_client_start S (Some pk) self is_address opens (Some (remote, loc)) n now recv_mem send_mem info W = Some (n + 1, W1) \<and>
    udp_client_inv W1"
proof -
  obtain w where w: "add_thread_session S (n + 1) self loc remote (iw_logic W) = Some w" "wt_safe w"
    by (rule ends_safeE [OF safe_connect [OF assms(1)]])
  let ?t = "(iw_session W) \<lparr> uc_recv_buffer := Init recv_mem, uc_send_buffer := Init send_mem, uc_server_id := ci_server_id info,
    uc_send_endpoint := ClientIPInfo (ci_server_ip info) (ci_server_port info), uc_open := True, uc_connect_id := n + 1,
    uc_recv_data_time := now, uc_remote := Some remote \<rparr>"
  let ?W = "W \<lparr> iw_session := ?t, iw_parser := pk_connect pk (n + 1) remote loc (uc_io_type (iw_session W)) (iw_parser W), iw_logic := w \<rparr>"
  obtain W1 where "udp_client_do_receive self ?W = Some W1" "udp_client_inv W1"
    by (rule udp_client_okE [OF uc_ok_receive [of ?W]]) (use w(2) assms(5,6) in simp_all)
  thus ?thesis using assms(2-4) w(1) by (auto simp: udp_client_start_def CreateCounter_def Let_def)
qed


subsection \<open>Main properties\<close>



text \<open>
  What a client receives it sends back: the received bytes are copied into the send buffer
  and go out in front of the next answer.
\<close>

theorem udp_client_echoes_received:
  assumes "parser_ok pk" "udp_client_inv W" "uc_open (iw_session W)" "uc_receiving (iw_session W) \<noteq> None"
    "contents (uc_recv_buffer (iw_session W)) = []" "contents (uc_send_buffer (iw_session W)) = []"
    "length data \<le> sb_max_buff_size (uc_recv_buffer (iw_session W))"
    "length data + length answer \<le> sb_max_buff_size (uc_send_buffer (iw_session W))"
  shows "\<exists>W'. udp_client_run S pk self [EU_Receive now data, EU_Set_Write_Buffer answer, EU_Do_Write c] W = Some W' \<and>
    uc_lambdas (iw_session W') = uc_lambdas (iw_session W) @ [LU_Send c (data @ answer)]"
proof -
  have i0: "sb_inv (uc_send_buffer (iw_session W))" using assms(2) by (simp add: udp_client_inv_def)
  obtain W1 where W1: "udp_client_step S pk self (EU_Receive now data) W = Some W1" "udp_client_inv W1" "uc_open (iw_session W1)"
      "contents (uc_send_buffer (iw_session W1)) = data" "uc_lambdas (iw_session W1) = uc_lambdas (iw_session W)"
      "sb_max_buff_size (uc_send_buffer (iw_session W1)) = sb_max_buff_size (uc_send_buffer (iw_session W))"
    by (rule uc_receive_copies [OF assms(1-5), of data S self now]) (use i0 assms(6-8) in \<open>auto simp: get_buffer_size_contents\<close>)
  have i: "sb_inv (uc_send_buffer (iw_session W1))" using W1(2) by (simp add: udp_client_inv_def)
  obtain sb where sb: "append_send_buffer answer (iw_session W1) = Some ((iw_session W1) \<lparr> uc_send_buffer := sb \<rparr>)" "sb_inv sb"
      "contents sb = data @ answer"
    by (rule append_fits [OF i, of answer]) (use W1(4,6) i assms(8) in \<open>auto simp: get_buffer_size_contents\<close>)
  have "mem_slice (read_ptr sb) (get_write_size sb) (sb_buffer sb) = data @ answer"
    using sb(3) by (simp add: mem_slice_def read_ptr_def get_write_size_def contents_def)
  thus ?thesis using W1 sb
    by (simp add: udp_client_run_def udp_client_set_write_buffer_def udp_client_do_write_def udp_client_send_io_data_def
        udp_client_clear_write_buffer_def Let_def)
qed

theorem udp_client_echoes_received_witness:
  "\<exists>W'. udp_client_run echo_ops one_message_parser 7 [EU_Receive 1 [1, 2], EU_Set_Write_Buffer [9], EU_Do_Write 3] udp_client_example = Some W' \<and>
    uc_lambdas (iw_session W') = uc_lambdas (iw_session udp_client_example) @ [LU_Send 3 ([1, 2] @ [9])]"
  by (rule udp_client_echoes_received [OF one_message_parser_ok udp_client_example_inv])
    (simp_all add: udp_client_example_def Init_def contents_def)

end
