(* ===== verification/Ssl_Session.thy ===== *)
theory Ssl_Session
  imports Client_Common Net_Services
begin

text \<open>
  Connections accepted with SSL, and their listener.  A session has at most one write in
  progress; what is given to it meanwhile waits in \<open>session_send_buffer_\<close>.

  \<open>ss_handshaking\<close> is the outstanding handshake; reads, writes and functions given to
  \<open>dispatch\<close> are as in \<open>Tcp_Session\<close>.  \<open>ss_wire\<close> collects the bytes asio has written, as an
  observer of the connection sees them.  \<open>None\<close> is undefined behaviour.
\<close>


section \<open>SSL connections (TcpSession/TcpSSLSession, TcpSession/TcpSSLServer)\<close>


subsection \<open>Definitions: sessions\<close>

datatype ssl_lambda = LS_Close u32 EM_CONNECT_IO_TYPE ClientIPInfo | LS_Write u32 bytes

record CTcpSSLSession =
  ss_connect_id :: u32
  ss_io_bridge_connect_id :: u32
  ss_recv_buffer :: CSessionBuffer
  ss_send_buffer :: bytes
  ss_is_send_finish :: bool
  ss_io_send_count :: u32
  ss_recv_data_size :: u64
  ss_send_data_size :: u64
  ss_remote_ip :: ClientIPInfo
  ss_local_ip :: ClientIPInfo
  ss_recv_data_time :: int
  ss_io_type :: EM_CONNECT_IO_TYPE
  ss_io_state :: EM_SESSION_STATE
  ss_open :: bool
  ss_handshaking :: bool
  ss_reading :: "nat option"
  ss_writes :: "(u32 \<times> bytes) list"
  ss_lambdas :: "ssl_lambda list"
  ss_wire :: bytes

type_synonym ('s, 'p) ssl_world = "(CTcpSSLSession, 's, 'p) io_world"

definition CTcpSSLSession_ctor :: "int \<Rightarrow> CTcpSSLSession" where
  "CTcpSSLSession_ctor now = \<lparr> ss_connect_id = 0, ss_io_bridge_connect_id = 0, ss_recv_buffer = Init [], ss_send_buffer = [],
     ss_is_send_finish = True, ss_io_send_count = 0, ss_recv_data_size = 0, ss_send_data_size = 0,
     ss_remote_ip = ClientIPInfo_default, ss_local_ip = ClientIPInfo_default, ss_recv_data_time = now,
     ss_io_type = CONNECT_IO_SSL, ss_io_state = SESSION_IO_LOGIC, ss_open = True, ss_handshaking = False, ss_reading = None,
     ss_writes = [], ss_lambdas = [], ss_wire = [] \<rparr>"

definition do_handshake :: "CTcpSSLSession \<Rightarrow> CTcpSSLSession" where
  "do_handshake t = t \<lparr> ss_handshaking := True \<rparr>"

definition ssl_open ::
  "'s session_ops \<Rightarrow> 'p packet_parse option \<Rightarrow> 's \<Rightarrow> u32 \<Rightarrow> bytes \<Rightarrow> int \<Rightarrow> ClientIPInfo \<Rightarrow> ClientIPInfo \<Rightarrow>
   ('s, 'p) ssl_world \<Rightarrow> (u32 \<times> ('s, 'p) ssl_world) option" where
  "ssl_open S P self count_index mem now remote loc W = do {
     let (c, count_index) = CreateCounter count_index;
     let t = (iw_session W) \<lparr> ss_connect_id := c, ss_recv_buffer := Init mem, ss_recv_data_time := now, ss_remote_ip := remote,
       ss_local_ip := loc \<rparr>;
     pk \<leftarrow> P;
     let p = pk_connect pk c remote loc (ss_io_type t) (iw_parser W);
     w \<leftarrow> add_thread_session S c self loc remote (iw_logic W);
     Some (count_index, W \<lparr> iw_session := do_handshake t, iw_parser := p, iw_logic := w \<rparr>) }"

definition ssl_close :: "u32 \<Rightarrow> CTcpSSLSession \<Rightarrow> CTcpSSLSession" where
  "ssl_close connect_id t = t \<lparr> ss_lambdas := ss_lambdas t @ [LS_Close connect_id (ss_io_type t) (ss_remote_ip t)] \<rparr>"

definition ssl_set_write_buffer :: "bytes \<Rightarrow> CTcpSSLSession \<Rightarrow> CTcpSSLSession" where
  "ssl_set_write_buffer data t = t \<lparr> ss_send_buffer := ss_send_buffer t @ data \<rparr>"

definition ssl_do_read :: "'s \<Rightarrow> ('s, 'p) ssl_world \<Rightarrow> ('s, 'p) ssl_world option" where
  "ssl_do_read self W =
    (let t = iw_session W in do {
       w \<leftarrow> (if get_buffer_size (ss_recv_buffer t) = 0
             then close_session_event (ss_connect_id t) (Some self) (iw_logic W) else Some (iw_logic W));
       Some (W \<lparr> iw_logic := w, iw_session := t \<lparr> ss_reading := Some (get_buffer_size (ss_recv_buffer t)) \<rparr> \<rparr>) })"

definition ssl_clear_write_buffer :: "CTcpSSLSession \<Rightarrow> CTcpSSLSession" where
  "ssl_clear_write_buffer t = t \<lparr> ss_send_buffer := [] \<rparr>"

definition ssl_do_read_some ::
  "'s session_ops \<Rightarrow> 'p packet_parse \<Rightarrow> 's \<Rightarrow> int \<Rightarrow> bytes option \<Rightarrow> ('s, 'p) ssl_world \<Rightarrow> ('s, 'p) ssl_world option" where
  "ssl_do_read_some S pk self now received W =
    (let t = iw_session W in
     case received of
       Some data \<Rightarrow> do {
         sb \<leftarrow> write_memory (get_curr_write_ptr (ss_recv_buffer t)) data (ss_recv_buffer t);
         let t = t \<lparr> ss_recv_data_size := ss_recv_data_size t + of_nat (length data),
                     ss_recv_buffer := snd (set_write_data (length data) sb) \<rparr>;
         (fresh, peer, sb, p, w) \<leftarrow> received_data S pk self (ss_connect_id t) (ss_io_bridge_connect_id t) (ss_io_state t)
           (ss_io_type t) (length data) (ss_recv_buffer t) (iw_parser W) (iw_logic W);
         let t = t \<lparr> ss_recv_buffer := sb, ss_io_bridge_connect_id := peer,
                     ss_recv_data_time := if fresh \<and> ss_io_state t \<noteq> SESSION_IO_BRIDGE then now else ss_recv_data_time t \<rparr>;
         ssl_do_read self (W \<lparr> iw_session := t, iw_parser := p, iw_logic := w \<rparr>) }
     | None \<Rightarrow> do {
         w \<leftarrow> close_session_event (ss_connect_id t) (Some self) (iw_logic W);
         Some (W \<lparr> iw_logic := w \<rparr>) })"

definition ssl_send_write_fail_to_logic ::
  "'s \<Rightarrow> bytes \<Rightarrow> nat \<Rightarrow> ('s, 'p) ssl_world \<Rightarrow> ('s, 'p) ssl_world option" where
  "ssl_send_write_fail_to_logic self write_fail_buffer buffer_length W = do {
     w \<leftarrow> assignation_thread_module_logic_with_events (ss_connect_id (iw_session W))
            [write_fail_packet write_fail_buffer buffer_length] self (iw_logic W);
     Some (W \<lparr> iw_logic := w \<rparr>) }"

definition ssl_do_write :: "u32 \<Rightarrow> CTcpSSLSession \<Rightarrow> CTcpSSLSession" where
  "ssl_do_write connect_id t =
    (if \<not> ss_is_send_finish t \<or> length (ss_send_buffer t) = 0 then t
     else
       let t = t \<lparr> ss_is_send_finish := False \<rparr>;
           data = ss_send_buffer t;
           t = ssl_clear_write_buffer t in
       t \<lparr> ss_lambdas := ss_lambdas t @ [LS_Write connect_id data] \<rparr>)"

definition ssl_do_write_immediately :: "u32 \<Rightarrow> bytes \<Rightarrow> CTcpSSLSession \<Rightarrow> CTcpSSLSession" where
  "ssl_do_write_immediately connect_id data t = ssl_do_write connect_id (ssl_set_write_buffer data t)"

definition ssl_add_send_finish_size :: "nat \<Rightarrow> CTcpSSLSession \<Rightarrow> CTcpSSLSession" where
  "ssl_add_send_finish_size send_length t = t \<lparr> ss_send_data_size := ss_send_data_size t + of_nat send_length,
     ss_io_send_count := ss_io_send_count t + 1, ss_is_send_finish := True \<rparr>"

text \<open>The handler of a write, after \<open>len\<close> bytes.\<close>

definition ssl_write_finish ::
  "'s \<Rightarrow> bool \<Rightarrow> u32 \<Rightarrow> bytes \<Rightarrow> nat \<Rightarrow> ('s, 'p) ssl_world \<Rightarrow> ('s, 'p) ssl_world option" where
  "ssl_write_finish self ec connect_id send_buffer len W =
    (if ec then ssl_send_write_fail_to_logic self send_buffer len W
     else Some (W \<lparr> iw_session := ssl_do_write connect_id (ssl_add_send_finish_size len (iw_session W)) \<rparr>))"

definition ssl_get_mark_id :: "u32 \<Rightarrow> CTcpSSLSession \<Rightarrow> u32" where
  "ssl_get_mark_id connect_id t = 0"

definition ssl_set_io_bridge_connect_id :: "u32 \<Rightarrow> u32 \<Rightarrow> CTcpSSLSession \<Rightarrow> CTcpSSLSession" where
  "ssl_set_io_bridge_connect_id from_io_connect_id to_io_connect_id t =
    (if to_io_connect_id > 0
     then t \<lparr> ss_io_state := SESSION_IO_BRIDGE, ss_io_bridge_connect_id := to_io_connect_id \<rparr>
     else t \<lparr> ss_io_state := SESSION_IO_LOGIC, ss_io_bridge_connect_id := 0 \<rparr>)"

definition ssl_format_send_packet ::
  "'p packet_parse \<Rightarrow> u32 \<Rightarrow> CMessage_Packet \<Rightarrow> ('s, 'p) ssl_world \<Rightarrow> CMessage_Packet option" where
  "ssl_format_send_packet pk connect_id message W =
     pk_format_send_buffer pk connect_id message (ss_io_type (iw_session W)) (iw_parser W)"

text \<open>The handler of the handshake: after a failure nothing happens.\<close>

definition handshake_done :: "'s \<Rightarrow> bool \<Rightarrow> ('s, 'p) ssl_world \<Rightarrow> ('s, 'p) ssl_world option" where
  "handshake_done self error W = (if \<not> error then ssl_do_read self W else Some W)"

definition ssl_run_lambda ::
  "'s session_ops \<Rightarrow> 'p packet_parse \<Rightarrow> 's \<Rightarrow> ssl_lambda \<Rightarrow> ('s, 'p) ssl_world \<Rightarrow> ('s, 'p) ssl_world option" where
  "ssl_run_lambda S pk self l W =
    (let t = iw_session W in
     case l of
       LS_Write connect_id data \<Rightarrow> Some (W \<lparr> iw_session := t \<lparr> ss_writes := ss_writes t @ [(connect_id, data)] \<rparr> \<rparr>)
     | LS_Close connect_id io_type remote_ip \<Rightarrow> do {
         w \<leftarrow> delete_thread_session S connect_id self remote_ip io_type (iw_logic W);
         Some (W \<lparr> iw_parser := pk_disconnect pk connect_id io_type (iw_parser W), iw_logic := w,
           iw_session := t \<lparr> ss_open := False \<rparr> \<rparr>) })"

datatype ssl_event =
    ES_Handshake bool
  | ES_Read int bytes
  | ES_Read_Error int
  | ES_Written nat
  | ES_Write_Error nat nat
  | ES_Run nat
  | ES_Set_Write_Buffer bytes
  | ES_Do_Write u32
  | ES_Write_Immediately u32 bytes
  | ES_Close u32
  | ES_Set_Bridge u32 u32

fun ssl_step ::
  "'s session_ops \<Rightarrow> 'p packet_parse \<Rightarrow> 's \<Rightarrow> ssl_event \<Rightarrow> ('s, 'p) ssl_world \<Rightarrow> ('s, 'p) ssl_world option" where
  "ssl_step S pk self (ES_Handshake error) W =
    (if ss_handshaking (iw_session W)
     then handshake_done self error (W \<lparr> iw_session := (iw_session W) \<lparr> ss_handshaking := False \<rparr> \<rparr>) else Some W)"
| "ssl_step S pk self (ES_Read now data) W =
    (case ss_reading (iw_session W) of
       Some n \<Rightarrow> if length data \<le> n
         then ssl_do_read_some S pk self now (Some data) (W \<lparr> iw_session := (iw_session W) \<lparr> ss_reading := None \<rparr> \<rparr>)
         else Some W
     | None \<Rightarrow> Some W)"
| "ssl_step S pk self (ES_Read_Error now) W =
    (if ss_reading (iw_session W) \<noteq> None
     then ssl_do_read_some S pk self now None (W \<lparr> iw_session := (iw_session W) \<lparr> ss_reading := None \<rparr> \<rparr>) else Some W)"
| "ssl_step S pk self (ES_Written i) W =
    (let t = iw_session W in
     if i < length (ss_writes t)
     then let (c, data) = ss_writes t ! i in
       ssl_write_finish self False c data (length data)
         (W \<lparr> iw_session := t \<lparr> ss_writes := remove_nth i (ss_writes t), ss_wire := ss_wire t @ data \<rparr> \<rparr>) else Some W)"
| "ssl_step S pk self (ES_Write_Error i len) W =
    (let t = iw_session W in
     if i < length (ss_writes t) \<and> len \<le> length (snd (ss_writes t ! i))
     then let (c, data) = ss_writes t ! i in
       ssl_write_finish self True c data len
         (W \<lparr> iw_session := t \<lparr> ss_writes := remove_nth i (ss_writes t), ss_wire := ss_wire t @ take len data \<rparr> \<rparr>) else Some W)"
| "ssl_step S pk self (ES_Run i) W =
    (let t = iw_session W in
     if i < length (ss_lambdas t)
     then ssl_run_lambda S pk self (ss_lambdas t ! i)
       (W \<lparr> iw_session := t \<lparr> ss_lambdas := remove_nth i (ss_lambdas t) \<rparr> \<rparr>) else Some W)"
| "ssl_step S pk self (ES_Set_Write_Buffer data) W = Some (W \<lparr> iw_session := ssl_set_write_buffer data (iw_session W) \<rparr>)"
| "ssl_step S pk self (ES_Do_Write c) W = Some (W \<lparr> iw_session := ssl_do_write c (iw_session W) \<rparr>)"
| "ssl_step S pk self (ES_Write_Immediately c data) W =
     Some (W \<lparr> iw_session := ssl_do_write_immediately c data (iw_session W) \<rparr>)"
| "ssl_step S pk self (ES_Close c) W = Some (W \<lparr> iw_session := ssl_close c (iw_session W) \<rparr>)"
| "ssl_step S pk self (ES_Set_Bridge from_id to_id) W =
     Some (W \<lparr> iw_session := ssl_set_io_bridge_connect_id from_id to_id (iw_session W) \<rparr>)"

definition ssl_run ::
  "'s session_ops \<Rightarrow> 'p packet_parse \<Rightarrow> 's \<Rightarrow> ssl_event list \<Rightarrow> ('s, 'p) ssl_world \<Rightarrow> ('s, 'p) ssl_world option" where
  "ssl_run S pk self = run_steps (ssl_step S pk self)"

definition ssl_inv :: "('s, 'p) ssl_world \<Rightarrow> bool" where
  "ssl_inv W \<longleftrightarrow> wt_safe (iw_logic W) \<and> sb_inv (ss_recv_buffer (iw_session W)) \<and>
     (\<forall>n. ss_reading (iw_session W) = Some n \<longrightarrow> n = get_buffer_size (ss_recv_buffer (iw_session W)))"

definition ssl_ok :: "('s, 'p) ssl_world option \<Rightarrow> bool" where
  "ssl_ok r = (case r of Some W \<Rightarrow> ssl_inv W | None \<Rightarrow> False)"

text \<open>The writes that are started or about to be started, the bytes events give to send, and failed writes.\<close>

fun pending_writes :: "ssl_lambda list \<Rightarrow> bytes list" where
  "pending_writes [] = []"
| "pending_writes (LS_Write c data # ls) = data # pending_writes ls"
| "pending_writes (LS_Close c ty ip # ls) = pending_writes ls"

definition in_progress :: "CTcpSSLSession \<Rightarrow> bytes list" where
  "in_progress t = map snd (ss_writes t) @ pending_writes (ss_lambdas t)"

fun ssl_given :: "ssl_event \<Rightarrow> bytes" where
  "ssl_given (ES_Set_Write_Buffer data) = data"
| "ssl_given (ES_Write_Immediately c data) = data"
| "ssl_given _ = []"

fun write_fails :: "ssl_event \<Rightarrow> bool" where
  "write_fails (ES_Write_Error i len) = True"
| "write_fails _ = False"

definition send_state :: "bytes \<Rightarrow> CTcpSSLSession \<Rightarrow> bool" where
  "send_state given t \<longleftrightarrow> ss_wire t @ concat (in_progress t) @ ss_send_buffer t = given \<and>
     length (in_progress t) = (if ss_is_send_finish t then 0 else 1)"

text \<open>The part of a session that sending works on.\<close>

definition ssl_send_side :: "CTcpSSLSession \<Rightarrow> bytes \<times> bool \<times> (u32 \<times> bytes) list \<times> ssl_lambda list \<times> bytes" where
  "ssl_send_side t = (ss_send_buffer t, ss_is_send_finish t, ss_writes t, ss_lambdas t, ss_wire t)"

text \<open>No write is in progress and none will be started.\<close>

definition ssl_blocked :: "bytes \<Rightarrow> CTcpSSLSession \<Rightarrow> bool" where
  "ssl_blocked wire t \<longleftrightarrow> \<not> ss_is_send_finish t \<and> in_progress t = [] \<and> ss_wire t = wire"


subsection \<open>Definitions: the listener\<close>

text \<open>\<open>sl_accepts\<close> counts the accepts in progress; the acceptor is null, open or closed as for \<open>CTcpServer\<close>.\<close>

record CTcpSSLServer =
  sl_server_ip :: string
  sl_server_port :: u16
  sl_acceptor :: tcp_acceptor
  sl_accepts :: nat
  sl_io_list_manager :: CNetSvrManager

definition ssl_do_accept :: "CTcpSSLServer \<Rightarrow> CTcpSSLServer option" where
  "ssl_do_accept s = (if sl_acceptor s = Acceptor_Null then None else Some (s \<lparr> sl_accepts := sl_accepts s + 1 \<rparr>))"

text \<open>The constructor: \<open>listens\<close> says whether the acceptor could be created, \<open>files\<close> whether the key files could be loaded.\<close>

definition CTcpSSLServer_ctor :: "bool \<Rightarrow> bool \<Rightarrow> string \<Rightarrow> u16 \<Rightarrow> CNetSvrManager \<Rightarrow> CTcpSSLServer option" where
  "CTcpSSLServer_ctor listens files server_ip port m =
    (let s = \<lparr> sl_server_ip = [], sl_server_port = 0, sl_acceptor = Acceptor_Null, sl_accepts = 0, sl_io_list_manager = m \<rparr> in
     if \<not> listens then Some s
     else
       let s = s \<lparr> sl_acceptor := Acceptor_Open, sl_server_ip := server_ip, sl_server_port := port \<rparr> in
       if \<not> files then Some s else ssl_do_accept s)"

definition ssl_server_start :: "nat \<Rightarrow> CTcpSSLServer \<Rightarrow> CTcpSSLServer option" where
  "ssl_server_start index s =
     ssl_do_accept (s \<lparr> sl_io_list_manager :=
       add_accept_net_io_event (sl_server_ip s) (sl_server_port s) CONNECT_IO_SSL index (sl_io_list_manager s) \<rparr>)"

definition ssl_server_close :: "CTcpSSLServer \<Rightarrow> CTcpSSLServer option" where
  "ssl_server_close s = (if sl_acceptor s = Acceptor_Null then None else Some (s \<lparr> sl_acceptor := Acceptor_Closed \<rparr>))"

text \<open>The handler of an accept; on success the session is opened and the next accept started.\<close>

definition ssl_accept_handler :: "bool \<Rightarrow> CTcpSSLServer \<Rightarrow> CTcpSSLServer option" where
  "ssl_accept_handler error s =
    (if sl_accepts s = 0 then Some s
     else
       let s = s \<lparr> sl_accepts := sl_accepts s - 1 \<rparr> in
       if \<not> error then ssl_do_accept s else Some s)"


subsection \<open>No event is undefined\<close>

lemma ssl_ok_Some [simp]: "ssl_ok (Some W) = ssl_inv W"
  by (simp add: ssl_ok_def)

lemma ssl_okE: "ssl_ok r \<Longrightarrow> (\<And>W. r = Some W \<Longrightarrow> ssl_inv W \<Longrightarrow> P) \<Longrightarrow> P"
  by (auto simp: ssl_ok_def split: option.splits)

lemma ssl_bind_safe: "ends_safe r \<Longrightarrow> (\<And>w. wt_safe w \<Longrightarrow> ssl_ok (f w)) \<Longrightarrow> ssl_ok (r \<bind> f)"
  by (auto elim: ends_safeE)

lemma ssl_inv_session:
  "ssl_inv W \<Longrightarrow> ss_recv_buffer t = ss_recv_buffer (iw_session W) \<Longrightarrow>
   ss_reading t = ss_reading (iw_session W) \<or> ss_reading t = None \<Longrightarrow> ssl_inv (W \<lparr> iw_session := t \<rparr>)"
  by (auto simp: ssl_inv_def)

lemma ssl_ok_read:
  "wt_safe (iw_logic W) \<Longrightarrow> sb_inv (ss_recv_buffer (iw_session W)) \<Longrightarrow> ssl_ok (ssl_do_read self W)"
  by (auto simp: ssl_do_read_def Let_def intro!: ssl_bind_safe dispatcher_safe) (simp_all add: ssl_inv_def)

lemma ssl_ok_read_some:
  assumes "parser_ok pk" "ssl_inv W" "ss_reading (iw_session W) = None"
    "\<forall>data. received = Some data \<longrightarrow> length data \<le> get_buffer_size (ss_recv_buffer (iw_session W))"
  shows "ssl_ok (ssl_do_read_some S pk self now received W)"
proof (cases received)
  case None
  thus ?thesis using assms(2) by (auto simp: ssl_do_read_some_def Let_def ssl_inv_def intro!: ssl_bind_safe dispatcher_safe)
next
  case (Some data)
  let ?t = "iw_session W"
  have i: "wt_safe (iw_logic W)" "sb_inv (ss_recv_buffer ?t)" using assms(2) by (simp_all add: ssl_inv_def)
  obtain sb where sb: "write_memory (get_curr_write_ptr (ss_recv_buffer ?t)) data (ss_recv_buffer ?t) = Some sb"
    "sb_inv (snd (set_write_data (length data) sb))" "length data \<le> length (sb_buffer (snd (set_write_data (length data) sb)))"
    using recv_commit [OF i(2), of data] assms(4) Some by blast
  obtain b peer' sb' p' w' where "received_data S pk self (ss_connect_id ?t) (ss_io_bridge_connect_id ?t) (ss_io_state ?t) (ss_io_type ?t)
      (length data) (snd (set_write_data (length data) sb)) (iw_parser W) (iw_logic W) = Some (b, peer', sb', p', w')"
    "sb_inv sb'" "wt_safe w'"
    by (rule received_dataE [OF assms(1) i(1) sb(2,3)])
  thus ?thesis using Some sb(1) by (auto simp: ssl_do_read_some_def Let_def intro!: ssl_ok_read)
qed

lemma ssl_write_fields [simp]:
  "ss_recv_buffer (ssl_do_write c t) = ss_recv_buffer t" "ss_reading (ssl_do_write c t) = ss_reading t"
  by (simp_all add: ssl_do_write_def ssl_clear_write_buffer_def Let_def)

lemma ssl_ok_write_finish: "ssl_inv W \<Longrightarrow> ssl_ok (ssl_write_finish self ec c buf n W)"
  by (auto simp: ssl_write_finish_def ssl_send_write_fail_to_logic_def ssl_add_send_finish_size_def ssl_inv_def
      intro!: ssl_bind_safe safe_assignation)

lemma ssl_ok_lambda: "ssl_inv W \<Longrightarrow> ssl_ok (ssl_run_lambda S pk self l W)"
  by (cases l) (auto simp: ssl_run_lambda_def Let_def ssl_inv_def intro!: ssl_bind_safe dispatcher_safe)

lemma ssl_ok_step:
  assumes "parser_ok pk" "ssl_inv W" shows "ssl_ok (ssl_step S pk self e W)"
proof (cases e)
  case (ES_Handshake error)
  thus ?thesis using assms(2) by (auto simp: handshake_done_def ssl_inv_def intro!: ssl_ok_read)
next
  case (ES_Read now data)
  thus ?thesis using assms(2) by (auto intro!: ssl_ok_read_some [OF assms(1)] ssl_inv_session split: option.split)
    (simp_all add: ssl_inv_def)
next
  case (ES_Read_Error now)
  thus ?thesis using assms(2) by (auto intro!: ssl_ok_read_some [OF assms(1)] ssl_inv_session)
qed (use assms(2) in \<open>auto simp: Let_def ssl_set_write_buffer_def ssl_do_write_immediately_def ssl_close_def ssl_set_io_bridge_connect_id_def
    split: prod.split intro!: ssl_ok_write_finish ssl_ok_lambda ssl_inv_session\<close>)

lemma ssl_ok_run: "parser_ok pk \<Longrightarrow> ssl_inv W \<Longrightarrow> ssl_ok (ssl_run S pk self es W)"
  unfolding ssl_run_def
proof (induction es arbitrary: W)
  case (Cons e es)
  obtain W' where "ssl_step S pk self e W = Some W'" "ssl_inv W'" by (rule ssl_okE [OF ssl_ok_step [OF Cons.prems]])
  with Cons show ?case by simp
qed simp

lemma ssl_ok_open:
  assumes "wt_safe (iw_logic W)" "length mem < 2 ^ 64" "ss_reading (iw_session W) = None"
  shows "\<exists>W'. ssl_open S (Some pk) self n mem now remote loc W = Some (n + 1, W') \<and> ssl_inv W' \<and>
    ssl_send_side (iw_session W') = ssl_send_side (iw_session W)"
proof -
  obtain w where "add_thread_session S (n + 1) self loc remote (iw_logic W) = Some w" "wt_safe w"
    by (rule ends_safeE [OF safe_connect [OF assms(1)]])
  thus ?thesis using assms(2,3)
    by (auto simp: ssl_open_def CreateCounter_def Let_def do_handshake_def ssl_inv_def ssl_send_side_def)
qed


subsection \<open>One write at a time\<close>

lemma send_state_cong: "ssl_send_side t = ssl_send_side t' \<Longrightarrow> send_state g t = send_state g t'"
  by (simp add: ssl_send_side_def send_state_def in_progress_def)

lemma blocked_cong: "ssl_send_side t = ssl_send_side t' \<Longrightarrow> ssl_blocked x t = ssl_blocked x t'"
  by (simp add: ssl_send_side_def ssl_blocked_def in_progress_def)

lemma read_side: "ssl_do_read self W = Some W' \<Longrightarrow> ssl_send_side (iw_session W') = ssl_send_side (iw_session W)"
  by (auto simp: ssl_do_read_def ssl_send_side_def Let_def split: bind_splits if_splits)

lemma read_some_side:
  assumes "ssl_do_read_some S pk self now received W = Some W'"
  shows "ssl_send_side (iw_session W') = ssl_send_side (iw_session W)"
proof (cases received)
  case None
  with assms show ?thesis by (auto simp: ssl_do_read_some_def Let_def split: bind_splits)
next
  case (Some data)
  with assms obtain W1 where "ssl_do_read self W1 = Some W'" "ssl_send_side (iw_session W1) = ssl_send_side (iw_session W)"
    by (auto simp: ssl_do_read_some_def Let_def ssl_send_side_def split: bind_splits)
  thus ?thesis using read_side by metis
qed

text \<open>The events that do not touch sending.\<close>

lemma receive_side:
  "ssl_step S pk self (ES_Handshake error) W = Some W' \<Longrightarrow> ssl_send_side (iw_session W') = ssl_send_side (iw_session W)"
  "ssl_step S pk self (ES_Read now data) W = Some W' \<Longrightarrow> ssl_send_side (iw_session W') = ssl_send_side (iw_session W)"
  "ssl_step S pk self (ES_Read_Error now) W = Some W' \<Longrightarrow> ssl_send_side (iw_session W') = ssl_send_side (iw_session W)"
  "ssl_step S pk self (ES_Set_Bridge a b) W = Some W' \<Longrightarrow> ssl_send_side (iw_session W') = ssl_send_side (iw_session W)"
  by (auto simp: handshake_done_def ssl_set_io_bridge_connect_id_def split: if_splits option.splits dest!: read_side read_some_side)
    (simp_all add: ssl_send_side_def)

lemma pending_append [simp]: "pending_writes (xs @ ys) = pending_writes xs @ pending_writes ys"
  by (induction xs rule: pending_writes.induct) simp_all

lemma pending_split:
  assumes "i < length ls"
  shows "pending_writes ls = pending_writes (take i ls) @ pending_writes [ls ! i] @ pending_writes (drop (Suc i) ls)"
    "pending_writes (remove_nth i ls) = pending_writes (take i ls) @ pending_writes (drop (Suc i) ls)"
proof -
  have "ls = take i ls @ [ls ! i] @ drop (Suc i) ls" using assms by (simp add: id_take_nth_drop [symmetric])
  hence "pending_writes ls = pending_writes (take i ls @ [ls ! i] @ drop (Suc i) ls)" by simp
  thus "pending_writes ls = pending_writes (take i ls) @ pending_writes [ls ! i] @ pending_writes (drop (Suc i) ls)"
    by (simp only: pending_append)
qed (simp add: remove_nth_def)

lemma send_state_do_write: "send_state g t \<Longrightarrow> send_state g (ssl_do_write c t)"
  by (auto simp: send_state_def ssl_do_write_def ssl_clear_write_buffer_def in_progress_def Let_def)

lemma send_state_written:
  assumes "send_state g t" "i < length (ss_writes t)" "ss_writes t ! i = (c, data)"
  shows "ss_writes t = [(c, data)] \<and> i = 0 \<and> pending_writes (ss_lambdas t) = [] \<and> \<not> ss_is_send_finish t"
proof -
  have n: "length (ss_writes t) + length (pending_writes (ss_lambdas t)) = (if ss_is_send_finish t then 0 else 1)"
    using assms(1) by (simp add: send_state_def in_progress_def)
  hence f: "\<not> ss_is_send_finish t" using assms(2) by (cases "ss_is_send_finish t") simp_all
  with n have "length (ss_writes t) + length (pending_writes (ss_lambdas t)) = 1" by simp
  hence "length (ss_writes t) = 1" "pending_writes (ss_lambdas t) = []" using assms(2)
    by (cases "ss_writes t"; cases "pending_writes (ss_lambdas t)"; simp)+
  with f assms(2,3) show ?thesis by (cases "ss_writes t") simp_all
qed

lemma send_state_run:
  assumes "send_state g t" "i < length (ss_lambdas t)" "ss_lambdas t ! i = LS_Write c data"
  shows "send_state g (t \<lparr> ss_lambdas := remove_nth i (ss_lambdas t), ss_writes := ss_writes t @ [(c, data)] \<rparr>)"
proof -
  note s = pending_split [OF assms(2)]
  have "length (ss_writes t) + length (pending_writes (ss_lambdas t)) = (if ss_is_send_finish t then 0 else 1)"
    using assms(1) by (simp add: send_state_def in_progress_def)
  hence "ss_writes t = [] \<and> pending_writes (take i (ss_lambdas t)) = [] \<and> pending_writes (drop (Suc i) (ss_lambdas t)) = []"
    unfolding s(1) assms(3) by (auto split: if_splits)
  thus ?thesis using assms(1,3) s by (simp add: send_state_def in_progress_def)
qed

lemma send_state_step:
  assumes "ssl_step S pk self e W = Some W'" "send_state g (iw_session W)" "\<not> write_fails e"
  shows "send_state (g @ ssl_given e) (iw_session W')"
proof (cases e)
  case (ES_Written i)
  show ?thesis
  proof (cases "i < length (ss_writes (iw_session W))")
    case True
    obtain c data where cd: "ss_writes (iw_session W) ! i = (c, data)" by force
    from send_state_written [OF assms(2) True cd] assms(1,2) ES_Written cd show ?thesis
      by (auto simp: Let_def ssl_write_finish_def remove_nth_def intro!: send_state_do_write)
        (auto simp: send_state_def in_progress_def ssl_add_send_finish_size_def)
  qed (use assms ES_Written in \<open>simp add: Let_def\<close>)
next
  case (ES_Run i)
  show ?thesis
  proof (cases "i < length (ss_lambdas (iw_session W))")
    case True
    show ?thesis
    proof (cases "ss_lambdas (iw_session W) ! i")
      case (LS_Write c data)
      thus ?thesis using assms(1) ES_Run True send_state_run [OF assms(2) True LS_Write] by (auto simp: Let_def ssl_run_lambda_def)
    next
      case (LS_Close c ty ip)
      thus ?thesis using assms(1,2) ES_Run True pending_split [OF True]
        by (auto simp: Let_def ssl_run_lambda_def send_state_def in_progress_def split: bind_splits)
    qed
  qed (use assms ES_Run in \<open>simp add: Let_def\<close>)
next
  case (ES_Set_Write_Buffer data)
  thus ?thesis using assms(1,2) by (auto simp: ssl_set_write_buffer_def send_state_def in_progress_def)
next
  case (ES_Write_Immediately c data)
  hence "send_state (g @ data) (ssl_set_write_buffer data (iw_session W))"
    using assms(2) by (auto simp: ssl_set_write_buffer_def send_state_def in_progress_def)
  thus ?thesis using assms(1) ES_Write_Immediately by (auto simp: ssl_do_write_immediately_def send_state_do_write)
next
  case (ES_Close c)
  thus ?thesis using assms(1,2) by (auto simp: ssl_close_def send_state_def in_progress_def)
next
  case (ES_Do_Write c)
  thus ?thesis using assms(1,2) by (auto simp: send_state_do_write)
next
  case (ES_Write_Error i n)
  thus ?thesis using assms(3) by simp
next
  case (ES_Handshake error)
  show ?thesis using send_state_cong [OF receive_side(1) [OF assms(1) [unfolded ES_Handshake]]] assms(2) ES_Handshake by simp
next
  case (ES_Read now data)
  show ?thesis using send_state_cong [OF receive_side(2) [OF assms(1) [unfolded ES_Read]]] assms(2) ES_Read by simp
next
  case (ES_Read_Error now)
  show ?thesis using send_state_cong [OF receive_side(3) [OF assms(1) [unfolded ES_Read_Error]]] assms(2) ES_Read_Error by simp
next
  case (ES_Set_Bridge a b)
  show ?thesis using send_state_cong [OF receive_side(4) [OF assms(1) [unfolded ES_Set_Bridge]]] assms(2) ES_Set_Bridge by simp
qed

lemma send_state_run_steps:
  "run_steps (ssl_step S pk self) es W = Some W' \<Longrightarrow> send_state g (iw_session W) \<Longrightarrow> \<forall>e \<in> set es. \<not> write_fails e \<Longrightarrow>
   send_state (g @ concat (map ssl_given es)) (iw_session W')"
proof (induction es arbitrary: W g)
  case (Cons e es)
  from Cons.prems(1) obtain W1 where W1: "ssl_step S pk self e W = Some W1" "run_steps (ssl_step S pk self) es W1 = Some W'"
    by (auto split: option.splits)
  have "send_state (g @ ssl_given e) (iw_session W1)" by (rule send_state_step [OF W1(1) Cons.prems(2)]) (use Cons.prems(3) in simp)
  from Cons.IH [OF W1(2) this] Cons.prems(3) show ?case by simp
qed simp

lemma blocked_step:
  assumes "ssl_step S pk self e W = Some W'" "ssl_blocked x (iw_session W)"
  shows "ssl_blocked x (iw_session W')"
proof (cases e)
  case (ES_Run i)
  show ?thesis
  proof (cases "i < length (ss_lambdas (iw_session W))")
    case True
    have n: "pending_writes (ss_lambdas (iw_session W)) = []" using assms(2) by (simp add: ssl_blocked_def in_progress_def)
    with pending_split(1) [OF True] obtain c ty ip where l: "ss_lambdas (iw_session W) ! i = LS_Close c ty ip"
      by (cases "ss_lambdas (iw_session W) ! i") auto
    have "pending_writes (remove_nth i (ss_lambdas (iw_session W))) = []" using n pending_split [OF True] by auto
    thus ?thesis using assms ES_Run True l
      by (auto simp: Let_def ssl_run_lambda_def ssl_blocked_def in_progress_def split: bind_splits)
  qed (use assms ES_Run in \<open>simp add: Let_def\<close>)
next
  case (ES_Handshake error)
  show ?thesis using blocked_cong [OF receive_side(1) [OF assms(1) [unfolded ES_Handshake]]] assms(2) by simp
next
  case (ES_Read now data)
  show ?thesis using blocked_cong [OF receive_side(2) [OF assms(1) [unfolded ES_Read]]] assms(2) by simp
next
  case (ES_Read_Error now)
  show ?thesis using blocked_cong [OF receive_side(3) [OF assms(1) [unfolded ES_Read_Error]]] assms(2) by simp
next
  case (ES_Set_Bridge a b)
  show ?thesis using blocked_cong [OF receive_side(4) [OF assms(1) [unfolded ES_Set_Bridge]]] assms(2) by simp
qed (use assms in \<open>auto simp: Let_def ssl_blocked_def in_progress_def ssl_set_write_buffer_def ssl_do_write_def
    ssl_do_write_immediately_def ssl_close_def\<close>)

lemma blocked_run:
  "run_steps (ssl_step S pk self) es W = Some W' \<Longrightarrow> ssl_blocked x (iw_session W) \<Longrightarrow> ssl_blocked x (iw_session W')"
  by (induction es arbitrary: W) (auto split: option.splits dest: blocked_step)


lemma send_state_new: "ssl_send_side t = ssl_send_side (CTcpSSLSession_ctor now) \<Longrightarrow> send_state [] t"
  by (simp add: ssl_send_side_def CTcpSSLSession_ctor_def send_state_def in_progress_def)

lemma ssl_accepts_kept:
  "sl_acceptor s \<noteq> Acceptor_Null \<Longrightarrow> sl_accepts s = n \<Longrightarrow> 0 < n \<Longrightarrow>
   \<exists>s'. ssl_accept_handler False s = Some s' \<and> sl_accepts s' = n \<and> sl_acceptor s' = sl_acceptor s"
  by (simp add: ssl_accept_handler_def ssl_do_accept_def Let_def)


subsection \<open>Main properties\<close>



text \<open>
  After a failed write an SSL session never sends again: the handler of the failure
  leaves \<open>is_send_finish_\<close> false, and every later \<open>do_write\<close> waits for a completion that does
  not come.  Whatever happens, not a byte more reaches the connection, and data piles up.
\<close>

theorem ssl_failed_write_silences:
  assumes "parser_ok pk" "ssl_inv W" "send_state g (iw_session W)" "i < length (ss_writes (iw_session W))"
    "len \<le> length (snd (ss_writes (iw_session W) ! i))"
  shows "\<exists>W'. ssl_run S pk self (ES_Write_Error i len # es) W = Some W' \<and>
    ss_wire (iw_session W') = ss_wire (iw_session W) @ take len (snd (ss_writes (iw_session W) ! i)) \<and> in_progress (iw_session W') = []"
proof -
  obtain c data where cd: "ss_writes (iw_session W) ! i = (c, data)" by force
  from send_state_written [OF assms(3,4) cd]
  have s: "ss_writes (iw_session W) = [(c, data)]" "i = 0" "pending_writes (ss_lambdas (iw_session W)) = []" "\<not> ss_is_send_finish (iw_session W)"
    by auto
  obtain W' where W': "ssl_run S pk self (ES_Write_Error i len # es) W = Some W'"
    by (rule ssl_okE [OF ssl_ok_run [OF assms(1,2)]])
  then obtain W1 where W1: "ssl_step S pk self (ES_Write_Error i len) W = Some W1" "run_steps (ssl_step S pk self) es W1 = Some W'"
    unfolding ssl_run_def run_steps.simps by (cases "ssl_step S pk self (ES_Write_Error i len) W") simp_all
  have "ssl_blocked (ss_wire (iw_session W) @ take len data) (iw_session W1)" using W1(1) s assms(5)
    by (auto simp: Let_def ssl_write_finish_def ssl_send_write_fail_to_logic_def ssl_blocked_def in_progress_def remove_nth_def split: bind_splits)
  from blocked_run [OF W1(2) this] W' cd show ?thesis by (simp add: ssl_blocked_def)
qed

theorem ssl_failed_write_silences_witness:
  "\<exists>W'. ssl_run echo_ops one_message_parser 7 (ES_Write_Error 0 1 # [ES_Write_Immediately 3 [9], ES_Run 0])
      \<lparr> iw_session = (CTcpSSLSession_ctor 0) \<lparr> ss_is_send_finish := False, ss_writes := [(3, [1, 2])] \<rparr>, iw_parser = (), iw_logic = echo_server \<rparr>
      = Some W' \<and> ss_wire (iw_session W') = [1] \<and> in_progress (iw_session W') = []"
proof -
  let ?W = "\<lparr> iw_session = (CTcpSSLSession_ctor 0) \<lparr> ss_is_send_finish := False, ss_writes := [(3, [1, 2])] \<rparr>, iw_parser = (), iw_logic = echo_server \<rparr>"
  have "ssl_inv ?W" "send_state [1, 2] (iw_session ?W)"
    by (simp_all add: ssl_inv_def echo_server_safe CTcpSSLSession_ctor_def send_state_def in_progress_def Init_def sb_inv_def)
  from ssl_failed_write_silences [OF one_message_parser_ok this, of 0 1 echo_ops 7 "[ES_Write_Immediately 3 [9], ES_Run 0]"]
  show ?thesis by (simp add: CTcpSSLSession_ctor_def)
qed

text \<open>
  A listener that came up has two accepts in progress, one of the constructor and one of
  \<open>start\<close>, and each accepted connection renews its own.  When the address cannot be listened on,
  \<open>start\<close> dereferences a null pointer; when only the key files are missing the
  listener accepts connections all the same.
\<close>

lemma ssl_listener_start:
  "CTcpSSLServer_ctor listens files ip port m \<bind> ssl_server_start k = None \<longleftrightarrow> \<not> listens"
  "CTcpSSLServer_ctor True files ip port m \<bind> ssl_server_start k = Some s \<Longrightarrow>
   sl_accepts s = (if files then 2 else 1) \<and> sl_acceptor s = Acceptor_Open"
  by (auto simp: CTcpSSLServer_ctor_def ssl_server_start_def ssl_do_accept_def Let_def split: if_splits)

end
