(* ===== verification/Kcp_Server.thy ===== *)
theory Kcp_Server
  imports Client_Common Net_Services
begin

text \<open>
  The KCP server: reliable messages over UDP.  As in the UDP server all clients share
  one socket and two tables; each client has a control block of the KCP library.

  The library is the record \<open>kcp_api\<close> over its state \<open>'k\<close>.  Its output callback is the
  list of segments that \<open>ikcp_update\<close> returns, which the server hands to
  \<open>send_io_data_to_point\<close> one by one.  \<open>None\<close> is undefined behaviour, a loop that does
  not end, or an exception that leaves the thread.
\<close>


section \<open>The KCP server (UdpSession/KcpServer)\<close>


subsection \<open>Definitions\<close>

record 'k kcp_api =
  ikcp_create :: "u32 \<Rightarrow> 'k option"
  ikcp_nodelay :: "int \<Rightarrow> int \<Rightarrow> int \<Rightarrow> int \<Rightarrow> 'k \<Rightarrow> 'k"
  ikcp_wndsize :: "u32 \<Rightarrow> u32 \<Rightarrow> 'k \<Rightarrow> 'k"
  ikcp_update :: "u32 \<Rightarrow> 'k \<Rightarrow> 'k \<times> bytes list"
  ikcp_input :: "bytes \<Rightarrow> 'k \<Rightarrow> 'k"
  ikcp_recv :: "nat \<Rightarrow> 'k \<Rightarrow> (bytes \<times> 'k) option"
  ikcp_send :: "bytes \<Rightarrow> 'k \<Rightarrow> 'k"

datatype EM_KCP_VALID = KCP_INVALUD | KCP_VALUD | KCP_ID_VALID

record 'k CKcp_Session_Info =
  ki_send_endpoint :: ClientIPInfo
  ki_recv_data_size :: u64
  ki_send_data_size :: u64
  ki_session_send_buffer :: CSessionBuffer
  ki_udp_state :: EM_KCP_VALID
  ki_kcp_id :: u32
  ki_kcpcb :: "'k option"

record 'k CKcpServer =
  ks_id_2_endpoint :: "u32 \<rightharpoonup> 'k CKcp_Session_Info"
  ks_endpoint_2_id :: "ClientIPInfo \<rightharpoonup> u32"
  ks_io_bridge_connect_id :: u32
  ks_max_recv_size :: u32
  ks_max_send_size :: u32
  ks_recv_data_time :: int
  ks_recv_buffer :: CSessionBuffer
  ks_recv_data_buffer :: CSessionBuffer
  ks_io_type :: EM_CONNECT_IO_TYPE
  ks_io_state :: EM_SESSION_STATE
  ks_send_connect_id :: u32
  ks_send_endpoint :: ClientIPInfo
  ks_server_ip :: string
  ks_server_port :: u16
  ks_local_ip :: ClientIPInfo
  ks_io_list_manager :: CNetSvrManager
  ks_open :: bool
  ks_receiving :: "nat option"
  ks_sending :: "(u32 \<times> ClientIPInfo \<times> bytes) list"

record ('s, 'p, 'k) kcp_world =
  kw_server :: "'k CKcpServer"
  kw_parser :: 'p
  kw_logic :: "'s CWorkThreadLogic"
  kw_counter :: u32

text \<open>What the clock shows, in seconds and microseconds, as milliseconds modulo \<open>2 ^ 32\<close>.\<close>

definition iclock64 :: "int \<times> int \<Rightarrow> int" where
  "iclock64 tv = fst tv * 1000 + snd tv div 1000"

definition iclock :: "int \<times> int \<Rightarrow> u32" where
  "iclock tv = of_int (iclock64 tv)"

definition init_kcp :: "'k kcp_api \<Rightarrow> u32 \<Rightarrow> u32 \<Rightarrow> u32 \<Rightarrow> 'k CKcp_Session_Info \<Rightarrow> bool \<times> 'k CKcp_Session_Info" where
  "init_kcp K kcp_id max_send_size max_recv_size i =
    (let i = i \<lparr> ki_kcp_id := kcp_id \<rparr> in
     case ikcp_create K kcp_id of
       None \<Rightarrow> (False, i \<lparr> ki_kcpcb := None \<rparr>)
     | Some k \<Rightarrow> (True, i \<lparr> ki_kcpcb := Some (ikcp_wndsize K max_send_size max_recv_size (ikcp_nodelay K 0 10 0 0 k)) \<rparr>))"

text \<open>The constructor; the two receive buffers have the same size.\<close>

definition CKcpServer_ctor ::
  "bytes \<Rightarrow> bytes \<Rightarrow> u32 \<Rightarrow> string \<Rightarrow> u16 \<Rightarrow> ClientIPInfo \<Rightarrow> int \<Rightarrow> CNetSvrManager \<Rightarrow> 'k CKcpServer" where
  "CKcpServer_ctor mem data_mem max_send_size server_ip port local_ip now m = \<lparr> ks_id_2_endpoint = Map.empty,
     ks_endpoint_2_id = Map.empty, ks_io_bridge_connect_id = 0, ks_max_recv_size = of_nat (length mem),
     ks_max_send_size = max_send_size, ks_recv_data_time = now, ks_recv_buffer = Init mem, ks_recv_data_buffer = Init data_mem,
     ks_io_type = CONNECT_IO_KCP, ks_io_state = SESSION_IO_LOGIC, ks_send_connect_id = 0, ks_send_endpoint = ClientIPInfo_default,
     ks_server_ip = server_ip, ks_server_port = port, ks_local_ip = local_ip, ks_io_list_manager = m, ks_open = True,
     ks_receiving = None, ks_sending = [] \<rparr>"

definition kcp_do_receive :: "'k CKcpServer \<Rightarrow> 'k CKcpServer" where
  "kcp_do_receive s = s \<lparr> ks_receiving := Some (get_buffer_size (ks_recv_buffer s)) \<rparr>"

definition kcp_start :: "nat \<Rightarrow> 'k CKcpServer \<Rightarrow> 'k CKcpServer" where
  "kcp_start index s = kcp_do_receive (s \<lparr> ks_io_list_manager :=
     add_accept_net_io_event (ks_server_ip s) (ks_server_port s) CONNECT_IO_KCP index (ks_io_list_manager s) \<rparr>)"

definition kcp_get_remote_ip :: "u32 \<Rightarrow> 'k CKcpServer \<Rightarrow> ClientIPInfo" where
  "kcp_get_remote_ip connect_id s =
    (case ks_id_2_endpoint s connect_id of Some i \<Rightarrow> ki_send_endpoint i | None \<Rightarrow> ClientIPInfo_default)"

definition kcp_find_udp_endpoint_by_id :: "u32 \<Rightarrow> 'k CKcpServer \<Rightarrow> 'k CKcp_Session_Info option" where
  "kcp_find_udp_endpoint_by_id connect_id s = ks_id_2_endpoint s connect_id"

definition kcp_set_session :: "u32 \<Rightarrow> 'k CKcp_Session_Info \<Rightarrow> 'k CKcpServer \<Rightarrow> 'k CKcpServer" where
  "kcp_set_session connect_id i s = s \<lparr> ks_id_2_endpoint := (ks_id_2_endpoint s)(connect_id \<mapsto> i) \<rparr>"

definition set_kcp_send_info :: "u32 \<Rightarrow> ClientIPInfo \<Rightarrow> 'k CKcpServer \<Rightarrow> 'k CKcpServer" where
  "set_kcp_send_info connect_id kcp_send_endpoint s =
     s \<lparr> ks_send_connect_id := connect_id, ks_send_endpoint := kcp_send_endpoint \<rparr>"

definition send_io_data_to_point :: "bytes \<Rightarrow> ClientIPInfo \<Rightarrow> 'k CKcpServer \<Rightarrow> 'k CKcpServer" where
  "send_io_data_to_point data send_endpoint s =
    (let connect_id = ks_send_connect_id s in
     if connect_id = 0 then s
     else s \<lparr> ks_send_connect_id := 0, ks_sending := ks_sending s @ [(connect_id, send_endpoint, data)] \<rparr>)"

text \<open>The output callback of the library.\<close>

definition kcp_udpOutPut :: "bytes \<Rightarrow> 'k CKcpServer \<Rightarrow> 'k CKcpServer" where
  "kcp_udpOutPut buf s = send_io_data_to_point buf (ks_send_endpoint s) s"

definition kcp_flush :: "'k kcp_api \<Rightarrow> int \<times> int \<Rightarrow> 'k \<Rightarrow> 'k CKcpServer \<Rightarrow> 'k \<times> 'k CKcpServer" where
  "kcp_flush K tv k s = (let (k, out) = ikcp_update K (iclock tv) k in (k, fold kcp_udpOutPut out s))"

definition is_kcp_id_create :: "bytes \<Rightarrow> bool" where
  "is_kcp_id_create kcp_data = (length kcp_data < 24 \<and> kcp_data = bytes_of_string ''kcp key id create'')"

text \<open>\<open>mem\<close> is the memory of the send buffer of a new client; \<open>local_endpoint\<close> throws on a closed socket.\<close>

definition kcp_add_udp_endpoint ::
  "'s session_ops \<Rightarrow> 'p packet_parse \<Rightarrow> 'k kcp_api \<Rightarrow> 's \<Rightarrow> int \<times> int \<Rightarrow> ClientIPInfo \<Rightarrow> nat \<Rightarrow> bytes \<Rightarrow>
   ('s, 'p, 'k) kcp_world \<Rightarrow> (u32 \<times> ('s, 'p, 'k) kcp_world) option" where
  "kcp_add_udp_endpoint S pk K self tv recv_endpoint len mem W =
    (let s = kw_server W in
     case ks_endpoint_2_id s recv_endpoint of
       Some c \<Rightarrow> Some (c, W)
     | None \<Rightarrow>
         let (connect_id, counter) = CreateCounter (kw_counter W);
             session_info = \<lparr> ki_send_endpoint = recv_endpoint, ki_recv_data_size = of_nat len, ki_send_data_size = 0,
               ki_session_send_buffer = Init mem, ki_udp_state = KCP_VALUD, ki_kcp_id = 0, ki_kcpcb = None \<rparr>;
             (init_ret, session_info) = init_kcp K connect_id (ks_max_recv_size s) (ks_max_send_size s) session_info;
             s = kcp_set_session connect_id session_info
               (s \<lparr> ks_endpoint_2_id := (ks_endpoint_2_id s)(recv_endpoint \<mapsto> connect_id) \<rparr>);
             W = W \<lparr> kw_server := s, kw_counter := counter \<rparr> in
         if \<not> init_ret then Some (0, W)
         else do {
           k \<leftarrow> ki_kcpcb session_info;
           let (k, s) = kcp_flush K tv k s;
           let s = kcp_set_session connect_id (session_info \<lparr> ki_kcpcb := Some k \<rparr>) s;
           if \<not> ks_open s then None
           else do {
             let p = pk_connect pk connect_id recv_endpoint (ks_local_ip s) (ks_io_type s) (kw_parser W);
             w \<leftarrow> add_thread_session S connect_id self (ks_local_ip s) recv_endpoint (kw_logic W);
             Some (connect_id, W \<lparr> kw_server := s, kw_parser := p, kw_logic := w \<rparr>) } })"

text \<open>
  The loop around \<open>ikcp_recv\<close>: each message is copied to the start of the data buffer,
  and its length is added to what the buffer holds.
\<close>

partial_function (option) kcp_recv_loop ::
  "'k kcp_api \<Rightarrow> nat \<Rightarrow> 'k \<Rightarrow> CSessionBuffer \<Rightarrow> nat \<Rightarrow> ('k \<times> CSessionBuffer \<times> nat) option" where
  "kcp_recv_loop K len k sb logic_data_length =
    (case ikcp_recv K len k of
       None \<Rightarrow> Some (k, sb, logic_data_length)
     | Some (d, k) \<Rightarrow>
         (case write_memory (read_ptr sb) d sb of
            None \<Rightarrow> None
          | Some sb \<Rightarrow> kcp_recv_loop K len k (snd (set_write_data (length d) sb)) (logic_data_length + length d)))"

text \<open>The messages of a datagram are handed on: to the bridge, which gets the raw datagram, or to the parser.\<close>

definition kcp_deliver ::
  "'s session_ops \<Rightarrow> 'p packet_parse \<Rightarrow> 's \<Rightarrow> int \<Rightarrow> u32 \<Rightarrow> nat \<Rightarrow> nat \<Rightarrow> ('s, 'p, 'k) kcp_world \<Rightarrow> ('s, 'p, 'k) kcp_world option" where
  "kcp_deliver S pk self now connect_id len logic_data_length W =
    (let s = kw_server W in
     if ks_io_state s = SESSION_IO_BRIDGE \<and> ks_io_bridge_connect_id s > 0 then do {
       let bridge_packet = new_packet \<lparr> msg_buffer := mem_slice (read_ptr (ks_recv_buffer s)) len (sb_buffer (ks_recv_buffer s)) \<rparr>;
       (ret, w) \<leftarrow> send_io_bridge_message (ks_io_bridge_connect_id s) bridge_packet (kw_logic W);
       Some (W \<lparr> kw_logic := w, kw_server := s \<lparr> ks_recv_buffer := move_buffer len (ks_recv_buffer s) \<rparr> \<rparr>) }
     else do {
       (ret, sb, message_list, p) \<leftarrow> pk_from_recv_buffer pk connect_id (ks_recv_data_buffer s) (ks_io_type s) (kw_parser W);
       if \<not> ret then do {
         w \<leftarrow> close_session_event connect_id (Some self) (kw_logic W);
         Some (W \<lparr> kw_logic := w, kw_parser := p, kw_server := s \<lparr> ks_recv_data_buffer := move_buffer logic_data_length sb \<rparr> \<rparr>) }
       else do {
         w \<leftarrow> assignation_thread_module_logic S connect_id message_list self (kw_logic W);
         Some (W \<lparr> kw_logic := w, kw_parser := p, kw_server := s \<lparr> ks_recv_data_buffer := sb, ks_recv_data_time := now \<rparr> \<rparr>) } })"

text \<open>The end of \<open>do_receive_from\<close>: acknowledgements are sent.\<close>

definition kcp_acknowledge :: "'k kcp_api \<Rightarrow> int \<times> int \<Rightarrow> u32 \<Rightarrow> ClientIPInfo \<Rightarrow> 'k CKcpServer \<Rightarrow> 'k CKcpServer option" where
  "kcp_acknowledge K tv connect_id recv_endpoint s = do {
     let s = set_kcp_send_info connect_id recv_endpoint s;
     i \<leftarrow> kcp_find_udp_endpoint_by_id connect_id s;
     k \<leftarrow> ki_kcpcb i;
     let (k, s) = kcp_flush K tv k s;
     Some (kcp_do_receive (kcp_set_session connect_id (i \<lparr> ki_kcpcb := Some k \<rparr>) s)) }"

definition kcp_receive_segment ::
  "'s session_ops \<Rightarrow> 'p packet_parse \<Rightarrow> 'k kcp_api \<Rightarrow> 's \<Rightarrow> int \<Rightarrow> int \<times> int \<Rightarrow> ClientIPInfo \<Rightarrow> u32 \<Rightarrow> 'k CKcp_Session_Info \<Rightarrow> nat \<Rightarrow>
   bytes \<Rightarrow> ('s, 'p, 'k) kcp_world \<Rightarrow> ('s, 'p, 'k) kcp_world option" where
  "kcp_receive_segment S pk K self now tv recv_endpoint connect_id i len datagram W = do {
     k \<leftarrow> ki_kcpcb i;
     let (k, s) = kcp_flush K tv k (kw_server W);
     let k = ikcp_input K datagram k;
     (k, sb, logic_data_length) \<leftarrow> kcp_recv_loop K len k (ks_recv_data_buffer s) 0;
     let s = kcp_set_session connect_id (i \<lparr> ki_kcpcb := Some k \<rparr>) s;
     let s = s \<lparr> ks_recv_data_buffer := sb, ks_recv_buffer := move_buffer len (ks_recv_buffer s) \<rparr>;
     if logic_data_length = 0 then Some (W \<lparr> kw_server := kcp_do_receive s \<rparr>)
     else do {
       W \<leftarrow> kcp_deliver S pk self now connect_id len logic_data_length (W \<lparr> kw_server := s \<rparr>);
       s \<leftarrow> kcp_acknowledge K tv connect_id recv_endpoint (kw_server W);
       Some (W \<lparr> kw_server := s \<rparr>) } }"

definition kcp_receive_data ::
  "'s session_ops \<Rightarrow> 'p packet_parse \<Rightarrow> 'k kcp_api \<Rightarrow> 's \<Rightarrow> int \<Rightarrow> int \<times> int \<Rightarrow> ClientIPInfo \<Rightarrow> u32 \<Rightarrow> 'k CKcp_Session_Info \<Rightarrow> nat \<Rightarrow>
   ('s, 'p, 'k) kcp_world \<Rightarrow> ('s, 'p, 'k) kcp_world option" where
  "kcp_receive_data S pk K self now tv recv_endpoint connect_id i len W =
    (let s = kw_server W in
     if get_buffer_size (ks_recv_buffer s) = 0 then do {
       w \<leftarrow> close_session_event connect_id (Some self) (kw_logic W);
       Some (W \<lparr> kw_logic := w, kw_server := kcp_do_receive (s \<lparr> ks_recv_buffer := move_buffer len (ks_recv_buffer s) \<rparr>) \<rparr>) }
     else
       let s = s \<lparr> ks_recv_buffer := snd (set_write_data len (ks_recv_buffer s)) \<rparr>;
           datagram = mem_slice (read_ptr (ks_recv_buffer s)) len (sb_buffer (ks_recv_buffer s)) in
       if is_kcp_id_create datagram then
         let s = s \<lparr> ks_recv_buffer := move_buffer len (ks_recv_buffer s), ks_send_connect_id := connect_id \<rparr>;
             s = send_io_data_to_point (le_bytes 4 connect_id) recv_endpoint s in
         Some (W \<lparr> kw_server := kcp_do_receive (kcp_set_session connect_id (i \<lparr> ki_udp_state := KCP_ID_VALID \<rparr>) s) \<rparr>)
       else kcp_receive_segment S pk K self now tv recv_endpoint connect_id i len datagram (W \<lparr> kw_server := s \<rparr>))"

definition kcp_do_receive_from ::
  "'s session_ops \<Rightarrow> 'p packet_parse \<Rightarrow> 'k kcp_api \<Rightarrow> 's \<Rightarrow> int \<Rightarrow> int \<times> int \<Rightarrow> ClientIPInfo \<Rightarrow> bytes \<Rightarrow> bytes \<Rightarrow>
   ('s, 'p, 'k) kcp_world \<Rightarrow> ('s, 'p, 'k) kcp_world option" where
  "kcp_do_receive_from S pk K self now tv recv_endpoint data mem W = do {
     sb \<leftarrow> write_memory (get_curr_write_ptr (ks_recv_buffer (kw_server W))) data (ks_recv_buffer (kw_server W));
     (connect_id, W) \<leftarrow> kcp_add_udp_endpoint S pk K self tv recv_endpoint (length data) mem
       (W \<lparr> kw_server := (kw_server W) \<lparr> ks_recv_buffer := sb \<rparr> \<rparr>);
     if connect_id = 0 then Some W
     else case kcp_find_udp_endpoint_by_id connect_id (kw_server W) of
       Some i \<Rightarrow>
         if length data > 0 then kcp_receive_data S pk K self now tv recv_endpoint connect_id i (length data) W
         else Some (W \<lparr> kw_server := kcp_do_receive (kw_server W) \<rparr>)
     | None \<Rightarrow> Some (W \<lparr> kw_server := kcp_do_receive (kw_server W) \<rparr>) }"

definition kcp_receive_error :: "('s, 'p, 'k) kcp_world \<Rightarrow> ('s, 'p, 'k) kcp_world" where
  "kcp_receive_error W = (let s = kw_server W in
     W \<lparr> kw_logic := add_frame_events LOGIC_LISTEN_SERVER_ERROR 0 (ks_server_ip s) (ks_server_port s) CONNECT_IO_KCP (kw_logic W),
         kw_server := s \<lparr> ks_io_list_manager := del_accept_net_io_event (ks_server_ip s) (ks_server_port s) CONNECT_IO_KCP
           (ks_io_list_manager s) \<rparr> \<rparr>)"

text \<open>The address given to \<open>delete_thread_session\<close> is looked up after the client was removed.\<close>

definition kcp_close_udp_endpoint_by_id ::
  "'s session_ops \<Rightarrow> 'p packet_parse \<Rightarrow> 's \<Rightarrow> u32 \<Rightarrow> ('s, 'p, 'k) kcp_world \<Rightarrow> ('s, 'p, 'k) kcp_world option" where
  "kcp_close_udp_endpoint_by_id S pk self connect_id W =
    (let s = kw_server W;
         W = (case ks_id_2_endpoint s connect_id of
            None \<Rightarrow> W
          | Some i \<Rightarrow> W \<lparr> kw_parser := pk_disconnect pk connect_id (ks_io_type s) (kw_parser W),
              kw_server := s \<lparr> ks_id_2_endpoint := (ks_id_2_endpoint s)(connect_id := None),
                ks_endpoint_2_id := (ks_endpoint_2_id s)(ki_send_endpoint i := None) \<rparr> \<rparr>) in do {
     w \<leftarrow> delete_thread_session S connect_id self (kcp_get_remote_ip connect_id (kw_server W)) (ks_io_type s) (kw_logic W);
     Some (W \<lparr> kw_logic := w \<rparr>) })"

text \<open>\<open>close\<close> does not look whether there is a client with that id; \<open>ikcp_release\<close> requires a control block.\<close>

definition kcp_close ::
  "'s session_ops \<Rightarrow> 'p packet_parse \<Rightarrow> 's \<Rightarrow> u32 \<Rightarrow> ('s, 'p, 'k) kcp_world \<Rightarrow> ('s, 'p, 'k) kcp_world option" where
  "kcp_close S pk self connect_id W = do {
     session_info \<leftarrow> kcp_find_udp_endpoint_by_id connect_id (kw_server W);
     k \<leftarrow> ki_kcpcb session_info;
     kcp_close_udp_endpoint_by_id S pk self connect_id W }"

fun kcp_close_clients ::
  "'s session_ops \<Rightarrow> 'p packet_parse \<Rightarrow> 's \<Rightarrow> u32 list \<Rightarrow> ('s, 'p, 'k) kcp_world \<Rightarrow> ('s, 'p, 'k) kcp_world option" where
  "kcp_close_clients S pk self [] W = Some W"
| "kcp_close_clients S pk self (c # cs) W =
    (case kcp_close S pk self c W of None \<Rightarrow> None | Some W \<Rightarrow> kcp_close_clients S pk self cs W)"

definition kcp_close_server ::
  "'s session_ops \<Rightarrow> 'p packet_parse \<Rightarrow> 's \<Rightarrow> ('s, 'p, 'k) kcp_world \<Rightarrow> ('s, 'p, 'k) kcp_world option" where
  "kcp_close_server S pk self W = do {
     W \<leftarrow> kcp_close_clients S pk self (sorted_list_of_set (dom (ks_id_2_endpoint (kw_server W)))) W;
     Some (W \<lparr> kw_server := (kw_server W) \<lparr> ks_open := False \<rparr> \<rparr>) }"

definition kcp_set_write_buffer :: "u32 \<Rightarrow> bytes \<Rightarrow> 'k CKcpServer \<Rightarrow> 'k CKcpServer option" where
  "kcp_set_write_buffer connect_id data s =
    (case kcp_find_udp_endpoint_by_id connect_id s of
       None \<Rightarrow> Some s
     | Some i \<Rightarrow>
         if get_buffer_size (ki_session_send_buffer i) \<le> length data then Some s
         else do {
           sb \<leftarrow> write_memory (get_curr_write_ptr (ki_session_send_buffer i)) data (ki_session_send_buffer i);
           Some (kcp_set_session connect_id (i \<lparr> ki_session_send_buffer := snd (set_write_data (length data) sb) \<rparr>) s) })"

definition kcp_clear_write_buffer :: "'k CKcp_Session_Info \<Rightarrow> 'k CKcp_Session_Info" where
  "kcp_clear_write_buffer i =
     i \<lparr> ki_session_send_buffer := move_buffer (get_write_size (ki_session_send_buffer i)) (ki_session_send_buffer i) \<rparr>"

text \<open>What \<open>do_write\<close> and \<open>do_write_immediately\<close> have in common: the message goes into the control block, which is flushed.\<close>

definition kcp_send_message ::
  "'k kcp_api \<Rightarrow> int \<times> int \<Rightarrow> u32 \<Rightarrow> bytes \<Rightarrow> 'k CKcp_Session_Info \<Rightarrow> 'k CKcpServer \<Rightarrow> 'k CKcpServer option" where
  "kcp_send_message K tv connect_id data i s = do {
     let s = set_kcp_send_info connect_id (ki_send_endpoint i) s;
     k \<leftarrow> ki_kcpcb i;
     let (k, s) = kcp_flush K tv (ikcp_send K data k) s;
     Some (kcp_set_session connect_id (kcp_clear_write_buffer (i \<lparr> ki_kcpcb := Some k \<rparr>)) s) }"

definition kcp_do_write :: "'k kcp_api \<Rightarrow> int \<times> int \<Rightarrow> u32 \<Rightarrow> 'k CKcpServer \<Rightarrow> 'k CKcpServer option" where
  "kcp_do_write K tv connect_id s =
    (case kcp_find_udp_endpoint_by_id connect_id s of
       None \<Rightarrow> Some s
     | Some i \<Rightarrow>
         if ki_udp_state i \<noteq> KCP_ID_VALID then Some (kcp_set_session connect_id (kcp_clear_write_buffer i) s)
         else kcp_send_message K tv connect_id
           (mem_slice (read_ptr (ki_session_send_buffer i)) (get_write_size (ki_session_send_buffer i)) (sb_buffer (ki_session_send_buffer i))) i s)"

definition kcp_do_write_immediately :: "'k kcp_api \<Rightarrow> int \<times> int \<Rightarrow> u32 \<Rightarrow> bytes \<Rightarrow> 'k CKcpServer \<Rightarrow> 'k CKcpServer option" where
  "kcp_do_write_immediately K tv connect_id data s =
    (case kcp_find_udp_endpoint_by_id connect_id s of
       None \<Rightarrow> Some s
     | Some i \<Rightarrow>
         if ki_udp_state i = KCP_ID_VALID then kcp_send_message K tv connect_id data i s
         else Some (kcp_set_session connect_id (kcp_clear_write_buffer i) s))"

definition kcp_add_send_finish_size :: "u32 \<Rightarrow> nat \<Rightarrow> 'k CKcpServer \<Rightarrow> 'k CKcpServer" where
  "kcp_add_send_finish_size connect_id len s =
    (case ks_id_2_endpoint s connect_id of
       None \<Rightarrow> s
     | Some i \<Rightarrow> kcp_set_session connect_id (i \<lparr> ki_send_data_size := ki_send_data_size i + of_nat len \<rparr>) s)"

definition kcp_get_mark_id :: "u32 \<Rightarrow> 'k CKcpServer \<Rightarrow> u32" where
  "kcp_get_mark_id connect_id s = 0"

text \<open>The bridge state belongs to the server, not to the client.\<close>

definition kcp_set_io_bridge_connect_id :: "u32 \<Rightarrow> u32 \<Rightarrow> 'k CKcpServer \<Rightarrow> 'k CKcpServer" where
  "kcp_set_io_bridge_connect_id from_io_connect_id to_io_connect_id s =
    (if to_io_connect_id > 0
     then s \<lparr> ks_io_state := SESSION_IO_BRIDGE, ks_io_bridge_connect_id := to_io_connect_id \<rparr>
     else s \<lparr> ks_io_state := SESSION_IO_LOGIC, ks_io_bridge_connect_id := 0 \<rparr>)"

definition kcp_format_send_packet :: "'p packet_parse \<Rightarrow> u32 \<Rightarrow> CMessage_Packet \<Rightarrow> ('s, 'p, 'k) kcp_world \<Rightarrow> CMessage_Packet option" where
  "kcp_format_send_packet pk connect_id message W =
     pk_format_send_buffer pk connect_id message (ks_io_type (kw_server W)) (kw_parser W)"

datatype kcp_event =
    EK_Receive int "int \<times> int" ClientIPInfo bytes bytes
  | EK_Receive_Error
  | EK_Sent nat bool
  | EK_Close u32
  | EK_Close_Server
  | EK_Set_Write_Buffer u32 bytes
  | EK_Do_Write "int \<times> int" u32
  | EK_Write_Immediately "int \<times> int" u32 bytes
  | EK_Set_Bridge u32 u32
  | EK_Other_Connection

fun kcp_step ::
  "'s session_ops \<Rightarrow> 'p packet_parse \<Rightarrow> 'k kcp_api \<Rightarrow> 's \<Rightarrow> kcp_event \<Rightarrow> ('s, 'p, 'k) kcp_world \<Rightarrow> ('s, 'p, 'k) kcp_world option" where
  "kcp_step S pk K self (EK_Receive now tv ep data mem) W =
    (case ks_receiving (kw_server W) of
       Some n \<Rightarrow> if length data \<le> n \<and> length mem = unat (ks_max_send_size (kw_server W))
         then kcp_do_receive_from S pk K self now tv ep data mem (W \<lparr> kw_server := (kw_server W) \<lparr> ks_receiving := None \<rparr> \<rparr>)
         else Some W
     | None \<Rightarrow> Some W)"
| "kcp_step S pk K self EK_Receive_Error W =
    (if ks_receiving (kw_server W) \<noteq> None
     then Some (kcp_receive_error (W \<lparr> kw_server := (kw_server W) \<lparr> ks_receiving := None \<rparr> \<rparr>)) else Some W)"
| "kcp_step S pk K self (EK_Sent n ec) W =
    (let s = kw_server W in
     Some (if n < length (ks_sending s) then W \<lparr> kw_server := (case ks_sending s ! n of (c, ep, data) \<Rightarrow>
         let s = s \<lparr> ks_sending := remove_nth n (ks_sending s) \<rparr> in
         if ec then s else kcp_add_send_finish_size c (length data) s) \<rparr> else W))"
| "kcp_step S pk K self (EK_Close c) W = kcp_close S pk self c W"
| "kcp_step S pk K self EK_Close_Server W = kcp_close_server S pk self W"
| "kcp_step S pk K self (EK_Set_Write_Buffer c data) W = do {
     s \<leftarrow> kcp_set_write_buffer c data (kw_server W); Some (W \<lparr> kw_server := s \<rparr>) }"
| "kcp_step S pk K self (EK_Do_Write tv c) W = do {
     s \<leftarrow> kcp_do_write K tv c (kw_server W); Some (W \<lparr> kw_server := s \<rparr>) }"
| "kcp_step S pk K self (EK_Write_Immediately tv c data) W = do {
     s \<leftarrow> kcp_do_write_immediately K tv c data (kw_server W); Some (W \<lparr> kw_server := s \<rparr>) }"
| "kcp_step S pk K self (EK_Set_Bridge c peer) W =
     Some (W \<lparr> kw_server := kcp_set_io_bridge_connect_id c peer (kw_server W) \<rparr>)"
| "kcp_step S pk K self EK_Other_Connection W = Some (W \<lparr> kw_counter := snd (CreateCounter (kw_counter W)) \<rparr>)"

definition kcp_run ::
  "'s session_ops \<Rightarrow> 'p packet_parse \<Rightarrow> 'k kcp_api \<Rightarrow> 's \<Rightarrow> kcp_event list \<Rightarrow> ('s, 'p, 'k) kcp_world \<Rightarrow> ('s, 'p, 'k) kcp_world option" where
  "kcp_run S pk K self = run_steps (kcp_step S pk K self)"

text \<open>
  What is relied on of the library: a control block can be created, a received message
  fits the size given, and \<open>ikcp_recv\<close> takes messages off a finite queue.
\<close>

definition kcp_ok :: "'k kcp_api \<Rightarrow> bool" where
  "kcp_ok K \<longleftrightarrow> (\<forall>c. ikcp_create K c \<noteq> None) \<and>
     (\<exists>pending :: 'k \<Rightarrow> nat. \<forall>n k d k'. ikcp_recv K n k = Some (d, k') \<longrightarrow> length d \<le> n \<and> pending k' < pending k)"

definition tables_inverse :: "('a \<rightharpoonup> 'b) \<Rightarrow> ('b \<rightharpoonup> 'a) \<Rightarrow> bool" where
  "tables_inverse f g \<longleftrightarrow> (\<forall>a b. f a = Some b \<longleftrightarrow> g b = Some a)"

definition endpoint_of :: "'k CKcpServer \<Rightarrow> u32 \<rightharpoonup> ClientIPInfo" where
  "endpoint_of s c = map_option ki_send_endpoint (ks_id_2_endpoint s c)"

definition clients_ok :: "u32 \<Rightarrow> 'k CKcpServer \<Rightarrow> bool" where
  "clients_ok counter s \<longleftrightarrow> tables_inverse (endpoint_of s) (ks_endpoint_2_id s) \<and>
     (\<forall>c i. ks_id_2_endpoint s c = Some i \<longrightarrow> 0 < c \<and> c \<le> counter \<and> ki_kcpcb i \<noteq> None \<and> sb_inv (ki_session_send_buffer i))"

definition buffers_ok :: "'k CKcpServer \<Rightarrow> bool" where
  "buffers_ok s \<longleftrightarrow> sb_inv (ks_recv_buffer s) \<and> sb_inv (ks_recv_data_buffer s) \<and>
     sb_max_buff_size (ks_recv_data_buffer s) = sb_max_buff_size (ks_recv_buffer s)"

definition kcp_inv :: "('s, 'p, 'k) kcp_world \<Rightarrow> bool" where
  "kcp_inv W \<longleftrightarrow> wt_safe (kw_logic W) \<and> clients_ok (kw_counter W) (kw_server W) \<and> buffers_ok (kw_server W) \<and>
     (\<forall>n. ks_receiving (kw_server W) = Some n \<longrightarrow> n = get_buffer_size (ks_recv_buffer (kw_server W)))"

text \<open>The events that crash the server: closing an unknown client, and a new client after the socket was closed.\<close>

fun kcp_crashes :: "kcp_event \<Rightarrow> ('s, 'p, 'k) kcp_world \<Rightarrow> bool" where
  "kcp_crashes (EK_Close c) W = (ks_id_2_endpoint (kw_server W) c = None)"
| "kcp_crashes (EK_Receive now tv ep data mem) W =
    (\<not> ks_open (kw_server W) \<and> ks_endpoint_2_id (kw_server W) ep = None \<and>
     (case ks_receiving (kw_server W) of None \<Rightarrow> False
        | Some n \<Rightarrow> length data \<le> n \<and> length mem = unat (ks_max_send_size (kw_server W))))"
| "kcp_crashes _ W = False"

definition kcp_world_ok :: "nat \<Rightarrow> ('s, 'p, 'k) kcp_world option \<Rightarrow> bool" where
  "kcp_world_ok n r = (case r of Some W \<Rightarrow> kcp_inv W \<and> unat (kw_counter W) \<le> n | None \<Rightarrow> False)"

definition kcp_world_start ::
  "bytes \<Rightarrow> bytes \<Rightarrow> u32 \<Rightarrow> 'p \<Rightarrow> u32 \<Rightarrow> 's CWorkThreadLogic \<Rightarrow> ('s, 'p, 'k) kcp_world" where
  "kcp_world_start mem data_mem max_send_size p counter w = \<lparr> kw_server = kcp_start 0
     (CKcpServer_ctor mem data_mem max_send_size ''0'' 9 (ClientIPInfo ''0'' 9) 0
       \<lparr> tcp_service_list = [], udp_service_list = [], kcp_service_list = [], tty_service_list = [] \<rparr>),
     kw_parser = p, kw_logic = w, kw_counter = counter \<rparr>"

text \<open>A library that passes messages through unchanged, one segment each, as an example.\<close>

definition queue_kcp :: "(bytes list \<times> bytes list) kcp_api" where
  "queue_kcp = \<lparr> ikcp_create = (\<lambda>c. Some ([], [])), ikcp_nodelay = (\<lambda>a b c d k. k), ikcp_wndsize = (\<lambda>a b k. k),
     ikcp_update = (\<lambda>t (i, out). ((i, []), out)), ikcp_input = (\<lambda>d (i, out). (i @ [d], out)),
     ikcp_recv = (\<lambda>n (i, out). case i of [] \<Rightarrow> None | d # ds \<Rightarrow> if length d \<le> n then Some (d, (ds, out)) else None),
     ikcp_send = (\<lambda>d (i, out). (i, out @ [d])) \<rparr>"


subsection \<open>The tables and the buffers\<close>

lemma inverse_new:
  assumes "tables_inverse f g" "f a = None" "g b = None"
  shows "tables_inverse (f(a \<mapsto> b)) (g(b \<mapsto> a))"
proof -
  have i: "f x = Some y \<longleftrightarrow> g y = Some x" for x y using assms(1) by (simp add: tables_inverse_def)
  have "g y \<noteq> Some a" "f x \<noteq> Some b" for x y using i [of a y] i [of x b] assms(2,3) by auto
  thus ?thesis using i by (auto simp: tables_inverse_def)
qed

lemma inverse_remove:
  assumes "tables_inverse f g" "f a = Some b"
  shows "tables_inverse (f(a := None)) (g(b := None))"
proof -
  have i: "f x = Some y \<longleftrightarrow> g y = Some x" for x y using assms(1) by (simp add: tables_inverse_def)
  have "g y = Some a \<longleftrightarrow> y = b" "f x = Some b \<longleftrightarrow> x = a" for x y using i [of a y] i [of x b] i [of a b] assms(2) by auto
  thus ?thesis using i by (auto simp: tables_inverse_def)
qed

lemma endpoint_of_set [simp]: "endpoint_of (kcp_set_session c i s) = (endpoint_of s)(c \<mapsto> ki_send_endpoint i)"
  by (auto simp: endpoint_of_def kcp_set_session_def)

lemma clients_cong:
  "ks_id_2_endpoint s' = ks_id_2_endpoint s \<Longrightarrow> ks_endpoint_2_id s' = ks_endpoint_2_id s \<Longrightarrow> clients_ok n s' = clients_ok n s"
proof -
  assume a: "ks_id_2_endpoint s' = ks_id_2_endpoint s" "ks_endpoint_2_id s' = ks_endpoint_2_id s"
  hence "endpoint_of s' = endpoint_of s" by (auto simp: endpoint_of_def)
  with a show ?thesis by (simp add: clients_ok_def)
qed

lemma clients_set:
  assumes "clients_ok n s" "ks_id_2_endpoint s c = Some i" "ki_send_endpoint i' = ki_send_endpoint i" "ki_kcpcb i' \<noteq> None"
    "sb_inv (ki_session_send_buffer i')"
  shows "clients_ok n (kcp_set_session c i' s)"
proof -
  have "endpoint_of (kcp_set_session c i' s) = endpoint_of s"
    using assms(2,3) by (auto simp: endpoint_of_def kcp_set_session_def)
  thus ?thesis using assms unfolding clients_ok_def by (auto simp: kcp_set_session_def)
qed

lemma clients_new:
  assumes "clients_ok n s" "ks_endpoint_2_id s ep = None" "n < c" "ki_send_endpoint i = ep" "ki_kcpcb i \<noteq> None"
    "sb_inv (ki_session_send_buffer i)"
  shows "clients_ok c (kcp_set_session c i (s \<lparr> ks_endpoint_2_id := (ks_endpoint_2_id s)(ep \<mapsto> c) \<rparr>))"
proof -
  have "ks_id_2_endpoint s c = None" using assms(1,3) unfolding clients_ok_def by (cases "ks_id_2_endpoint s c") (auto, fastforce)
  hence "tables_inverse ((endpoint_of s)(c \<mapsto> ep)) ((ks_endpoint_2_id s)(ep \<mapsto> c))"
    using assms(1,2) by (intro inverse_new) (auto simp: clients_ok_def endpoint_of_def)
  moreover have "endpoint_of (kcp_set_session c i (s \<lparr> ks_endpoint_2_id := g \<rparr>)) = (endpoint_of s)(c \<mapsto> ep)" for g
    using assms(4) by (auto simp: endpoint_of_def kcp_set_session_def)
  moreover have "d \<le> c" if "d \<le> n" for d using that assms(3) by simp
  moreover have "0 < c" using assms(3) by (metis word_gt_0 word_not_simps(1))
  ultimately show ?thesis using assms(1,5,6) unfolding clients_ok_def by (auto simp: kcp_set_session_def)
qed

lemma clients_remove:
  assumes "clients_ok n s" "ks_id_2_endpoint s c = Some i"
  shows "clients_ok n (s \<lparr> ks_id_2_endpoint := (ks_id_2_endpoint s)(c := None),
    ks_endpoint_2_id := (ks_endpoint_2_id s)(ki_send_endpoint i := None) \<rparr>)"
proof -
  have "endpoint_of (s \<lparr> ks_id_2_endpoint := (ks_id_2_endpoint s)(c := None), ks_endpoint_2_id := g \<rparr>) = (endpoint_of s)(c := None)" for g
    by (auto simp: endpoint_of_def)
  moreover have "endpoint_of s c = Some (ki_send_endpoint i)" using assms(2) by (simp add: endpoint_of_def)
  ultimately show ?thesis using assms(1) inverse_remove unfolding clients_ok_def by auto
qed

lemma clients_more: "clients_ok n s \<Longrightarrow> n \<le> m \<Longrightarrow> clients_ok m s"
  unfolding clients_ok_def by (meson order_trans)

lemma output_fields [simp]:
  "ks_id_2_endpoint (fold kcp_udpOutPut out s) = ks_id_2_endpoint s" "ks_endpoint_2_id (fold kcp_udpOutPut out s) = ks_endpoint_2_id s"
  "ks_recv_buffer (fold kcp_udpOutPut out s) = ks_recv_buffer s" "ks_recv_data_buffer (fold kcp_udpOutPut out s) = ks_recv_data_buffer s"
  "ks_receiving (fold kcp_udpOutPut out s) = ks_receiving s" "ks_open (fold kcp_udpOutPut out s) = ks_open s"
  "ks_io_type (fold kcp_udpOutPut out s) = ks_io_type s" "ks_local_ip (fold kcp_udpOutPut out s) = ks_local_ip s"
  "ks_send_endpoint (fold kcp_udpOutPut out s) = ks_send_endpoint s"
  by (induction out arbitrary: s) (simp_all add: kcp_udpOutPut_def send_io_data_to_point_def Let_def)

lemma flush_fields [simp]:
  "ks_id_2_endpoint (snd (kcp_flush K tv k s)) = ks_id_2_endpoint s" "ks_endpoint_2_id (snd (kcp_flush K tv k s)) = ks_endpoint_2_id s"
  "ks_recv_buffer (snd (kcp_flush K tv k s)) = ks_recv_buffer s" "ks_recv_data_buffer (snd (kcp_flush K tv k s)) = ks_recv_data_buffer s"
  "ks_receiving (snd (kcp_flush K tv k s)) = ks_receiving s" "ks_open (snd (kcp_flush K tv k s)) = ks_open s"
  "ks_io_type (snd (kcp_flush K tv k s)) = ks_io_type s" "ks_local_ip (snd (kcp_flush K tv k s)) = ks_local_ip s"
  by (simp_all add: kcp_flush_def Let_def case_prod_beta)

lemma clients_flush [simp]: "clients_ok n (snd (kcp_flush K tv k s)) = clients_ok n s"
  by (rule clients_cong) simp_all

lemma recv_buffer_fields [simp]:
  "clients_ok n (s \<lparr> ks_recv_buffer := a \<rparr>) = clients_ok n s" "clients_ok n (s \<lparr> ks_recv_data_buffer := a \<rparr>) = clients_ok n s"
  "clients_ok n (s \<lparr> ks_receiving := r \<rparr>) = clients_ok n s" "clients_ok n (s \<lparr> ks_recv_data_time := x \<rparr>) = clients_ok n s"
  "clients_ok n (s \<lparr> ks_send_connect_id := c \<rparr>) = clients_ok n s" "clients_ok n (s \<lparr> ks_sending := ss \<rparr>) = clients_ok n s"
  "clients_ok n (s \<lparr> ks_send_endpoint := ep \<rparr>) = clients_ok n s" "clients_ok n (s \<lparr> ks_open := b \<rparr>) = clients_ok n s"
  "clients_ok n (s \<lparr> ks_io_list_manager := m \<rparr>) = clients_ok n s"
  by (rule clients_cong; simp)+

lemma set_session_fields [simp]:
  "ks_recv_buffer (kcp_set_session c i s) = ks_recv_buffer s" "ks_recv_data_buffer (kcp_set_session c i s) = ks_recv_data_buffer s"
  "ks_receiving (kcp_set_session c i s) = ks_receiving s" "ks_endpoint_2_id (kcp_set_session c i s) = ks_endpoint_2_id s"
  "ks_id_2_endpoint (kcp_set_session c i s) = (ks_id_2_endpoint s)(c \<mapsto> i)" "ks_open (kcp_set_session c i s) = ks_open s"
  "ks_io_type (kcp_set_session c i s) = ks_io_type s" "ks_local_ip (kcp_set_session c i s) = ks_local_ip s"
  by (simp_all add: kcp_set_session_def)

lemma kcp_set_write_inv [simp]:
  "sb_inv sb \<Longrightarrow> sb_inv (snd (set_write_data n sb))"
  "sb_max_buff_size (snd (set_write_data n sb)) = sb_max_buff_size sb"
  "sb_buffer (snd (set_write_data n sb)) = sb_buffer sb"
  by (auto simp: set_write_data_def sb_inv_def)

text \<open>The receive loop ends, whatever arrived, and keeps the data buffer well-formed.\<close>

lemma recv_loop_ends:
  assumes "kcp_ok K" "sb_inv sb" "len \<le> sb_max_buff_size sb"
  shows "\<exists>k' sb' n'. kcp_recv_loop K len k sb n = Some (k', sb', n') \<and> sb_inv sb' \<and> sb_max_buff_size sb' = sb_max_buff_size sb"
proof -
  obtain pending :: "'a \<Rightarrow> nat" where p: "\<And>n k d k'. ikcp_recv K n k = Some (d, k') \<Longrightarrow> length d \<le> n \<and> pending k' < pending k"
    using assms(1) unfolding kcp_ok_def by blast
  show ?thesis using assms(2,3)
  proof (induction "pending k" arbitrary: k sb n rule: less_induct)
    case less
    show ?case
    proof (cases "ikcp_recv K len k")
      case None
      thus ?thesis using less.prems by (subst kcp_recv_loop.simps) simp
    next
      case (Some dk)
      obtain d k1 where dk: "dk = (d, k1)" by (cases dk)
      note q = p [OF Some [unfolded dk]]
      let ?sb = "sb \<lparr> sb_buffer := blit 0 d (sb_buffer sb) \<rparr>"
      have w: "write_memory (read_ptr sb) d sb = Some ?sb" using q less.prems by (simp add: write_memory_def read_ptr_def sb_inv_def)
      have i: "sb_inv ?sb" using q less.prems by (simp add: sb_inv_def)
      from less.hyps [of k1 "snd (set_write_data (length d) ?sb)" "n + length d"] q i less.prems
      have "\<exists>k' sb' n'. kcp_recv_loop K len k1 (snd (set_write_data (length d) ?sb)) (n + length d) = Some (k', sb', n') \<and> sb_inv sb' \<and>
        sb_max_buff_size sb' = sb_max_buff_size sb" by simp
      thus ?thesis using Some dk w by (subst kcp_recv_loop.simps) simp
    qed
  qed
qed


subsection \<open>What each operation keeps\<close>

lemma kcp_ok_Some [simp]: "kcp_world_ok n (Some W) \<longleftrightarrow> kcp_inv W \<and> unat (kw_counter W) \<le> n"
  by (simp add: kcp_world_ok_def)

lemma kcp_okE: "kcp_world_ok n r \<Longrightarrow> (\<And>W. r = Some W \<Longrightarrow> kcp_inv W \<Longrightarrow> unat (kw_counter W) \<le> n \<Longrightarrow> P) \<Longrightarrow> P"
  by (auto simp: kcp_world_ok_def split: option.splits)

lemma kcp_bind_safe: "ends_safe r \<Longrightarrow> (\<And>w. wt_safe w \<Longrightarrow> kcp_world_ok n (f w)) \<Longrightarrow> kcp_world_ok n (r \<bind> f)"
  by (auto elim: ends_safeE)

lemma inv_do_receive:
  "wt_safe (kw_logic W) \<Longrightarrow> clients_ok (kw_counter W) (kw_server W) \<Longrightarrow> buffers_ok (kw_server W) \<Longrightarrow>
   kcp_inv (W \<lparr> kw_server := kcp_do_receive (kw_server W) \<rparr>)"
  by (simp add: kcp_inv_def kcp_do_receive_def buffers_ok_def)

lemma buffers_flush [simp]: "buffers_ok (snd (kcp_flush K tv k s)) = buffers_ok s"
  by (simp add: buffers_ok_def)

lemma buffers_set [simp]: "buffers_ok (kcp_set_session c i s) = buffers_ok s"
  by (simp add: buffers_ok_def)

lemma buffers_moved:
  "buffers_ok s \<Longrightarrow> buffers_ok (s \<lparr> ks_recv_buffer := move_buffer n (ks_recv_buffer s) \<rparr>)"
  "buffers_ok s \<Longrightarrow> buffers_ok (s \<lparr> ks_recv_buffer := snd (set_write_data n (ks_recv_buffer s)) \<rparr>)"
  "buffers_ok s \<Longrightarrow> sb_inv sb \<Longrightarrow> sb_max_buff_size sb = sb_max_buff_size (ks_recv_data_buffer s) \<Longrightarrow>
   buffers_ok (s \<lparr> ks_recv_data_buffer := sb \<rparr>)"
  by (simp_all add: buffers_ok_def)

lemma deliver_ok:
  assumes "parser_ok pk" "wt_safe (kw_logic W)" "clients_ok (kw_counter W) (kw_server W)" "buffers_ok (kw_server W)"
  shows "\<exists>W'. kcp_deliver S pk self now c len n W = Some W' \<and> wt_safe (kw_logic W') \<and> clients_ok (kw_counter W') (kw_server W') \<and>
    buffers_ok (kw_server W') \<and> kw_counter W' = kw_counter W \<and> ks_id_2_endpoint (kw_server W') = ks_id_2_endpoint (kw_server W)"
proof -
  let ?s = "kw_server W"
  obtain ret sb ms p where pk: "pk_from_recv_buffer pk c (ks_recv_data_buffer ?s) (ks_io_type ?s) (kw_parser W) = Some (ret, sb, ms, p)"
      "sb_inv sb" "sb_max_buff_size sb = sb_max_buff_size (ks_recv_data_buffer ?s)"
    using assms(1,4) unfolding parser_ok_def buffers_ok_def by meson
  obtain w1 where w1: "close_session_event c (Some self) (kw_logic W) = Some w1" "wt_safe w1"
    by (rule ends_safeE [OF safe_close_session [OF assms(2)]])
  obtain w2 where w2: "assignation_thread_module_logic S c ms self (kw_logic W) = Some w2" "wt_safe w2"
    by (rule ends_safeE [OF safe_assignation(1) [OF assms(2)]])
  have "\<exists>b w3. send_io_bridge_message (ks_io_bridge_connect_id ?s) x (kw_logic W) = Some (b, w3) \<and> wt_safe w3" for x
    by (rule wt_safe_index [OF assms(2), of "ks_io_bridge_connect_id ?s"])
      (auto simp: send_io_bridge_message_def thread_logic_def assms(2) split: option.splits)
  then obtain b w3 where w3: "send_io_bridge_message (ks_io_bridge_connect_id ?s)
      (new_packet \<lparr> msg_buffer := mem_slice (read_ptr (ks_recv_buffer ?s)) len (sb_buffer (ks_recv_buffer ?s)) \<rparr>) (kw_logic W) = Some (b, w3)"
      "wt_safe w3" by blast
  show ?thesis
  proof (cases "ks_io_state ?s = SESSION_IO_BRIDGE \<and> ks_io_bridge_connect_id ?s > 0")
    case True
    with w3 assms(3,4) show ?thesis by (simp add: kcp_deliver_def Let_def buffers_moved)
  next
    case False
    hence f: "(ks_io_state ?s = SESSION_IO_BRIDGE \<and> 0 < ks_io_bridge_connect_id ?s) = False" by simp
    show ?thesis using pk w1 w2 assms(3,4) unfolding kcp_deliver_def Let_def f if_False
      by (cases ret) (simp_all add: buffers_ok_def)
  qed
qed

lemma send_info_fields [simp]:
  "clients_ok n (set_kcp_send_info c ep s) = clients_ok n s" "buffers_ok (set_kcp_send_info c ep s) = buffers_ok s"
  "ks_id_2_endpoint (set_kcp_send_info c ep s) = ks_id_2_endpoint s"
  by (simp_all add: set_kcp_send_info_def buffers_ok_def)

lemma flush_eq: "kcp_flush K tv k s = (fst (kcp_flush K tv k s), snd (kcp_flush K tv k s))"
  by simp

lemma clients_flush_set:
  assumes "clients_ok n s" "ks_id_2_endpoint s c = Some i" "ki_send_endpoint i' = ki_send_endpoint i" "ki_kcpcb i' \<noteq> None"
    "ki_session_send_buffer i' = ki_session_send_buffer i"
  shows "clients_ok n (kcp_set_session c i' (snd (kcp_flush K tv k s)))"
proof -
  have "sb_inv (ki_session_send_buffer i')" using assms(1,2,5) unfolding clients_ok_def by simp
  thus ?thesis by (intro clients_set [where i = i]) (use assms in simp_all)
qed

lemma acknowledge_ok:
  assumes "clients_ok n s" "buffers_ok s" "ks_id_2_endpoint s c = Some i"
  shows "\<exists>s'. kcp_acknowledge K tv c ep s = Some (kcp_do_receive s') \<and> clients_ok n s' \<and> buffers_ok s'"
proof -
  obtain k where k: "ki_kcpcb i = Some k" using assms(1,3) unfolding clients_ok_def by blast
  let ?s = "set_kcp_send_info c ep s"
  let ?k = "fst (kcp_flush K tv k ?s)"
  have "clients_ok n (kcp_set_session c (i \<lparr> ki_kcpcb := Some ?k \<rparr>) (snd (kcp_flush K tv k ?s)))"
    by (rule clients_flush_set [where i = i]) (use assms(1,3) in simp_all)
  thus ?thesis using assms(2,3) k
    by (intro exI [of _ "kcp_set_session c (i \<lparr> ki_kcpcb := Some ?k \<rparr>) (snd (kcp_flush K tv k ?s))"])
      (simp add: kcp_acknowledge_def kcp_find_udp_endpoint_by_id_def case_prod_beta Let_def)
qed

lemma send_point_fields [simp]:
  "clients_ok n (send_io_data_to_point d ep s) = clients_ok n s" "buffers_ok (send_io_data_to_point d ep s) = buffers_ok s"
  "ks_id_2_endpoint (send_io_data_to_point d ep s) = ks_id_2_endpoint s"
  by (simp_all add: send_io_data_to_point_def buffers_ok_def Let_def)

lemma buffers_send_id [simp]: "buffers_ok (s \<lparr> ks_send_connect_id := c \<rparr>) = buffers_ok s"
  by (simp add: buffers_ok_def)

lemma kcp_inv_receive:
  "wt_safe w \<Longrightarrow> clients_ok (kw_counter W) s \<Longrightarrow> buffers_ok s \<Longrightarrow>
   kcp_inv (W \<lparr> kw_server := kcp_do_receive s, kw_logic := w \<rparr>)"
  "wt_safe (kw_logic W) \<Longrightarrow> clients_ok (kw_counter W) s \<Longrightarrow> buffers_ok s \<Longrightarrow> kcp_inv (W \<lparr> kw_server := kcp_do_receive s \<rparr>)"
  by (simp_all add: kcp_inv_def kcp_do_receive_def buffers_ok_def)

lemma receive_segment_ok:
  assumes "parser_ok pk" "kcp_ok K" "wt_safe (kw_logic W)" "clients_ok (kw_counter W) (kw_server W)" "buffers_ok (kw_server W)"
    "ks_id_2_endpoint (kw_server W) c = Some i" "len \<le> sb_max_buff_size (ks_recv_buffer (kw_server W))"
  shows "kcp_world_ok (unat (kw_counter W)) (kcp_receive_segment S pk K self now tv ep c i len d W)"
proof -
  let ?s = "kw_server W" and ?n = "kw_counter W"
  obtain k where k: "ki_kcpcb i = Some k" using assms(4,6) unfolding clients_ok_def by blast
  let ?k = "ikcp_input K d (fst (kcp_flush K tv k ?s))"
  let ?s2 = "snd (kcp_flush K tv k ?s)"
  obtain k' sb n where lp: "kcp_recv_loop K len ?k (ks_recv_data_buffer ?s) 0 = Some (k', sb, n)" "sb_inv sb"
      "sb_max_buff_size sb = sb_max_buff_size (ks_recv_data_buffer ?s)"
    using recv_loop_ends [OF assms(2), of "ks_recv_data_buffer ?s" len ?k 0] assms(5,7) by (auto simp: buffers_ok_def)
  let ?s3 = "kcp_set_session c (i \<lparr> ki_kcpcb := Some k' \<rparr>) ?s2"
  let ?s4 = "?s3 \<lparr> ks_recv_data_buffer := sb, ks_recv_buffer := move_buffer len (ks_recv_buffer ?s3) \<rparr>"
  have c3: "clients_ok ?n ?s3" by (rule clients_flush_set [where i = i]) (use assms(4,6) in simp_all)
  hence c4: "clients_ok ?n ?s4" by simp
  have b4: "buffers_ok ?s4" using assms(5) lp(2,3) by (simp add: buffers_ok_def)
  have "\<exists>W'. kcp_deliver S pk self now c len n (W \<lparr> kw_server := ?s4 \<rparr>) = Some W' \<and> wt_safe (kw_logic W') \<and> clients_ok (kw_counter W') (kw_server W') \<and>
      buffers_ok (kw_server W') \<and> kw_counter W' = kw_counter (W \<lparr> kw_server := ?s4 \<rparr>) \<and>
      ks_id_2_endpoint (kw_server W') = ks_id_2_endpoint (kw_server (W \<lparr> kw_server := ?s4 \<rparr>))"
    by (rule deliver_ok [OF assms(1)]) (use assms(3) c4 b4 in simp_all)
  then obtain W' where W': "kcp_deliver S pk self now c len n (W \<lparr> kw_server := ?s4 \<rparr>) = Some W'" "wt_safe (kw_logic W')"
      "clients_ok ?n (kw_server W')" "buffers_ok (kw_server W')" "kw_counter W' = ?n" "ks_id_2_endpoint (kw_server W') = ks_id_2_endpoint ?s4" by auto
  have "ks_id_2_endpoint (kw_server W') c = Some (i \<lparr> ki_kcpcb := Some k' \<rparr>)" using W'(6) by simp
  from acknowledge_ok [OF W'(3,4) this, of K tv ep] obtain s' where s': "kcp_acknowledge K tv c ep (kw_server W') = Some (kcp_do_receive s')"
      "clients_ok ?n s'" "buffers_ok s'" by blast
  show ?thesis using k(1) lp(1) W' s' assms(3) c4 b4
    by (cases "n = 0") (simp_all add: kcp_receive_segment_def Let_def case_prod_beta kcp_inv_receive)
qed

lemma receive_data_ok:
  assumes "parser_ok pk" "kcp_ok K" "wt_safe (kw_logic W)" "clients_ok (kw_counter W) (kw_server W)" "buffers_ok (kw_server W)"
    "ks_id_2_endpoint (kw_server W) c = Some i" "len \<le> sb_max_buff_size (ks_recv_buffer (kw_server W))"
  shows "kcp_world_ok (unat (kw_counter W)) (kcp_receive_data S pk K self now tv ep c i len W)"
proof -
  let ?s = "kw_server W"
  let ?s1 = "?s \<lparr> ks_recv_buffer := snd (set_write_data len (ks_recv_buffer ?s)) \<rparr>"
  let ?d = "mem_slice (read_ptr (ks_recv_buffer ?s1)) len (sb_buffer (ks_recv_buffer ?s1))"
  have k: "ki_kcpcb i \<noteq> None" "sb_inv (ki_session_send_buffer i)" using assms(4,6) unfolding clients_ok_def by blast+
  have b1: "buffers_ok ?s1" by (rule buffers_moved(2) [OF assms(5)])
  obtain w where w: "close_session_event c (Some self) (kw_logic W) = Some w" "wt_safe w"
    by (rule ends_safeE [OF safe_close_session [OF assms(3)]])
  consider "get_buffer_size (ks_recv_buffer ?s) = 0" | "get_buffer_size (ks_recv_buffer ?s) \<noteq> 0" "is_kcp_id_create ?d"
    | "get_buffer_size (ks_recv_buffer ?s) \<noteq> 0" "\<not> is_kcp_id_create ?d" by blast
  thus ?thesis
  proof cases
    case 1
    thus ?thesis using w assms(4) buffers_moved(1) [OF assms(5), of len]
      by (simp add: kcp_receive_data_def Let_def kcp_inv_receive)
  next
    case 2
    let ?s2 = "?s1 \<lparr> ks_recv_buffer := move_buffer len (ks_recv_buffer ?s1), ks_send_connect_id := c \<rparr>"
    let ?s3 = "kcp_set_session c (i \<lparr> ki_udp_state := KCP_ID_VALID \<rparr>) (send_io_data_to_point (le_bytes 4 c) ep ?s2)"
    have "clients_ok (kw_counter W) ?s3" by (rule clients_set [where i = i]) (use assms(4,6) k in simp_all)
    moreover have "buffers_ok ?s3" using buffers_moved(1) [OF b1, of len] by simp
    ultimately show ?thesis using 2 assms(3) by (simp add: kcp_receive_data_def Let_def kcp_inv_receive)
  next
    case 3
    have "kcp_world_ok (unat (kw_counter (W \<lparr> kw_server := ?s1 \<rparr>))) (kcp_receive_segment S pk K self now tv ep c i len ?d (W \<lparr> kw_server := ?s1 \<rparr>))"
      by (rule receive_segment_ok [OF assms(1,2)]) (use assms(3,4,6,7) b1 in simp_all)
    thus ?thesis using 3 by (simp add: kcp_receive_data_def Let_def)
  qed
qed

lemma kcp_counter_step: "unat (n::u32) + 1 < 2 ^ 32 \<Longrightarrow> n < n + 1 \<and> unat (n + 1) = unat n + 1"
  by (simp add: word_less_nat_alt unat_word_ariths)

lemma add_endpoint_new:
  assumes "kcp_ok K" "wt_safe (kw_logic W)" "clients_ok (kw_counter W) (kw_server W)" "buffers_ok (kw_server W)"
    "ks_endpoint_2_id (kw_server W) ep = None" "unat (kw_counter W) + 1 < 2 ^ 32" "length mem < 2 ^ 64"
  shows "\<not> ks_open (kw_server W) \<Longrightarrow> kcp_add_udp_endpoint S pk K self tv ep len mem W = None"
    "ks_open (kw_server W) \<Longrightarrow> \<exists>W'. kcp_add_udp_endpoint S pk K self tv ep len mem W = Some (kw_counter W + 1, W') \<and> wt_safe (kw_logic W') \<and>
       clients_ok (kw_counter W') (kw_server W') \<and> buffers_ok (kw_server W') \<and> ks_recv_buffer (kw_server W') = ks_recv_buffer (kw_server W) \<and>
       ks_receiving (kw_server W') = ks_receiving (kw_server W) \<and>
       kw_counter W' = kw_counter W + 1 \<and> ks_id_2_endpoint (kw_server W') (kw_counter W + 1) \<noteq> None"
proof -
  let ?s = "kw_server W" and ?c = "kw_counter W + 1"
  obtain k where k: "ikcp_create K ?c = Some k" using assms(1) unfolding kcp_ok_def by blast
  let ?k = "ikcp_wndsize K (ks_max_recv_size ?s) (ks_max_send_size ?s) (ikcp_nodelay K 0 10 0 0 k)"
  let ?i = "\<lparr> ki_send_endpoint = ep, ki_recv_data_size = of_nat len, ki_send_data_size = 0, ki_session_send_buffer = Init mem,
    ki_udp_state = KCP_VALUD, ki_kcp_id = ?c, ki_kcpcb = Some ?k \<rparr>"
  let ?s1 = "kcp_set_session ?c ?i (?s \<lparr> ks_endpoint_2_id := (ks_endpoint_2_id ?s)(ep \<mapsto> ?c) \<rparr>)"
  let ?s2 = "kcp_set_session ?c (?i \<lparr> ki_kcpcb := Some (fst (kcp_flush K tv ?k ?s1)) \<rparr>) (snd (kcp_flush K tv ?k ?s1))"
  have less: "kw_counter W < ?c" using kcp_counter_step [OF assms(6)] by simp
  have "clients_ok ?c ?s1" by (rule clients_new [OF assms(3,5) less]) (use assms(7) in simp_all)
  hence cl: "clients_ok ?c ?s2" by (rule clients_flush_set [where i = ?i]) simp_all
  have bf: "buffers_ok ?s2" using assms(4) by (simp add: buffers_ok_def)
  obtain w where w: "add_thread_session S ?c self (ks_local_ip ?s) ep (kw_logic W) = Some w" "wt_safe w"
    by (rule ends_safeE [OF safe_connect [OF assms(2)]])
  note step = kcp_add_udp_endpoint_def CreateCounter_def init_kcp_def Let_def case_prod_beta
  show "kcp_add_udp_endpoint S pk K self tv ep len mem W = None" if "\<not> ks_open ?s"
    using that assms(5) k by (simp add: step)
  show "\<exists>W'. kcp_add_udp_endpoint S pk K self tv ep len mem W = Some (?c, W') \<and> wt_safe (kw_logic W') \<and>
       clients_ok (kw_counter W') (kw_server W') \<and> buffers_ok (kw_server W') \<and> ks_recv_buffer (kw_server W') = ks_recv_buffer ?s \<and>
       ks_receiving (kw_server W') = ks_receiving ?s \<and> kw_counter W' = ?c \<and> ks_id_2_endpoint (kw_server W') ?c \<noteq> None" if "ks_open ?s"
    using that assms(5) k w cl bf by (simp add: step)
qed

lemma receive_from_known:
  assumes "parser_ok pk" "kcp_ok K" "wt_safe (kw_logic W)" "clients_ok (kw_counter W) (kw_server W)" "buffers_ok (kw_server W)"
    "len \<le> sb_max_buff_size (ks_recv_buffer (kw_server W))"
  shows "kcp_world_ok (unat (kw_counter W)) (case kcp_find_udp_endpoint_by_id c (kw_server W) of
       Some i \<Rightarrow> if len > 0 then kcp_receive_data S pk K self now tv ep c i len W
         else Some (W \<lparr> kw_server := kcp_do_receive (kw_server W) \<rparr>)
     | None \<Rightarrow> Some (W \<lparr> kw_server := kcp_do_receive (kw_server W) \<rparr>))"
proof (cases "ks_id_2_endpoint (kw_server W) c")
  case (Some i)
  from receive_data_ok [OF assms(1-5) Some assms(6), of S self now tv ep] Some assms show ?thesis
    by (simp add: kcp_find_udp_endpoint_by_id_def kcp_inv_receive)
qed (use assms in \<open>simp add: kcp_find_udp_endpoint_by_id_def kcp_inv_receive\<close>)

lemma kcp_world_ok_mono: "kcp_world_ok m r \<Longrightarrow> m \<le> n \<Longrightarrow> kcp_world_ok n r"
  by (auto simp: kcp_world_ok_def split: option.splits)

lemma write_fits:
  "sb_inv sb \<Longrightarrow> length data \<le> get_buffer_size sb \<Longrightarrow>
   \<exists>sb'. write_memory (get_curr_write_ptr sb) data sb = Some sb' \<and> sb_inv sb' \<and> sb_max_buff_size sb' = sb_max_buff_size sb"
  by (auto simp: write_memory_def get_curr_write_ptr_def get_buffer_size_def sb_inv_def)

lemma receive_from_ok:
  assumes "parser_ok pk" "kcp_ok K" "kcp_inv W" "ks_receiving (kw_server W) = None"
    "length data \<le> get_buffer_size (ks_recv_buffer (kw_server W))" "unat (kw_counter W) + 1 < 2 ^ 32" "length mem < 2 ^ 64"
  shows "if \<not> ks_open (kw_server W) \<and> ks_endpoint_2_id (kw_server W) ep = None then kcp_do_receive_from S pk K self now tv ep data mem W = None
    else kcp_world_ok (unat (kw_counter W) + 1) (kcp_do_receive_from S pk K self now tv ep data mem W)"
proof -
  let ?s = "kw_server W" and ?rb = "ks_recv_buffer (kw_server W)"
  have i: "wt_safe (kw_logic W)" "clients_ok (kw_counter W) ?s" "buffers_ok ?s" using assms(3) by (simp_all add: kcp_inv_def)
  obtain sb where sb: "write_memory (get_curr_write_ptr ?rb) data ?rb = Some sb" "sb_inv sb" "sb_max_buff_size sb = sb_max_buff_size ?rb"
    using write_fits [OF _ assms(5)] i(3) by (auto simp: buffers_ok_def)
  let ?s1 = "?s \<lparr> ks_recv_buffer := sb \<rparr>"
  let ?W = "W \<lparr> kw_server := ?s1 \<rparr>"
  have W: "wt_safe (kw_logic ?W)" "clients_ok (kw_counter ?W) (kw_server ?W)" "buffers_ok (kw_server ?W)"
    using i sb by (simp_all add: buffers_ok_def)
  have len: "length data \<le> sb_max_buff_size sb" using assms(5) sb(3) by (simp add: get_buffer_size_def)
  show ?thesis
  proof (cases "ks_endpoint_2_id ?s ep")
    case (Some c)
    have "kcp_world_ok (unat (kw_counter W)) (Some ?W)" using W assms(4) by (simp add: kcp_inv_def)
    moreover note receive_from_known [OF assms(1,2) W, where len = "length data" and c = c and S = S and self = self and now = now and tv = tv and ep = ep]
    ultimately show ?thesis using Some sb(1) len
      by (auto simp: kcp_do_receive_from_def kcp_add_udp_endpoint_def intro: kcp_world_ok_mono)
  next
    case None
    have n: "ks_endpoint_2_id (kw_server ?W) ep = None" "unat (kw_counter ?W) + 1 < 2 ^ 32" using None assms(6) by simp_all
    note new = add_endpoint_new [OF assms(2) W n assms(7), of S pk self tv "length data"]
    show ?thesis
    proof (cases "ks_open ?s")
      case True
      with new(2) obtain W' where W': "kcp_add_udp_endpoint S pk K self tv ep (length data) mem ?W = Some (kw_counter W + 1, W')"
          "wt_safe (kw_logic W')" "clients_ok (kw_counter W') (kw_server W')" "buffers_ok (kw_server W')"
          "ks_recv_buffer (kw_server W') = sb" "kw_counter W' = kw_counter W + 1" "ks_receiving (kw_server W') = None" using assms(4) by auto
      have c: "kw_counter W + 1 \<noteq> 0" "unat (kw_counter W') = unat (kw_counter W) + 1" using kcp_counter_step [OF assms(6)] W'(6) by auto
      from receive_from_known [OF assms(1,2) W'(2-4), where len = "length data" and c = "kw_counter W + 1" and S = S and self = self and now = now and tv = tv and ep = ep] len c W' sb(1) True show ?thesis
        by (simp add: kcp_do_receive_from_def)
    qed (use new(1) None sb(1) in \<open>simp add: kcp_do_receive_from_def\<close>)
  qed
qed

lemma kcp_close_ok:
  assumes "kcp_inv W" "ks_id_2_endpoint (kw_server W) c = Some i"
  obtains W' where "kcp_close S pk self c W = Some W'" "kcp_inv W'" "kw_counter W' = kw_counter W"
    "ks_id_2_endpoint (kw_server W') = (ks_id_2_endpoint (kw_server W))(c := None)"
proof -
  have inv: "wt_safe (kw_logic W)" "clients_ok (kw_counter W) (kw_server W)" using assms(1) by (simp_all add: kcp_inv_def)
  obtain k where k: "ki_kcpcb i = Some k" using inv(2) assms(2) unfolding clients_ok_def by blast
  obtain w where w: "delete_thread_session S c self ClientIPInfo_default (ks_io_type (kw_server W)) (kw_logic W) = Some w" "wt_safe w"
    by (rule ends_safeE [OF safe_disconnect [OF inv(1)]])
  let ?s = "(kw_server W) \<lparr> ks_id_2_endpoint := (ks_id_2_endpoint (kw_server W))(c := None),
    ks_endpoint_2_id := (ks_endpoint_2_id (kw_server W))(ki_send_endpoint i := None) \<rparr>"
  let ?W = "W \<lparr> kw_parser := pk_disconnect pk c (ks_io_type (kw_server W)) (kw_parser W), kw_server := ?s, kw_logic := w \<rparr>"
  have "kcp_close S pk self c W = Some ?W" using assms(2) k w(1)
    by (simp add: kcp_close_def kcp_close_udp_endpoint_by_id_def kcp_find_udp_endpoint_by_id_def kcp_get_remote_ip_def Let_def)
  moreover have "kcp_inv ?W" using assms(1) w(2) clients_remove [OF inv(2) assms(2)] by (simp add: kcp_inv_def buffers_ok_def)
  ultimately show thesis by (intro that [of ?W]) simp_all
qed

lemma kcp_close_clients_ok:
  "kcp_inv W \<Longrightarrow> distinct cs \<Longrightarrow> set cs \<subseteq> dom (ks_id_2_endpoint (kw_server W)) \<Longrightarrow>
   \<exists>W'. kcp_close_clients S pk self cs W = Some W' \<and> kcp_inv W' \<and> kw_counter W' = kw_counter W"
proof (induction cs arbitrary: W)
  case (Cons c cs)
  then obtain i where "ks_id_2_endpoint (kw_server W) c = Some i" by auto
  from kcp_close_ok [OF Cons.prems(1) this, of S pk self] obtain W1 where W1: "kcp_close S pk self c W = Some W1" "kcp_inv W1"
    "kw_counter W1 = kw_counter W" "ks_id_2_endpoint (kw_server W1) = (ks_id_2_endpoint (kw_server W))(c := None)" by metis
  have "set cs \<subseteq> dom (ks_id_2_endpoint (kw_server W1))" using Cons.prems(2,3) W1(4) by (auto simp: subset_eq domIff)
  from Cons.IH [OF W1(2) _ this] Cons.prems(2) W1(1,3) show ?case by simp
qed simp

lemma finite_clients: "finite (dom (ks_id_2_endpoint s))"
  by (rule finite)

lemma kcp_inv_server:
  "kcp_inv W \<Longrightarrow> clients_ok (kw_counter W) s \<Longrightarrow> ks_recv_buffer s = ks_recv_buffer (kw_server W) \<Longrightarrow>
   ks_recv_data_buffer s = ks_recv_data_buffer (kw_server W) \<Longrightarrow> ks_receiving s = ks_receiving (kw_server W) \<Longrightarrow>
   kcp_inv (W \<lparr> kw_server := s \<rparr>)"
  by (simp add: kcp_inv_def buffers_ok_def)

lemma send_message_ok:
  assumes "kcp_inv W" "ks_id_2_endpoint (kw_server W) c = Some i"
  obtains s where "kcp_send_message K tv c data i (kw_server W) = Some s" "kcp_inv (W \<lparr> kw_server := s \<rparr>)"
proof -
  let ?s = "set_kcp_send_info c (ki_send_endpoint i) (kw_server W)"
  have cl: "clients_ok (kw_counter W) (kw_server W)" using assms(1) by (simp add: kcp_inv_def)
  obtain k where k: "ki_kcpcb i = Some k" "sb_inv (ki_session_send_buffer i)" using cl assms(2) unfolding clients_ok_def by blast
  let ?f = "kcp_flush K tv (ikcp_send K data k) ?s"
  let ?s1 = "kcp_set_session c (kcp_clear_write_buffer (i \<lparr> ki_kcpcb := Some (fst ?f) \<rparr>)) (snd ?f)"
  have "clients_ok (kw_counter W) ?s1"
    by (rule clients_set [where i = i]) (use cl assms(2) k(2) in \<open>simp_all add: kcp_clear_write_buffer_def\<close>)
  hence "kcp_inv (W \<lparr> kw_server := ?s1 \<rparr>)" by (intro kcp_inv_server [OF assms(1)]) (simp_all add: set_kcp_send_info_def)
  moreover have "kcp_send_message K tv c data i (kw_server W) = Some ?s1" using k(1) by (simp add: kcp_send_message_def case_prod_beta Let_def)
  ultimately show thesis by (rule that [rotated])
qed

lemma clear_ok:
  assumes "kcp_inv W" "ks_id_2_endpoint (kw_server W) c = Some i"
  shows "kcp_inv (W \<lparr> kw_server := kcp_set_session c (kcp_clear_write_buffer i) (kw_server W) \<rparr>)"
proof -
  have cl: "clients_ok (kw_counter W) (kw_server W)" using assms(1) by (simp add: kcp_inv_def)
  hence "ki_kcpcb i \<noteq> None" "sb_inv (ki_session_send_buffer i)" using assms(2) unfolding clients_ok_def by blast+
  hence "clients_ok (kw_counter W) (kcp_set_session c (kcp_clear_write_buffer i) (kw_server W))"
    by (intro clients_set [OF cl assms(2)]) (simp_all add: kcp_clear_write_buffer_def)
  thus ?thesis by (intro kcp_inv_server [OF assms(1)]) simp_all
qed

lemma set_write_ok:
  assumes "kcp_inv W" shows "\<exists>s. kcp_set_write_buffer c data (kw_server W) = Some s \<and> kcp_inv (W \<lparr> kw_server := s \<rparr>)"
proof (cases "ks_id_2_endpoint (kw_server W) c")
  case None
  thus ?thesis using assms by (simp add: kcp_set_write_buffer_def kcp_find_udp_endpoint_by_id_def)
next
  case (Some i)
  have cl: "clients_ok (kw_counter W) (kw_server W)" using assms by (simp add: kcp_inv_def)
  hence i: "ki_kcpcb i \<noteq> None" "sb_inv (ki_session_send_buffer i)" using Some unfolding clients_ok_def by blast+
  show ?thesis
  proof (cases "get_buffer_size (ki_session_send_buffer i) \<le> length data")
    case True
    thus ?thesis using Some assms by (simp add: kcp_set_write_buffer_def kcp_find_udp_endpoint_by_id_def)
  next
    case False
    then obtain sb where sb: "write_memory (get_curr_write_ptr (ki_session_send_buffer i)) data (ki_session_send_buffer i) = Some sb" "sb_inv sb"
      using write_fits [OF i(2), of data] by auto
    have "clients_ok (kw_counter W) (kcp_set_session c (i \<lparr> ki_session_send_buffer := snd (set_write_data (length data) sb) \<rparr>) (kw_server W))"
      by (rule clients_set [OF cl Some]) (use i sb(2) in simp_all)
    hence "kcp_inv (W \<lparr> kw_server := kcp_set_session c (i \<lparr> ki_session_send_buffer := snd (set_write_data (length data) sb) \<rparr>) (kw_server W) \<rparr>)"
      by (intro kcp_inv_server [OF assms]) simp_all
    thus ?thesis using False Some sb(1) by (simp add: kcp_set_write_buffer_def kcp_find_udp_endpoint_by_id_def)
  qed
qed

lemma finish_size_ok:
  assumes "kcp_inv W" shows "kcp_inv (W \<lparr> kw_server := kcp_add_send_finish_size c n ((kw_server W) \<lparr> ks_sending := ss \<rparr>) \<rparr>)"
proof (cases "ks_id_2_endpoint (kw_server W) c")
  case None
  thus ?thesis using assms by (simp add: kcp_add_send_finish_size_def kcp_inv_def buffers_ok_def)
next
  case (Some i)
  have cl: "clients_ok (kw_counter W) (kw_server W)" using assms by (simp add: kcp_inv_def)
  hence i: "ki_kcpcb i \<noteq> None" "sb_inv (ki_session_send_buffer i)" using Some unfolding clients_ok_def by blast+
  have "clients_ok (kw_counter W) (kcp_set_session c (i \<lparr> ki_send_data_size := x \<rparr>) ((kw_server W) \<lparr> ks_sending := ss \<rparr>))" for x
    by (rule clients_set [where i = i]) (use cl Some i in simp_all)
  thus ?thesis using Some by (intro kcp_inv_server [OF assms]) (simp_all add: kcp_add_send_finish_size_def)
qed

lemma do_write_ok:
  assumes "kcp_inv W"
  shows "\<exists>s. kcp_do_write K tv c (kw_server W) = Some s \<and> kcp_inv (W \<lparr> kw_server := s \<rparr>)"
    "\<exists>s. kcp_do_write_immediately K tv c data (kw_server W) = Some s \<and> kcp_inv (W \<lparr> kw_server := s \<rparr>)"
proof -
  have "(\<exists>s. kcp_do_write K tv c (kw_server W) = Some s \<and> kcp_inv (W \<lparr> kw_server := s \<rparr>)) \<and>
    (\<exists>s. kcp_do_write_immediately K tv c data (kw_server W) = Some s \<and> kcp_inv (W \<lparr> kw_server := s \<rparr>))"
  proof (cases "ks_id_2_endpoint (kw_server W) c")
    case None
    thus ?thesis using assms by (simp add: kcp_do_write_def kcp_do_write_immediately_def kcp_find_udp_endpoint_by_id_def)
  next
    case (Some i)
    have "\<exists>s. kcp_send_message K tv c d i (kw_server W) = Some s \<and> kcp_inv (W \<lparr> kw_server := s \<rparr>)" for d
      by (rule send_message_ok [OF assms Some, of K tv d]) blast
    thus ?thesis using Some clear_ok [OF assms Some]
      by (simp add: kcp_do_write_def kcp_do_write_immediately_def kcp_find_udp_endpoint_by_id_def)
  qed
  thus "\<exists>s. kcp_do_write K tv c (kw_server W) = Some s \<and> kcp_inv (W \<lparr> kw_server := s \<rparr>)"
    "\<exists>s. kcp_do_write_immediately K tv c data (kw_server W) = Some s \<and> kcp_inv (W \<lparr> kw_server := s \<rparr>)" by blast+
qed

lemma kcp_step_receive:
  assumes "parser_ok pk" "kcp_ok K" "kcp_inv W" "unat (kw_counter W) + 1 < 2 ^ 32"
  shows "if kcp_crashes (EK_Receive now tv ep data mem) W then kcp_step S pk K self (EK_Receive now tv ep data mem) W = None
    else kcp_world_ok (unat (kw_counter W) + 1) (kcp_step S pk K self (EK_Receive now tv ep data mem) W)"
proof (cases "\<exists>n. ks_receiving (kw_server W) = Some n \<and> length data \<le> n \<and> length mem = unat (ks_max_send_size (kw_server W))")
  case True
  then obtain n where n: "ks_receiving (kw_server W) = Some n" "length data \<le> n" "length mem = unat (ks_max_send_size (kw_server W))" by blast
  let ?W = "W \<lparr> kw_server := (kw_server W) \<lparr> ks_receiving := None \<rparr> \<rparr>"
  have "n = get_buffer_size (ks_recv_buffer (kw_server W))" "kcp_inv ?W" using assms(3) n(1) by (simp_all add: kcp_inv_def buffers_ok_def)
  moreover have "unat (ks_max_send_size (kw_server W)) < 2 ^ LENGTH(32)" by (rule unsigned_less)
  hence "length mem < 2 ^ 64" using n(3) by simp
  ultimately show ?thesis using receive_from_ok [OF assms(1,2), of ?W data mem ep S self now tv] n assms(4) by (auto split: if_splits)
next
  case False
  hence "kcp_step S pk K self (EK_Receive now tv ep data mem) W = Some W" by (auto split: option.split)
  moreover have "\<not> kcp_crashes (EK_Receive now tv ep data mem) W" using False by (auto split: option.splits)
  ultimately show ?thesis using assms(3) by (simp del: kcp_step.simps kcp_crashes.simps)
qed

lemma kcp_step_ok:
  assumes "parser_ok pk" "kcp_ok K" "kcp_inv W" "unat (kw_counter W) + 1 < 2 ^ 32"
  shows "if kcp_crashes e W then kcp_step S pk K self e W = None
    else kcp_world_ok (unat (kw_counter W) + 1) (kcp_step S pk K self e W)"
proof (cases e)
  case (EK_Receive now tv ep data mem)
  thus ?thesis using kcp_step_receive [OF assms] by (simp only:)
next
  case (EK_Close c)
  show ?thesis
  proof (cases "ks_id_2_endpoint (kw_server W) c")
    case None
    thus ?thesis using EK_Close by (simp add: kcp_close_def kcp_find_udp_endpoint_by_id_def)
  next
    case (Some i)
    show ?thesis by (rule kcp_close_ok [OF assms(3) Some, of S pk self]) (use EK_Close Some in simp)
  qed
next
  case EK_Close_Server
  have "\<exists>W'. kcp_close_clients S pk self (sorted_list_of_set (dom (ks_id_2_endpoint (kw_server W)))) W = Some W' \<and> kcp_inv W' \<and> kw_counter W' = kw_counter W"
    by (rule kcp_close_clients_ok [OF assms(3)]) (simp_all add: finite_clients)
  thus ?thesis using EK_Close_Server by (auto simp: kcp_close_server_def kcp_inv_def buffers_ok_def)
next
  case (EK_Sent n ec)
  have "kcp_inv (W \<lparr> kw_server := (kw_server W) \<lparr> ks_sending := ss \<rparr> \<rparr>)" for ss
    using assms(3) by (simp add: kcp_inv_def buffers_ok_def)
  thus ?thesis using EK_Sent assms(3) finish_size_ok [OF assms(3)] by (auto simp: Let_def case_prod_beta)
next
  case EK_Other_Connection
  have "kw_counter W \<le> kw_counter W + 1" "unat (kw_counter W + 1) = unat (kw_counter W) + 1"
    using kcp_counter_step [OF assms(4)] by (simp_all add: less_imp_le)
  thus ?thesis using EK_Other_Connection assms(3) clients_more [of "kw_counter W" "kw_server W" "kw_counter W + 1"] by (simp add: CreateCounter_def kcp_inv_def Let_def)
next
  case EK_Receive_Error
  thus ?thesis using assms(3) by (simp add: kcp_receive_error_def kcp_inv_def buffers_ok_def Let_def add_frame_events_def wt_safe_post)
next
  case (EK_Set_Bridge a b)
  have "clients_ok (kw_counter W) (kcp_set_io_bridge_connect_id a b (kw_server W)) = clients_ok (kw_counter W) (kw_server W)"
    by (rule clients_cong) (simp_all add: kcp_set_io_bridge_connect_id_def)
  hence "kcp_inv (W \<lparr> kw_server := kcp_set_io_bridge_connect_id a b (kw_server W) \<rparr>)" using assms(3)
    by (intro kcp_inv_server [OF assms(3)]) (simp_all add: kcp_inv_def kcp_set_io_bridge_connect_id_def)
  thus ?thesis using EK_Set_Bridge by simp
next
  case (EK_Set_Write_Buffer c data)
  thus ?thesis using set_write_ok [OF assms(3), of c data] by auto
next
  case (EK_Do_Write tv c)
  thus ?thesis using do_write_ok(1) [OF assms(3), of K tv c] by auto
next
  case (EK_Write_Immediately tv c data)
  thus ?thesis using do_write_ok(2) [OF assms(3), of K tv c data] by auto
qed

lemma kcp_run_inv:
  "parser_ok pk \<Longrightarrow> kcp_ok K \<Longrightarrow> kcp_inv W \<Longrightarrow> unat (kw_counter W) + length es < 2 ^ 32 \<Longrightarrow>
   run_steps (kcp_step S pk K self) es W = Some W' \<Longrightarrow> kcp_inv W' \<and> unat (kw_counter W') \<le> unat (kw_counter W) + length es"
proof (induction es arbitrary: W)
  case (Cons e es)
  from Cons.prems(5) obtain W1 where W1: "kcp_step S pk K self e W = Some W1" "run_steps (kcp_step S pk K self) es W1 = Some W'"
    unfolding run_steps.simps by (cases "kcp_step S pk K self e W") simp_all
  have "unat (kw_counter W) + 1 < 2 ^ 32" using Cons.prems(4) by simp
  hence i: "kcp_inv W1" "unat (kw_counter W1) \<le> unat (kw_counter W) + 1"
    using kcp_step_ok [OF Cons.prems(1-3), of e S self] W1(1) by (simp_all split: if_splits)
  hence "unat (kw_counter W1) + length es < 2 ^ 32" using Cons.prems(4) by simp
  from Cons.IH [OF Cons.prems(1,2) i(1) this W1(2)] i(2) show ?case by simp
qed simp

lemma kcp_world_start_inv:
  "wt_safe w \<Longrightarrow> length mem < 2 ^ 64 \<Longrightarrow> length data_mem = length mem \<Longrightarrow> kcp_inv (kcp_world_start mem data_mem max_send p n w)"
  by (simp add: kcp_world_start_def kcp_start_def kcp_do_receive_def CKcpServer_ctor_def kcp_inv_def clients_ok_def tables_inverse_def
      endpoint_of_def buffers_ok_def) (simp add: Init_def)

lemma queue_kcp_ok: "kcp_ok queue_kcp"
  unfolding kcp_ok_def
proof (intro conjI exI [of _ "\<lambda>k. length (fst k)"] allI impI)
  fix n k d k' assume "ikcp_recv queue_kcp n k = Some (d, k')"
  thus "length d \<le> n" "length (fst k') < length (fst k)"
    by (auto simp: queue_kcp_def case_prod_beta split: list.splits if_splits)
qed (simp add: queue_kcp_def)

text \<open>Of the segments of one flush only the first is sent, since it clears the id it is sent for.\<close>

lemma output_none: "ks_send_connect_id s = 0 \<Longrightarrow> ks_sending (fold kcp_udpOutPut out s) = ks_sending s"
  by (induction out arbitrary: s) (simp_all add: kcp_udpOutPut_def send_io_data_to_point_def Let_def)

lemma output_first:
  "ks_sending (fold kcp_udpOutPut out s) = ks_sending s @
     (case out of [] \<Rightarrow> [] | d # ds \<Rightarrow> if ks_send_connect_id s = 0 then [] else [(ks_send_connect_id s, ks_send_endpoint s, d)])"
  by (cases out) (simp_all add: output_none kcp_udpOutPut_def send_io_data_to_point_def Let_def)


subsection \<open>Main properties\<close>



text \<open>
  A message that takes several segments is sent in part: the first segment that a flush
  produces is handed to the socket, and every further one of the same flush is dropped.
\<close>

theorem kcp_write_sends_first_segment:
  assumes "ks_id_2_endpoint (kw_server W) c = Some i" "ki_udp_state i = KCP_ID_VALID" "ki_kcpcb i = Some k" "c \<noteq> 0"
    "ikcp_update K (iclock tv) (ikcp_send K data k) = (k', segments)"
  shows "\<exists>W'. kcp_step S pk K self (EK_Write_Immediately tv c data) W = Some W' \<and>
    ks_sending (kw_server W') = ks_sending (kw_server W) @ map (\<lambda>d. (c, ki_send_endpoint i, d)) (take 1 segments)"
  using assms output_first [of segments "set_kcp_send_info c (ki_send_endpoint i) (kw_server W)"]
  by (cases segments) (simp_all add: kcp_do_write_immediately_def kcp_find_udp_endpoint_by_id_def kcp_send_message_def kcp_flush_def
      set_kcp_send_info_def kcp_set_session_def Let_def)

theorem kcp_write_sends_first_segment_witness:
  "\<exists>W'. kcp_step echo_ops one_message_parser queue_kcp 7 (EK_Write_Immediately (0, 0) 3 [9])
      ((kcp_world_start [0, 0] [0, 0] 4 () 1 echo_server) \<lparr> kw_server := kcp_set_session 3
        \<lparr> ki_send_endpoint = ClientIPInfo ''a'' 1, ki_recv_data_size = 0, ki_send_data_size = 0, ki_session_send_buffer = Init [0],
          ki_udp_state = KCP_ID_VALID, ki_kcp_id = 3, ki_kcpcb = Some ([], [[1], [2]]) \<rparr>
        (CKcpServer_ctor [0, 0] [0, 0] 4 ''0'' 9 (ClientIPInfo ''0'' 9) 0
          \<lparr> tcp_service_list = [], udp_service_list = [], kcp_service_list = [], tty_service_list = [] \<rparr>) \<rparr>) = Some W' \<and>
    ks_sending (kw_server W') = [(3, ClientIPInfo ''a'' 1, [1])]"
proof -
  let ?s = "CKcpServer_ctor [0, 0] [0, 0] 4 ''0'' 9 (ClientIPInfo ''0'' 9) 0
    \<lparr> tcp_service_list = [], udp_service_list = [], kcp_service_list = [], tty_service_list = [] \<rparr> :: (bytes list \<times> bytes list) CKcpServer"
  let ?i = "\<lparr> ki_send_endpoint = ClientIPInfo ''a'' 1, ki_recv_data_size = 0, ki_send_data_size = 0, ki_session_send_buffer = Init [0],
    ki_udp_state = KCP_ID_VALID, ki_kcp_id = 3, ki_kcpcb = Some ([], [[1], [2]]) \<rparr> :: (bytes list \<times> bytes list) CKcp_Session_Info"
  let ?W = "(kcp_world_start [0, 0] [0, 0] 4 () 1 echo_server) \<lparr> kw_server := kcp_set_session 3 ?i ?s \<rparr> :: (nat, unit, bytes list \<times> bytes list) kcp_world"
  have "\<exists>W'. kcp_step echo_ops one_message_parser queue_kcp 7 (EK_Write_Immediately (0, 0) 3 [9]) ?W = Some W' \<and>
      ks_sending (kw_server W') = ks_sending (kw_server ?W) @ map (\<lambda>d. (3, ki_send_endpoint ?i, d)) (take 1 [[1], [2], [9]])"
    by (rule kcp_write_sends_first_segment [where k = "([], [[1], [2]])" and k' = "([], [])"]) (simp_all add: queue_kcp_def)
  thus ?thesis by (simp add: CKcpServer_ctor_def kcp_set_session_def)
qed

text \<open>
  Two messages that arrive in one datagram are written over each other: both are copied to
  the start of the data buffer, which then holds as many bytes as both have together, and
  begins with the second; the first one is lost as far as the second reaches.
\<close>

theorem kcp_messages_overwrite:
  assumes "ikcp_recv K len k = Some (d1, k1)" "ikcp_recv K len k1 = Some (d2, k2)" "ikcp_recv K len k2 = None"
    "sb_inv sb" "contents sb = []" "length d1 + length d2 \<le> sb_max_buff_size sb"
  shows "\<exists>sb'. kcp_recv_loop K len k sb 0 = Some (k2, sb', length d1 + length d2) \<and>
    length (contents sb') = length d1 + length d2 \<and> take (length d2) (contents sb') = d2"
proof -
  have z: "sb_write_size sb = 0" "sb_max_buff_size sb = length (sb_buffer sb)" "sb_max_buff_size sb < 2 ^ 64"
    using assms(4,5) by (auto simp: contents_def sb_inv_def)
  let ?b1 = "blit 0 d1 (sb_buffer sb)"
  let ?s1 = "sb \<lparr> sb_buffer := ?b1, sb_write_size := length d1 \<rparr>"
  let ?s2 = "sb \<lparr> sb_buffer := blit 0 d2 ?b1, sb_write_size := length d1 + length d2 \<rparr>"
  have w1: "write_memory (read_ptr sb) d1 sb = Some (sb \<lparr> sb_buffer := ?b1 \<rparr>)" using z assms(6) by (simp add: write_memory_def read_ptr_def)
  have s1: "snd (set_write_data (length d1) (sb \<lparr> sb_buffer := ?b1 \<rparr>)) = ?s1" using z assms(6) by (simp add: set_write_data_def)
  have l1: "length ?b1 = length (sb_buffer sb)" using z assms(6) by simp
  have w2: "write_memory (read_ptr ?s1) d2 ?s1 = Some (?s1 \<lparr> sb_buffer := blit 0 d2 ?b1 \<rparr>)"
    using z assms(6) l1 by (simp add: write_memory_def read_ptr_def)
  have s2: "snd (set_write_data (length d2) (?s1 \<lparr> sb_buffer := blit 0 d2 ?b1 \<rparr>)) = ?s2" using z assms(6) by (simp add: set_write_data_def)
  have "kcp_recv_loop K len k2 ?s2 (length d1 + length d2) = Some (k2, ?s2, length d1 + length d2)"
    using assms(3) by (subst kcp_recv_loop.simps) simp
  hence "kcp_recv_loop K len k1 ?s1 (length d1) = Some (k2, ?s2, length d1 + length d2)"
    using assms(2) w2 s2 by (subst kcp_recv_loop.simps) simp
  hence "kcp_recv_loop K len k sb 0 = Some (k2, ?s2, length d1 + length d2)"
    using assms(1) w1 s1 by (subst kcp_recv_loop.simps) simp
  moreover have "length (contents ?s2) = length d1 + length d2" "take (length d2) (contents ?s2) = d2"
    using z assms(6) l1 by (simp_all add: contents_def blit_def)
  ultimately show ?thesis by blast
qed

theorem kcp_messages_overwrite_witness:
  "\<exists>sb'. kcp_recv_loop queue_kcp 3 ([[1, 2], [3, 4]], []) (Init [0, 0, 0, 0]) 0 = Some (([], []), sb', length [1::u8, 2] + length [3::u8, 4]) \<and>
    length (contents sb') = length [1::u8, 2] + length [3::u8, 4] \<and> take (length [3::u8, 4]) (contents sb') = [3, 4]"
  by (rule kcp_messages_overwrite [where ?k1.0 = "([[3, 4]], [])"]) (simp_all add: queue_kcp_def, simp_all add: Init_def contents_def sb_inv_def)

end
