(* ===== verification/Tty_Server.thy ===== *)
theory Tty_Server
  imports Client_Common Net_Services
begin

text \<open>
  Serial ports.  \<open>CTTyServer\<close> is the session of one port and registers itself with the
  manager of the listeners.

  The reads it has started are \<open>ty_reads\<close>, each with the position and the size of the
  memory it was given: unlike the other sessions it can have several at a time.  The
  writes in progress are \<open>ty_writes\<close>, with a flag that says whether \<open>do_write_finish\<close> is
  their handler; \<open>async_write_some\<close> may write only a part.  \<open>None\<close> is undefined behaviour.
\<close>


section \<open>Serial ports (TTySession/TtyServer)\<close>


subsection \<open>Definitions\<close>

datatype tty_lambda = LY_Close EM_CONNECT_IO_TYPE ClientIPInfo | LY_Write bytes

record CTTyServer =
  ty_tty_name :: string
  ty_tty_port :: u16
  ty_connect_id :: u32
  ty_server_id :: u32
  ty_io_bridge_connect_id :: u32
  ty_remote_ip :: ClientIPInfo
  ty_local_ip :: ClientIPInfo
  ty_recv_data_size :: u64
  ty_send_data_size :: u64
  ty_send_buffer_size :: u64
  ty_is_active_close :: bool
  ty_recv_data_time :: int
  ty_recv_buffer :: CSessionBuffer
  ty_send_buffer :: CSessionBuffer
  ty_io_type :: EM_CONNECT_IO_TYPE
  ty_io_state :: EM_SESSION_STATE
  ty_io_list_manager :: CNetSvrManager
  ty_reads :: "(nat \<times> nat) list"
  ty_writes :: "(bool \<times> bytes) list"
  ty_lambdas :: "tty_lambda list"

type_synonym ('s, 'p) tty_world = "(CTTyServer, 's, 'p) io_world"

text \<open>The constructor, with the memory of the buffers, the counter of connections and the manager.\<close>

definition CTTyServer_ctor :: "bytes \<Rightarrow> bytes \<Rightarrow> u32 \<Rightarrow> int \<Rightarrow> CNetSvrManager \<Rightarrow> u32 \<times> CTTyServer" where
  "CTTyServer_ctor recv_mem send_mem count_index now io_list_manager =
    (let (connect_id, count_index) = CreateCounter count_index in
     (count_index, \<lparr> ty_tty_name = [], ty_tty_port = 0, ty_connect_id = connect_id, ty_server_id = 0, ty_io_bridge_connect_id = 0,
       ty_remote_ip = ClientIPInfo_default, ty_local_ip = ClientIPInfo_default, ty_recv_data_size = 0, ty_send_data_size = 0,
       ty_send_buffer_size = 0, ty_is_active_close = False, ty_recv_data_time = now, ty_recv_buffer = Init recv_mem,
       ty_send_buffer = Init send_mem, ty_io_type = CONNECT_IO_TTY, ty_io_state = SESSION_IO_LOGIC,
       ty_io_list_manager = io_list_manager, ty_reads = [], ty_writes = [], ty_lambdas = [] \<rparr>))"

definition tty_do_receive :: "CTTyServer \<Rightarrow> CTTyServer" where
  "tty_do_receive t = t \<lparr> ty_reads := ty_reads t @ [(get_curr_write_ptr (ty_recv_buffer t), get_buffer_size (ty_recv_buffer t))] \<rparr>"

definition add_serial_port :: "bool \<Rightarrow> ('s, 'p) tty_world \<Rightarrow> bool \<times> ('s, 'p) tty_world" where
  "add_serial_port opened W =
    (let t = iw_session W in
     if \<not> opened then (False, W \<lparr> iw_logic := add_frame_events LOGIC_LISTEN_SERVER_ERROR (ty_server_id t)
       (m_strClientIP (ty_local_ip t)) (m_u2Port (ty_local_ip t)) (ty_io_type t) (iw_logic W) \<rparr>)
     else (True, W))"

text \<open>
  \<open>start\<close>: \<open>opened\<close> says whether the port could be opened and \<open>baud_rate\<close> is what
  \<open>get_option\<close> reads; \<open>index\<close> is the position of this object among the servers.
\<close>

definition tty_start ::
  "'s session_ops \<Rightarrow> 'p packet_parse option \<Rightarrow> 's \<Rightarrow> nat \<Rightarrow> bool \<Rightarrow> u32 option \<Rightarrow> int \<Rightarrow> string \<Rightarrow> u16 \<Rightarrow> u32 \<Rightarrow>
   ('s, 'p) tty_world \<Rightarrow> ('s, 'p) tty_world option" where
  "tty_start S P self index opened baud_rate now name port server_id W =
    (let (ok, W) = add_serial_port opened W in
     if \<not> ok then Some W
     else
       let t = (iw_session W) \<lparr> ty_recv_data_time := now, ty_server_id := server_id, ty_tty_name := name, ty_tty_port := port \<rparr> in
       case baud_rate of
         None \<Rightarrow> Some (W \<lparr> iw_session := t \<rparr>)
       | Some option_value \<Rightarrow> do {
           let t = t \<lparr> ty_local_ip := ClientIPInfo ''tty'' (m_u2Port (ty_local_ip t)),
                       ty_remote_ip := ClientIPInfo name (ucast option_value) \<rparr>;
           pk \<leftarrow> P;
           let p = pk_connect pk (ty_connect_id t) (ty_remote_ip t) (ty_local_ip t) (ty_io_type t) (iw_parser W);
           w \<leftarrow> add_thread_session S (ty_connect_id t) self (ty_local_ip t) (ty_remote_ip t) (iw_logic W);
           let t = t \<lparr> ty_io_list_manager := add_accept_net_io_event (ty_tty_name t) (ty_tty_port t) CONNECT_IO_TTY index
             (ty_io_list_manager t) \<rparr>;
           Some (W \<lparr> iw_session := tty_do_receive t, iw_parser := p, iw_logic := w \<rparr>) })"

definition tty_set_write_buffer :: "bytes \<Rightarrow> CTTyServer \<Rightarrow> CTTyServer option" where
  "tty_set_write_buffer data t =
    (if get_buffer_size (ty_send_buffer t) \<le> length data then Some t
     else do {
       sb \<leftarrow> write_memory (get_curr_write_ptr (ty_send_buffer t)) data (ty_send_buffer t);
       Some (t \<lparr> ty_send_buffer := snd (set_write_data (length data) sb) \<rparr>) })"

definition tty_clear_write_buffer :: "CTTyServer \<Rightarrow> CTTyServer" where
  "tty_clear_write_buffer t = t \<lparr> ty_send_buffer := move_buffer (get_write_size (ty_send_buffer t)) (ty_send_buffer t) \<rparr>"

definition tty_do_write :: "CTTyServer \<Rightarrow> CTTyServer" where
  "tty_do_write t =
    (let sb = ty_send_buffer t;
         data = mem_slice (read_ptr sb) (get_write_size sb) (sb_buffer sb);
         t = t \<lparr> ty_send_buffer_size := ty_send_buffer_size t + of_nat (get_write_size sb) \<rparr>;
         t = tty_clear_write_buffer t;
         t = t \<lparr> ty_writes := ty_writes t @ [(True, data)] \<rparr> in
     tty_clear_write_buffer t)"

definition tty_close_immediaterly :: "CTTyServer \<Rightarrow> CTTyServer" where
  "tty_close_immediaterly t = t \<lparr> ty_lambdas := ty_lambdas t @ [LY_Close (ty_io_type t) (ty_remote_ip t)] \<rparr>"

definition tty_add_send_finish_size :: "nat \<Rightarrow> CTTyServer \<Rightarrow> CTTyServer" where
  "tty_add_send_finish_size send_length t = t \<lparr> ty_send_data_size := ty_send_data_size t + of_nat send_length \<rparr>"

definition tty_send_write_fail_to_logic ::
  "'s session_ops \<Rightarrow> 's \<Rightarrow> bytes \<Rightarrow> nat \<Rightarrow> ('s, 'p) tty_world \<Rightarrow> ('s, 'p) tty_world option" where
  "tty_send_write_fail_to_logic S self write_fail_buffer buffer_length W = do {
     w \<leftarrow> assignation_thread_module_logic S (ty_connect_id (iw_session W))
            [write_fail_packet write_fail_buffer buffer_length] self (iw_logic W);
     Some (W \<lparr> iw_logic := w \<rparr>) }"

definition tty_do_write_finish ::
  "'s session_ops \<Rightarrow> 's \<Rightarrow> bool \<Rightarrow> bytes \<Rightarrow> nat \<Rightarrow> ('s, 'p) tty_world \<Rightarrow> ('s, 'p) tty_world option" where
  "tty_do_write_finish S self ec send_buffer len W =
    (if ec then do {
       W \<leftarrow> tty_send_write_fail_to_logic S self send_buffer len W;
       Some (if ty_is_active_close (iw_session W)
             then W \<lparr> iw_session := tty_close_immediaterly (iw_session W) \<rparr> else W) }
     else
       let t = tty_add_send_finish_size len (iw_session W) in
       Some (W \<lparr> iw_session :=
         if ty_is_active_close t \<and> ty_send_buffer_size t = ty_send_data_size t then tty_close_immediaterly t else t \<rparr>))"

definition tty_do_write_immediately :: "bytes \<Rightarrow> CTTyServer \<Rightarrow> CTTyServer" where
  "tty_do_write_immediately data t = t \<lparr> ty_lambdas := ty_lambdas t @ [LY_Write data] \<rparr>"

definition tty_close :: "CTTyServer \<Rightarrow> CTTyServer" where
  "tty_close t =
    (if ty_send_buffer_size t = ty_send_data_size t then tty_close_immediaterly t
     else (tty_do_write t) \<lparr> ty_is_active_close := True \<rparr>)"

definition tty_get_mark_id :: "u32 \<Rightarrow> CTTyServer \<Rightarrow> u32" where
  "tty_get_mark_id connect_id t = ty_server_id t"

definition tty_set_io_bridge_connect_id :: "u32 \<Rightarrow> u32 \<Rightarrow> CTTyServer \<Rightarrow> CTTyServer" where
  "tty_set_io_bridge_connect_id from_io_connect_id to_io_connect_id t =
    (if to_io_connect_id > 0
     then t \<lparr> ty_io_state := SESSION_IO_BRIDGE, ty_io_bridge_connect_id := to_io_connect_id \<rparr>
     else t \<lparr> ty_io_state := SESSION_IO_LOGIC, ty_io_bridge_connect_id := 0 \<rparr>)"

definition tty_format_send_packet ::
  "'p packet_parse \<Rightarrow> u32 \<Rightarrow> CMessage_Packet \<Rightarrow> ('s, 'p) tty_world \<Rightarrow> CMessage_Packet option" where
  "tty_format_send_packet pk connect_id message W =
     pk_format_send_buffer pk connect_id message (ty_io_type (iw_session W)) (iw_parser W)"

text \<open>The second half of \<open>do_read_some\<close>: \<open>len\<close> received bytes are committed and passed on.\<close>

definition tty_take_data ::
  "'s session_ops \<Rightarrow> 'p packet_parse \<Rightarrow> 's \<Rightarrow> int \<Rightarrow> nat \<Rightarrow> ('s, 'p) tty_world \<Rightarrow> ('s, 'p) tty_world option" where
  "tty_take_data S pk self now len W = do {
     let t = iw_session W;
     let t = t \<lparr> ty_recv_buffer := snd (set_write_data len (ty_recv_buffer t)) \<rparr>;
     (fresh, peer, sb, p, w) \<leftarrow> received_data S pk self (ty_connect_id t) (ty_io_bridge_connect_id t) (ty_io_state t)
       (ty_io_type t) len (ty_recv_buffer t) (iw_parser W) (iw_logic W);
     let t = t \<lparr> ty_recv_buffer := sb, ty_io_bridge_connect_id := peer \<rparr>;
     let t = (if \<not> fresh
              then tty_do_receive (t \<lparr> ty_recv_buffer := move_buffer len (ty_recv_buffer t) \<rparr>)
              else if ty_io_state t = SESSION_IO_BRIDGE then t else t \<lparr> ty_recv_data_time := now \<rparr>);
     Some (W \<lparr> iw_session := tty_do_receive t, iw_parser := p, iw_logic := w \<rparr>) }"

text \<open>
  \<open>do_read_some\<close> after a read that put \<open>data\<close> at the position \<open>off\<close>.  Neither the full
  buffer nor a refused packet ends the function, so both start a further read.
\<close>

definition tty_do_read_some ::
  "'s session_ops \<Rightarrow> 'p packet_parse \<Rightarrow> 's \<Rightarrow> int \<Rightarrow> nat \<Rightarrow> bytes \<Rightarrow> ('s, 'p) tty_world \<Rightarrow> ('s, 'p) tty_world option" where
  "tty_do_read_some S pk self now off data W = do {
     let t = iw_session W;
     sb \<leftarrow> write_memory off data (ty_recv_buffer t);
     let t = t \<lparr> ty_recv_buffer := sb \<rparr>;
     if length data > 0 then do {
       let t = t \<lparr> ty_recv_data_size := ty_recv_data_size t + of_nat (length data) \<rparr>;
       if get_buffer_size (ty_recv_buffer t) = 0 then do {
         let t = t \<lparr> ty_recv_buffer := move_buffer (length data) (ty_recv_buffer t) \<rparr>;
         w \<leftarrow> close_session_event (ty_connect_id t) (Some self) (iw_logic W);
         tty_take_data S pk self now (length data) (W \<lparr> iw_session := tty_do_receive t, iw_logic := w \<rparr>) }
       else tty_take_data S pk self now (length data) (W \<lparr> iw_session := t \<rparr>) }
     else Some (W \<lparr> iw_session := tty_do_receive t \<rparr>) }"

text \<open>A failed read is reported and nothing more is read.\<close>

definition tty_read_error :: "('s, 'p) tty_world \<Rightarrow> ('s, 'p) tty_world" where
  "tty_read_error W = (let t = iw_session W in
     W \<lparr> iw_logic := add_frame_events LOGIC_LISTEN_SERVER_ERROR (ty_server_id t) (ty_tty_name t) (ty_tty_port t)
       CONNECT_IO_TTY (iw_logic W) \<rparr>)"

text \<open>The functions given to \<open>dispatch\<close>.  Closing leaves the port open.\<close>

definition tty_run_lambda ::
  "'s session_ops \<Rightarrow> 'p packet_parse \<Rightarrow> 's \<Rightarrow> tty_lambda \<Rightarrow> ('s, 'p) tty_world \<Rightarrow> ('s, 'p) tty_world option" where
  "tty_run_lambda S pk self l W =
    (let t = iw_session W in
     case l of
       LY_Write data \<Rightarrow> Some (W \<lparr> iw_session := tty_clear_write_buffer (t \<lparr> ty_writes := ty_writes t @ [(False, data)] \<rparr>) \<rparr>)
     | LY_Close io_type remote_ip \<Rightarrow> do {
         w \<leftarrow> delete_thread_session S (ty_connect_id t) self remote_ip io_type (iw_logic W);
         Some (W \<lparr> iw_parser := pk_disconnect pk (ty_connect_id t) io_type (iw_parser W), iw_logic := w,
           iw_session := t \<lparr> ty_io_list_manager := del_accept_net_io_event (ty_tty_name t) (ty_tty_port t) CONNECT_IO_TTY
             (ty_io_list_manager t) \<rparr> \<rparr>) })"

text \<open>The handler of write \<open>i\<close>, after \<open>len\<close> bytes.\<close>

definition tty_write_done ::
  "'s session_ops \<Rightarrow> 's \<Rightarrow> bool \<Rightarrow> nat \<Rightarrow> nat \<Rightarrow> ('s, 'p) tty_world \<Rightarrow> ('s, 'p) tty_world option" where
  "tty_write_done S self ec i len W =
    (let t = iw_session W in
     if i < length (ty_writes t) \<and> len \<le> length (snd (ty_writes t ! i))
     then
       let W = W \<lparr> iw_session := t \<lparr> ty_writes := remove_nth i (ty_writes t) \<rparr> \<rparr> in
       if fst (ty_writes t ! i) then tty_do_write_finish S self ec (snd (ty_writes t ! i)) len W
       else if ec then Some W
       else Some (W \<lparr> iw_session := tty_add_send_finish_size len (iw_session W) \<rparr>)
     else Some W)"

datatype tty_event =
    EY_Read nat int bytes
  | EY_Read_Error nat
  | EY_Written nat nat
  | EY_Write_Error nat nat
  | EY_Run nat
  | EY_Set_Write_Buffer bytes
  | EY_Do_Write
  | EY_Write_Immediately bytes
  | EY_Close
  | EY_Set_Bridge u32 u32

fun tty_step ::
  "'s session_ops \<Rightarrow> 'p packet_parse \<Rightarrow> 's \<Rightarrow> tty_event \<Rightarrow> ('s, 'p) tty_world \<Rightarrow> ('s, 'p) tty_world option" where
  "tty_step S pk self (EY_Read i now data) W =
    (let t = iw_session W in
     if i < length (ty_reads t) \<and> length data \<le> snd (ty_reads t ! i)
     then tty_do_read_some S pk self now (fst (ty_reads t ! i)) data
       (W \<lparr> iw_session := t \<lparr> ty_reads := remove_nth i (ty_reads t) \<rparr> \<rparr>) else Some W)"
| "tty_step S pk self (EY_Read_Error i) W =
    (let t = iw_session W in
     Some (if i < length (ty_reads t) then tty_read_error (W \<lparr> iw_session := t \<lparr> ty_reads := remove_nth i (ty_reads t) \<rparr> \<rparr>) else W))"
| "tty_step S pk self (EY_Written i len) W = tty_write_done S self False i len W"
| "tty_step S pk self (EY_Write_Error i len) W = tty_write_done S self True i len W"
| "tty_step S pk self (EY_Run i) W =
    (let t = iw_session W in
     if i < length (ty_lambdas t)
     then tty_run_lambda S pk self (ty_lambdas t ! i)
       (W \<lparr> iw_session := t \<lparr> ty_lambdas := remove_nth i (ty_lambdas t) \<rparr> \<rparr>) else Some W)"
| "tty_step S pk self (EY_Set_Write_Buffer data) W = do {
     t \<leftarrow> tty_set_write_buffer data (iw_session W);
     Some (W \<lparr> iw_session := t \<rparr>) }"
| "tty_step S pk self EY_Do_Write W = Some (W \<lparr> iw_session := tty_do_write (iw_session W) \<rparr>)"
| "tty_step S pk self (EY_Write_Immediately data) W =
     Some (W \<lparr> iw_session := tty_do_write_immediately data (iw_session W) \<rparr>)"
| "tty_step S pk self EY_Close W = Some (W \<lparr> iw_session := tty_close (iw_session W) \<rparr>)"
| "tty_step S pk self (EY_Set_Bridge from_id to_id) W =
     Some (W \<lparr> iw_session := tty_set_io_bridge_connect_id from_id to_id (iw_session W) \<rparr>)"

definition tty_run ::
  "'s session_ops \<Rightarrow> 'p packet_parse \<Rightarrow> 's \<Rightarrow> tty_event list \<Rightarrow> ('s, 'p) tty_world \<Rightarrow> ('s, 'p) tty_world option" where
  "tty_run S pk self = run_steps (tty_step S pk self)"

text \<open>Every read ends at the end of the receive buffer.\<close>

definition reads_fit :: "CTTyServer \<Rightarrow> bool" where
  "reads_fit t \<longleftrightarrow> (\<forall>(off, n) \<in> set (ty_reads t). off + n = sb_max_buff_size (ty_recv_buffer t))"

definition tty_inv :: "('s, 'p) tty_world \<Rightarrow> bool" where
  "tty_inv W \<longleftrightarrow> wt_safe (iw_logic W) \<and> sb_inv (ty_recv_buffer (iw_session W)) \<and> sb_inv (ty_send_buffer (iw_session W)) \<and>
     reads_fit (iw_session W)"

definition tty_ok :: "('s, 'p) tty_world option \<Rightarrow> bool" where
  "tty_ok r = (case r of Some W \<Rightarrow> tty_inv W | None \<Rightarrow> False)"

text \<open>The events that give nothing more to send and report no failed write.\<close>

fun quiet :: "tty_event \<Rightarrow> bool" where
  "quiet (EY_Set_Write_Buffer data) = False"
| "quiet (EY_Write_Immediately data) = False"
| "quiet (EY_Write_Error i len) = False"
| "quiet _ = True"

text \<open>The counters differ, and what is in progress cannot change that.\<close>

definition tty_stuck :: "CNetSvrManager \<Rightarrow> CTTyServer \<Rightarrow> bool" where
  "tty_stuck m t \<longleftrightarrow> ty_io_list_manager t = m \<and> ty_send_buffer_size t \<noteq> ty_send_data_size t \<and> ty_lambdas t = [] \<and> get_write_size (ty_send_buffer t) = 0 \<and>
     (\<forall>(h, data) \<in> set (ty_writes t). data = [])"

text \<open>A started port with four bytes for each buffer, as an example.\<close>

definition tty_example :: "nat \<Rightarrow> (nat, unit) tty_world" where
  "tty_example used = \<lparr> iw_session = (snd (CTTyServer_ctor [0, 0, 0, 0] [0, 0, 0, 0] 2 0
     \<lparr> tcp_service_list = [], udp_service_list = [], kcp_service_list = [], tty_service_list = [] \<rparr>))
     \<lparr> ty_recv_buffer := (Init [0, 0, 0, 0]) \<lparr> sb_write_size := used \<rparr>, ty_reads := [(used, 4 - used)] \<rparr>,
     iw_parser = (), iw_logic = echo_server \<rparr>"


subsection \<open>No event is undefined\<close>

lemma tty_ok_Some [simp]: "tty_ok (Some W) = tty_inv W"
  by (simp add: tty_ok_def)

lemma tty_okE: "tty_ok r \<Longrightarrow> (\<And>W. r = Some W \<Longrightarrow> tty_inv W \<Longrightarrow> P) \<Longrightarrow> P"
  by (auto simp: tty_ok_def split: option.splits)

lemma tty_bind_safe: "ends_safe r \<Longrightarrow> (\<And>w. wt_safe w \<Longrightarrow> tty_ok (f w)) \<Longrightarrow> tty_ok (r \<bind> f)"
  by (auto elim: ends_safeE)

lemma reads_fit_nth:
  "reads_fit t \<Longrightarrow> i < length (ty_reads t) \<Longrightarrow> fst (ty_reads t ! i) + snd (ty_reads t ! i) = sb_max_buff_size (ty_recv_buffer t)"
  unfolding reads_fit_def using bspec [OF _ nth_mem [of i "ty_reads t"]] by (auto simp: case_prod_beta)

lemma reads_fit_receive:
  "reads_fit t \<Longrightarrow> sb_inv (ty_recv_buffer t) \<Longrightarrow> reads_fit (tty_do_receive t)"
  by (auto simp: reads_fit_def tty_do_receive_def get_curr_write_ptr_def get_buffer_size_def sb_inv_def)

lemma reads_fit_buffer:
  "reads_fit t \<Longrightarrow> sb_max_buff_size sb = sb_max_buff_size (ty_recv_buffer t) \<Longrightarrow> reads_fit (t \<lparr> ty_recv_buffer := sb \<rparr>)"
  by (simp add: reads_fit_def)

lemma tty_do_receive_fields [simp]:
  "ty_recv_buffer (tty_do_receive t) = ty_recv_buffer t" "ty_send_buffer (tty_do_receive t) = ty_send_buffer t"
  "ty_connect_id (tty_do_receive t) = ty_connect_id t" "ty_io_bridge_connect_id (tty_do_receive t) = ty_io_bridge_connect_id t"
  "ty_io_state (tty_do_receive t) = ty_io_state t" "ty_io_type (tty_do_receive t) = ty_io_type t"
  "ty_send_buffer_size (tty_do_receive t) = ty_send_buffer_size t" "ty_send_data_size (tty_do_receive t) = ty_send_data_size t"
  "ty_lambdas (tty_do_receive t) = ty_lambdas t" "ty_writes (tty_do_receive t) = ty_writes t"
  "ty_io_list_manager (tty_do_receive t) = ty_io_list_manager t" "ty_is_active_close (tty_do_receive t) = ty_is_active_close t"
  by (simp_all add: tty_do_receive_def)

lemma set_write_inv [simp]:
  "sb_inv sb \<Longrightarrow> sb_inv (snd (set_write_data n sb))"
  "sb_max_buff_size (snd (set_write_data n sb)) = sb_max_buff_size sb"
  "sb_buffer (snd (set_write_data n sb)) = sb_buffer sb"
  by (auto simp: set_write_data_def sb_inv_def)

lemma tty_inv_session:
  "tty_inv W \<Longrightarrow> ty_recv_buffer t = ty_recv_buffer (iw_session W) \<Longrightarrow> sb_inv (ty_send_buffer t) \<Longrightarrow>
   set (ty_reads t) \<subseteq> set (ty_reads (iw_session W)) \<Longrightarrow> tty_inv (W \<lparr> iw_session := t \<rparr>)"
  by (auto simp: tty_inv_def reads_fit_def)

lemma set_remove_nth_subset: "set (remove_nth i xs) \<subseteq> set xs"
  by (auto simp: remove_nth_def dest: in_set_takeD in_set_dropD)

lemma tty_inv_remove_read:
  "tty_inv W \<Longrightarrow> tty_inv (W \<lparr> iw_session := (iw_session W) \<lparr> ty_reads := remove_nth i (ty_reads (iw_session W)) \<rparr> \<rparr>)"
  using set_remove_nth_subset [of i "ty_reads (iw_session W)"] by (intro tty_inv_session) (simp_all add: tty_inv_def)

lemma tty_write_inv [simp]:
  "sb_inv (ty_send_buffer t) \<Longrightarrow> sb_inv (ty_send_buffer (tty_do_write t))"
  "ty_recv_buffer (tty_do_write t) = ty_recv_buffer t" "ty_reads (tty_do_write t) = ty_reads t"
  "sb_inv (ty_send_buffer t) \<Longrightarrow> sb_inv (ty_send_buffer (tty_close t))"
  "ty_recv_buffer (tty_close t) = ty_recv_buffer t" "ty_reads (tty_close t) = ty_reads t"
  by (simp_all add: tty_do_write_def tty_close_def tty_close_immediaterly_def tty_clear_write_buffer_def Let_def)

lemma tty_ok_set_write:
  assumes "sb_inv (ty_send_buffer t)"
  obtains sb where "tty_set_write_buffer data t = Some (t \<lparr> ty_send_buffer := sb \<rparr>)" "sb_inv sb"
proof (cases "get_buffer_size (ty_send_buffer t) \<le> length data")
  case True
  thus thesis using assms by (intro that [of "ty_send_buffer t"]) (simp_all add: tty_set_write_buffer_def)
next
  case False
  then obtain sb' where "write_memory (get_curr_write_ptr (ty_send_buffer t)) data (ty_send_buffer t) = Some sb'"
      "sb_inv (snd (set_write_data (length data) sb'))" using recv_commit [OF assms, of data] by auto
  thus thesis using False by (intro that [of "snd (set_write_data (length data) sb')"]) (simp_all add: tty_set_write_buffer_def)
qed

lemma tty_ok_write_finish: "tty_inv W \<Longrightarrow> tty_ok (tty_do_write_finish S self ec buf n W)"
  by (auto simp: tty_do_write_finish_def tty_send_write_fail_to_logic_def tty_close_immediaterly_def tty_add_send_finish_size_def
      Let_def tty_inv_def reads_fit_def intro!: tty_bind_safe safe_assignation)

lemma tty_inv_writes: "tty_inv W \<Longrightarrow> tty_inv (W \<lparr> iw_session := (iw_session W) \<lparr> ty_writes := ws \<rparr> \<rparr>)"
  "tty_inv W \<Longrightarrow> tty_inv (W \<lparr> iw_session := (iw_session W) \<lparr> ty_writes := ws, ty_send_data_size := x \<rparr> \<rparr>)"
  by (simp_all add: tty_inv_def reads_fit_def)

lemma tty_ok_write_done: "tty_inv W \<Longrightarrow> tty_ok (tty_write_done S self ec i n W)"
  by (auto simp: tty_write_done_def tty_add_send_finish_size_def Let_def intro!: tty_ok_write_finish tty_inv_writes)

lemma tty_ok_lambda: "tty_inv W \<Longrightarrow> tty_ok (tty_run_lambda S pk self l W)"
  by (cases l) (auto simp: tty_run_lambda_def Let_def tty_inv_def tty_clear_write_buffer_def reads_fit_def
      intro!: tty_bind_safe dispatcher_safe)

lemma tty_ok_take:
  assumes "parser_ok pk" "tty_inv W" "len \<le> sb_max_buff_size (ty_recv_buffer (iw_session W))"
  shows "tty_ok (tty_take_data S pk self now len W)"
proof -
  let ?t = "iw_session W"
  let ?r = "snd (set_write_data len (ty_recv_buffer ?t))"
  have i: "wt_safe (iw_logic W)" "sb_inv (ty_recv_buffer ?t)" "sb_inv (ty_send_buffer ?t)" "reads_fit ?t"
    using assms(2) by (simp_all add: tty_inv_def)
  have "len \<le> length (sb_buffer ?r)" using assms(3) i(2) by (simp add: sb_inv_def)
  then obtain b peer sb p w where rd: "received_data S pk self (ty_connect_id ?t) (ty_io_bridge_connect_id ?t) (ty_io_state ?t)
      (ty_io_type ?t) len ?r (iw_parser W) (iw_logic W) = Some (b, peer, sb, p, w)" "sb_inv sb" "wt_safe w"
      "sb_max_buff_size sb = sb_max_buff_size (ty_recv_buffer ?t)"
    using received_dataE [OF assms(1) i(1) set_write_inv(1) [OF i(2), of len]] by (metis set_write_inv(2))
  have inv: "tty_inv (W \<lparr> iw_session := tty_do_receive t', iw_parser := p, iw_logic := w \<rparr>)"
    if "reads_fit t'" "sb_inv (ty_recv_buffer t')" "ty_send_buffer t' = ty_send_buffer ?t" for t'
    using that rd(3) i(3) by (simp add: tty_inv_def reads_fit_receive)
  show ?thesis
  proof (cases b)
    case True
    thus ?thesis using rd i(4) inv by (simp add: tty_take_data_def Let_def reads_fit_def)
  next
    case False
    let ?u = "?t \<lparr> ty_io_bridge_connect_id := peer, ty_recv_buffer := move_buffer len sb \<rparr>"
    have "reads_fit (tty_do_receive ?u)" by (rule reads_fit_receive) (use i(4) rd(2,4) in \<open>simp_all add: reads_fit_def\<close>)
    thus ?thesis using False rd(1,2) inv [of "tty_do_receive ?u"] by (simp add: tty_take_data_def Let_def)
  qed
qed

lemma tty_ok_read_some:
  assumes "parser_ok pk" "tty_inv W" "off + length data \<le> sb_max_buff_size (ty_recv_buffer (iw_session W))"
  shows "tty_ok (tty_do_read_some S pk self now off data W)"
proof -
  let ?t = "iw_session W"
  have i: "wt_safe (iw_logic W)" "sb_inv (ty_recv_buffer ?t)" "sb_inv (ty_send_buffer ?t)" "reads_fit ?t"
    using assms(2) by (simp_all add: tty_inv_def)
  obtain sb where sb: "write_memory off data (ty_recv_buffer ?t) = Some sb" "sb_inv sb"
      "sb_max_buff_size sb = sb_max_buff_size (ty_recv_buffer ?t)"
    using assms(3) i(2) by (auto simp: write_memory_def sb_inv_def)
  let ?t1 = "?t \<lparr> ty_recv_buffer := sb \<rparr>"
  let ?t2 = "?t1 \<lparr> ty_recv_data_size := ty_recv_data_size ?t + of_nat (length data) \<rparr>"
  let ?t3 = "?t2 \<lparr> ty_recv_buffer := move_buffer (length data) sb \<rparr>"
  have f: "reads_fit (tty_do_receive ?t1)" "reads_fit ?t2" "reads_fit (tty_do_receive ?t3)"
    using i(4) sb(2,3) by (auto intro!: reads_fit_receive) (simp_all add: reads_fit_def)
  obtain w where w: "close_session_event (ty_connect_id ?t) (Some self) (iw_logic W) = Some w" "wt_safe w"
    by (rule ends_safeE [OF safe_close_session [OF i(1)]])
  have "tty_inv (W \<lparr> iw_session := tty_do_receive ?t1 \<rparr>)" "tty_inv (W \<lparr> iw_session := ?t2 \<rparr>)"
    "tty_inv (W \<lparr> iw_session := tty_do_receive ?t3, iw_logic := w \<rparr>)"
    using f i(1,3) sb(2) w(2) by (simp_all add: tty_inv_def)
  moreover have "length data \<le> sb_max_buff_size (ty_recv_buffer ?t)" using assms(3) by simp
  ultimately show ?thesis using sb(1,3) w(1)
    by (auto simp: tty_do_read_some_def Let_def intro!: tty_ok_take [OF assms(1)])
qed

lemma tty_ok_step:
  assumes "parser_ok pk" "tty_inv W" shows "tty_ok (tty_step S pk self e W)"
proof (cases e)
  case (EY_Read i now data)
  show ?thesis
  proof (cases "i < length (ty_reads (iw_session W)) \<and> length data \<le> snd (ty_reads (iw_session W) ! i)")
    case True
    hence "fst (ty_reads (iw_session W) ! i) + length data \<le> sb_max_buff_size (ty_recv_buffer (iw_session W))"
      using assms(2) by (auto simp: tty_inv_def dest!: reads_fit_nth)
    thus ?thesis using EY_Read True tty_inv_remove_read [OF assms(2)] by (auto simp: Let_def intro!: tty_ok_read_some [OF assms(1)])
  qed (use EY_Read assms(2) in \<open>auto simp: Let_def\<close>)
next
  case (EY_Read_Error i)
  thus ?thesis using tty_inv_remove_read [OF assms(2), of i] assms(2)
    by (auto simp: Let_def tty_read_error_def) (simp add: tty_inv_def add_frame_events_def wt_safe_post reads_fit_def)
next
  case (EY_Set_Write_Buffer data)
  have "sb_inv (ty_send_buffer (iw_session W))" using assms(2) by (simp add: tty_inv_def)
  then obtain sb where "tty_set_write_buffer data (iw_session W) = Some ((iw_session W) \<lparr> ty_send_buffer := sb \<rparr>)" "sb_inv sb"
    by (rule tty_ok_set_write)
  thus ?thesis using EY_Set_Write_Buffer assms(2) by (auto intro!: tty_inv_session)
next
  case (EY_Run i)
  thus ?thesis using assms(2) by (auto simp: Let_def intro!: tty_ok_lambda tty_inv_session) (simp add: tty_inv_def)
next
  case (EY_Set_Bridge a b)
  thus ?thesis using assms(2) by (cases "b > 0")
    (auto simp: tty_set_io_bridge_connect_id_def intro!: tty_inv_session, simp_all add: tty_inv_def)
qed (use assms(2) in \<open>auto intro!: tty_ok_write_done tty_inv_session simp: tty_do_write_immediately_def\<close>,
  (simp_all add: tty_inv_def))

lemma tty_ok_run: "parser_ok pk \<Longrightarrow> tty_inv W \<Longrightarrow> tty_ok (tty_run S pk self es W)"
  unfolding tty_run_def
proof (induction es arbitrary: W)
  case (Cons e es)
  obtain W' where "tty_step S pk self e W = Some W'" "tty_inv W'" by (rule tty_okE [OF tty_ok_step [OF Cons.prems]])
  with Cons show ?case by simp
qed simp


lemma tty_ctor_inv:
  "wt_safe w \<Longrightarrow> length recv_mem < 2 ^ 64 \<Longrightarrow> length send_mem < 2 ^ 64 \<Longrightarrow>
   tty_inv \<lparr> iw_session = snd (CTTyServer_ctor recv_mem send_mem n now m), iw_parser = p, iw_logic = w \<rparr>"
  by (simp add: CTTyServer_ctor_def CreateCounter_def tty_inv_def reads_fit_def Let_def)

lemma tty_ok_start: "tty_inv W \<Longrightarrow> tty_ok (tty_start S (Some pk) self index opened baud now name port sid W)"
  by (auto simp: tty_start_def add_serial_port_def Let_def split: option.split intro!: tty_bind_safe dispatcher_safe)
    (auto simp: tty_inv_def add_frame_events_def wt_safe_post reads_fit_def tty_do_receive_def get_curr_write_ptr_def get_buffer_size_def sb_inv_def)


subsection \<open>Counters that never meet\<close>

lemma tty_read_send_side:
  assumes "tty_do_read_some S pk self now off data W = Some W'" "tty_stuck m (iw_session W)"
  shows "tty_stuck m (iw_session W')"
proof -
  have take: "tty_stuck m (iw_session V')" if "tty_take_data S pk self now n V = Some V'" "tty_stuck m (iw_session V)" for n V V'
    using that by (auto simp: tty_take_data_def tty_stuck_def Let_def split: bind_splits if_splits)
  show ?thesis using assms
    by (auto simp: tty_do_read_some_def Let_def split: bind_splits if_splits elim!: take) (auto simp: tty_stuck_def)
qed

lemma tty_stuck_write: "tty_stuck m t \<Longrightarrow> tty_stuck m (tty_do_write t)" "tty_stuck m t \<Longrightarrow> tty_stuck m (tty_close t)"
  by (auto simp: tty_stuck_def tty_do_write_def tty_close_def tty_clear_write_buffer_def Let_def mem_slice_def move_buffer_def
      get_write_size_def)

lemma tty_stuck_written:
  assumes "tty_write_done S self False i n W = Some W'" "tty_stuck m (iw_session W)"
  shows "tty_stuck m (iw_session W')"
proof (cases "i < length (ty_writes (iw_session W)) \<and> n \<le> length (snd (ty_writes (iw_session W) ! i))")
  case True
  hence "ty_writes (iw_session W) ! i \<in> set (ty_writes (iw_session W))" by simp
  with assms(2) have "snd (ty_writes (iw_session W) ! i) = []" by (fastforce simp: tty_stuck_def)
  with True have "n = 0" by simp
  with True assms show ?thesis using set_remove_nth_subset [of i "ty_writes (iw_session W)"]
    by (auto simp: tty_write_done_def tty_do_write_finish_def tty_add_send_finish_size_def tty_stuck_def Let_def split: if_splits)
qed (use assms in \<open>auto simp: tty_write_done_def Let_def\<close>)

lemma tty_stuck_reads [simp]: "tty_stuck m (t \<lparr> ty_reads := rs \<rparr>) = tty_stuck m t"
  by (simp add: tty_stuck_def)

lemma tty_stuck_step:
  assumes "tty_step S pk self e W = Some W'" "tty_stuck m (iw_session W)" "quiet e"
  shows "tty_stuck m (iw_session W')"
proof (cases e)
  case (EY_Read i now data)
  show ?thesis
  proof (cases "i < length (ty_reads (iw_session W)) \<and> length data \<le> snd (ty_reads (iw_session W) ! i)")
    case True
    with assms(1) EY_Read have "tty_do_read_some S pk self now (fst (ty_reads (iw_session W) ! i)) data
        (W \<lparr> iw_session := (iw_session W) \<lparr> ty_reads := remove_nth i (ty_reads (iw_session W)) \<rparr> \<rparr>) = Some W'"
      by (simp add: Let_def)
    thus ?thesis by (rule tty_read_send_side) (use assms(2) in simp)
  next
    case False
    with assms(1) EY_Read have "W' = W" unfolding tty_step.simps Let_def by (simp split: if_splits)
    thus ?thesis using assms(2) by simp
  qed
next
  case (EY_Read_Error i)
  with assms(1) have "iw_session W' = iw_session W \<or>
      iw_session W' = (iw_session W) \<lparr> ty_reads := remove_nth i (ty_reads (iw_session W)) \<rparr>"
    by (cases "i < length (ty_reads (iw_session W))") (auto simp: Let_def tty_read_error_def)
  thus ?thesis using assms(2) by auto
next
  case (EY_Written i n)
  with assms(1) have "tty_write_done S self False i n W = Some W'" by simp
  thus ?thesis using assms(2) by (rule tty_stuck_written)
next
  case (EY_Run i)
  have "ty_lambdas (iw_session W) = []" using assms(2) by (simp add: tty_stuck_def)
  with assms(1) EY_Run have "W' = W" by (simp add: Let_def)
  thus ?thesis using assms(2) by simp
next
  case (EY_Set_Bridge a b)
  with assms(1) have "W' = W \<lparr> iw_session := tty_set_io_bridge_connect_id a b (iw_session W) \<rparr>" by simp
  thus ?thesis using assms(2) by (simp add: tty_set_io_bridge_connect_id_def tty_stuck_def)
qed (use assms tty_stuck_write in \<open>auto\<close>)

lemma tty_stuck_run:
  "run_steps (tty_step S pk self) es W = Some W' \<Longrightarrow> tty_stuck m (iw_session W) \<Longrightarrow> \<forall>e \<in> set es. quiet e \<Longrightarrow> tty_stuck m (iw_session W')"
  by (induction es arbitrary: W) (auto split: option.splits dest: tty_stuck_step)


lemma tty_example_inv: "used \<le> 4 \<Longrightarrow> tty_inv (tty_example used)"
  by (simp add: tty_example_def tty_inv_def reads_fit_def echo_server_safe CTTyServer_ctor_def CreateCounter_def Let_def Init_def sb_inv_def)


subsection \<open>Main properties\<close>



text \<open>
  A serial port that was written to with \<open>do_write_immediately\<close> cannot be closed any more:
  these bytes are counted as sent but not as given to send, so \<open>close\<close> finds the counters
  different and waits for a write that makes them equal.  Whatever happens afterwards
  without further data, nothing is left that would close it, and it stays registered.
\<close>

theorem tty_immediate_write_never_closes:
  assumes "parser_ok pk" "tty_inv W" "ty_send_buffer_size (iw_session W) = ty_send_data_size (iw_session W)"
    "ty_lambdas (iw_session W) = []" "ty_writes (iw_session W) = []" "data \<noteq> []" "length data < 2 ^ 64"
    "\<forall>e \<in> set es. quiet e"
  shows "\<exists>W'. tty_run S pk self ([EY_Write_Immediately data, EY_Run 0, EY_Written 0 (length data), EY_Close] @ es) W = Some W' \<and>
    ty_lambdas (iw_session W') = [] \<and> ty_io_list_manager (iw_session W') = ty_io_list_manager (iw_session W)"
proof -
  let ?m = "ty_io_list_manager (iw_session W)"
  let ?t = "tty_clear_write_buffer ((iw_session W) \<lparr> ty_lambdas := [], ty_writes := [] \<rparr>)
    \<lparr> ty_send_data_size := ty_send_data_size (iw_session W) + of_nat (length data) \<rparr>"
  have "unat (of_nat (length data) :: u64) = length data" using assms(7) by (simp add: unsigned_of_nat take_bit_eq_mod)
  hence n: "(of_nat (length data) :: u64) \<noteq> 0" using assms(6) by auto
  have pre: "tty_run S pk self [EY_Write_Immediately data, EY_Run 0, EY_Written 0 (length data)] W = Some (W \<lparr> iw_session := ?t \<rparr>)"
    using assms(4,5) by (simp add: tty_run_def tty_do_write_immediately_def tty_run_lambda_def tty_write_done_def
        tty_clear_write_buffer_def tty_add_send_finish_size_def remove_nth_def Let_def)
  have "tty_stuck ?m ?t" using assms(3) n
    by (simp add: tty_stuck_def tty_clear_write_buffer_def move_buffer_def get_write_size_def)
  hence st: "tty_stuck ?m (tty_close ?t)" by (rule tty_stuck_write)
  let ?W = "W \<lparr> iw_session := tty_close ?t \<rparr>"
  have run: "tty_run S pk self ([EY_Write_Immediately data, EY_Run 0, EY_Written 0 (length data), EY_Close] @ es) W =
      run_steps (tty_step S pk self) es ?W"
    using pre by (auto simp: tty_run_def split: option.splits)
  have "tty_ok (tty_run S pk self ([EY_Write_Immediately data, EY_Run 0, EY_Written 0 (length data), EY_Close] @ es) W)"
    by (rule tty_ok_run [OF assms(1,2)])
  then obtain W' where W': "run_steps (tty_step S pk self) es ?W = Some W'" unfolding run by (rule tty_okE)
  have "tty_stuck ?m (iw_session W')" by (rule tty_stuck_run [OF W']) (use st assms(8) in simp_all)
  with run W' show ?thesis by (simp add: tty_stuck_def)
qed

theorem tty_immediate_write_never_closes_witness:
  "\<exists>W'. tty_run echo_ops one_message_parser 7 ([EY_Write_Immediately [1], EY_Run 0, EY_Written 0 (length [1::u8]), EY_Close] @
        [EY_Written 0 0, EY_Close, EY_Read 0 1 [5]]) (tty_example 0) = Some W' \<and>
    ty_lambdas (iw_session W') = [] \<and> ty_io_list_manager (iw_session W') = ty_io_list_manager (iw_session (tty_example 0))"
  by (rule tty_immediate_write_never_closes [OF one_message_parser_ok tty_example_inv])
    (simp_all add: tty_example_def CTTyServer_ctor_def CreateCounter_def Let_def)

text \<open>
  A full receive buffer is never noticed: the read that was started with no room can only
  complete with no data, and then the session is in the same state again, with the same
  read outstanding.  It goes round for ever and the session is not closed.
\<close>

theorem tty_full_buffer_spins:
  assumes "tty_inv W" "get_buffer_size (ty_recv_buffer (iw_session W)) = 0"
    "ty_reads (iw_session W) = [(get_curr_write_ptr (ty_recv_buffer (iw_session W)), 0)]"
  shows "tty_step S pk self (EY_Read i now data) W = Some W"
proof (cases "i = 0 \<and> data = []")
  case True
  have "write_memory (sb_write_size (ty_recv_buffer (iw_session W))) [] (ty_recv_buffer (iw_session W)) = Some (ty_recv_buffer (iw_session W))"
    using assms(1) by (simp add: write_memory_def tty_inv_def sb_inv_def blit_def)
  with True assms(2,3) show ?thesis
    by (simp add: tty_do_read_some_def tty_do_receive_def get_curr_write_ptr_def remove_nth_def Let_def)
qed (use assms(3) in \<open>auto simp: Let_def\<close>)

theorem tty_full_buffer_spins_witness:
  "tty_step echo_ops one_message_parser 7 (EY_Read 0 1 []) (tty_example 4) = Some (tty_example 4)"
  by (rule tty_full_buffer_spins [OF tty_example_inv])
    (simp_all add: tty_example_def CTTyServer_ctor_def CreateCounter_def Let_def Init_def get_buffer_size_def get_curr_write_ptr_def)

text \<open>
  A refused packet leaves two reads in progress on the same memory: the session is
  asked to close, and after a read was started for that another one is started.
\<close>

lemma tty_refused_packet_doubles_reads:
  assumes "parser_ok pk" "tty_inv W" "ty_reads (iw_session W) = [(off, n)]" "data \<noteq> []" "length data \<le> n"
    "ty_io_state (iw_session W) \<noteq> SESSION_IO_BRIDGE" "0 < get_buffer_size (ty_recv_buffer (iw_session W))"
    "\<And>sb. \<exists>sb' ms p. pk_from_recv_buffer pk (ty_connect_id (iw_session W)) sb (ty_io_type (iw_session W)) (iw_parser W) = Some (False, sb', ms, p)"
  shows "\<exists>W' r. tty_step S pk self (EY_Read 0 now data) W = Some W' \<and> ty_reads (iw_session W') = [r, r]"
proof -
  have i: "wt_safe (iw_logic W)" "sb_inv (ty_recv_buffer (iw_session W))" "off + n = sb_max_buff_size (ty_recv_buffer (iw_session W))"
    using assms(2,3) by (simp_all add: tty_inv_def reads_fit_def)
  obtain w where w: "close_session_event (ty_connect_id (iw_session W)) (Some self) (iw_logic W) = Some w"
    by (rule ends_safeE [OF safe_close_session [OF i(1)]])
  let ?sb = "(ty_recv_buffer (iw_session W)) \<lparr> sb_buffer := blit off data (sb_buffer (ty_recv_buffer (iw_session W))) \<rparr>"
  have sb: "write_memory off data (ty_recv_buffer (iw_session W)) = Some ?sb"
    using i(2,3) assms(5) by (simp add: write_memory_def sb_inv_def)
  obtain sb' ms p where pk: "pk_from_recv_buffer pk (ty_connect_id (iw_session W)) (snd (set_write_data (length data) ?sb))
      (ty_io_type (iw_session W)) (iw_parser W) = Some (False, sb', ms, p)" using assms(8) by blast
  have "get_buffer_size ?sb \<noteq> 0" using assms(7) by (simp add: get_buffer_size_def)
  thus ?thesis using assms(3-6) sb pk w
    by (simp add: tty_do_read_some_def tty_take_data_def received_data_def tty_do_receive_def remove_nth_def Let_def)
qed

end
