(* ===== verification/Plugin_Service.thy ===== *)
theory Plugin_Service
  imports Work_Thread_Safety Net_Services Load_Module
begin

text \<open>
  What a plugin can ask of the framework: \<open>CSessionService\<close>, the object plugins get a
  pointer to, and \<open>CQueueSessionManager\<close>, the message queues between processes.  The
  service has one table of its own, the functions plugins offer to each other, and
  passes every other call on; \<open>pss_server\<close> holds the objects it passes them to.

  The shared-memory queue is a library and the record \<open>shm_api\<close>; a function a plugin
  gives to a queue or to another plugin is a number or a HOL function.
\<close>


section \<open>The services for plugins (QueueSession/QueueService, Message/SessionService)\<close>


subsection \<open>Definitions: queues\<close>

record 'q shm_api =
  shm_create_instance :: "int \<Rightarrow> nat \<Rightarrow> int \<Rightarrow> 'q option"
  shm_close :: "'q \<Rightarrow> 'q"
  shm_set_proc_message :: "bytes \<Rightarrow> 'q \<Rightarrow> 'q"
  shm_set_close_function :: "nat \<Rightarrow> 'q \<Rightarrow> 'q"
  shm_set_error_function :: "nat \<Rightarrow> 'q \<Rightarrow> 'q"
  shm_recv_message :: "nat \<Rightarrow> 'q \<Rightarrow> 'q"

record 'q CQueueSessionManager =
  queue_list :: "int \<rightharpoonup> 'q"

definition create_queue :: "'q shm_api \<Rightarrow> int \<Rightarrow> nat \<Rightarrow> int \<Rightarrow> 'q CQueueSessionManager \<Rightarrow> bool \<times> 'q CQueueSessionManager" where
  "create_queue Q key message_size message_count m =
    (case queue_list m key of
       Some q \<Rightarrow> (True, m)
     | None \<Rightarrow>
         (case shm_create_instance Q key message_size message_count of
            None \<Rightarrow> (False, m)
          | Some q \<Rightarrow> (True, m \<lparr> queue_list := (queue_list m)(key \<mapsto> q) \<rparr>)))"

definition close_queues :: "'q shm_api \<Rightarrow> 'q CQueueSessionManager \<Rightarrow> 'q CQueueSessionManager" where
  "close_queues Q m = m \<lparr> queue_list := (\<lambda>key. map_option (shm_close Q) (queue_list m key)) \<rparr>"

text \<open>\<open>close(key)\<close> closes the queue and drops it: the object is then destroyed, and returned here.\<close>

definition close_queue :: "'q shm_api \<Rightarrow> int \<Rightarrow> 'q CQueueSessionManager \<Rightarrow> bool \<times> 'q option \<times> 'q CQueueSessionManager" where
  "close_queue Q key m =
    (case queue_list m key of
       Some q \<Rightarrow> (True, Some (shm_close Q q), m \<lparr> queue_list := (queue_list m)(key := None) \<rparr>)
     | None \<Rightarrow> (False, None, m))"

text \<open>The four operations that find a queue and do one thing with it.\<close>

definition with_queue :: "('q \<Rightarrow> 'q) \<Rightarrow> int \<Rightarrow> 'q CQueueSessionManager \<Rightarrow> bool \<times> 'q CQueueSessionManager" where
  "with_queue f key m =
    (case queue_list m key of
       Some q \<Rightarrow> (True, m \<lparr> queue_list := (queue_list m)(key \<mapsto> f q) \<rparr>)
     | None \<Rightarrow> (False, m))"

definition send_queue_message :: "'q shm_api \<Rightarrow> int \<Rightarrow> bytes \<Rightarrow> 'q CQueueSessionManager \<Rightarrow> bool \<times> 'q CQueueSessionManager" where
  "send_queue_message Q key message_text = with_queue (shm_set_proc_message Q message_text) key"

definition set_close_function :: "'q shm_api \<Rightarrow> int \<Rightarrow> nat \<Rightarrow> 'q CQueueSessionManager \<Rightarrow> bool \<times> 'q CQueueSessionManager" where
  "set_close_function Q key close_func = with_queue (shm_set_close_function Q close_func) key"

definition set_error_function :: "'q shm_api \<Rightarrow> int \<Rightarrow> nat \<Rightarrow> 'q CQueueSessionManager \<Rightarrow> bool \<times> 'q CQueueSessionManager" where
  "set_error_function Q key error_func = with_queue (shm_set_error_function Q error_func) key"

definition set_recv_function :: "'q shm_api \<Rightarrow> int \<Rightarrow> nat \<Rightarrow> 'q CQueueSessionManager \<Rightarrow> bool \<times> 'q CQueueSessionManager" where
  "set_recv_function Q key fn_logic = with_queue (shm_recv_message Q fn_logic) key"


subsection \<open>Definitions: functions plugins offer to each other\<close>

record CSessionService =
  func_list :: "string \<rightharpoonup> (string \<Rightarrow> string)"

definition add_plugin_api :: "string \<Rightarrow> (string \<Rightarrow> string) \<Rightarrow> CSessionService \<Rightarrow> bool \<times> CSessionService" where
  "add_plugin_api api_name func s =
    (case func_list s api_name of
       Some f \<Rightarrow> (False, s)
     | None \<Rightarrow> (True, s \<lparr> func_list := (func_list s)(api_name \<mapsto> func) \<rparr>))"

definition do_plugin_api :: "string \<Rightarrow> string \<Rightarrow> CSessionService \<Rightarrow> string" where
  "do_plugin_api api_name api_func_param s =
    (case func_list s api_name of Some f \<Rightarrow> f api_func_param | None \<Rightarrow> [])"

definition session_service_close :: "CSessionService \<Rightarrow> CSessionService" where
  "session_service_close s = s \<lparr> func_list := Map.empty \<rparr>"


subsection \<open>Definitions: the calls that are passed on\<close>

text \<open>
  The objects of a server.  \<open>pss_check_period\<close> is the period of the timer that checks the
  links to other servers, which runs beside the timers of the work threads.
\<close>

record ('s, 'q, 'h, 'fn) pss_server =
  pss_net :: "'s net_world"
  pss_queues :: "'q CQueueSessionManager"
  pss_service :: CSessionService
  pss_parsers :: "('h, 'fn) CLoadPacketParse"
  pss_check_period :: "u16 option"

abbreviation pss_logic :: "('s, 'q, 'h, 'fn) pss_server \<Rightarrow> 's CWorkThreadLogic" where
  "pss_logic srv \<equiv> nw_logic (pss_net srv)"

definition set_logic :: "'s CWorkThreadLogic \<Rightarrow> ('s, 'q, 'h, 'fn) pss_server \<Rightarrow> ('s, 'q, 'h, 'fn) pss_server" where
  "set_logic w srv = srv \<lparr> pss_net := (pss_net srv) \<lparr> nw_logic := w \<rparr> \<rparr>"

record server_config =
  cf_work_thread_count :: nat
  cf_work_timeout_seconds :: u16
  cf_s2s_timeout_seconds :: u16
  cf_client_connect_timeout :: u32
  cf_packet_list :: "(u32 \<times> string \<times> string) list"
  cf_tcp_list :: "CConfigNetIO list"
  cf_udp_list :: "CConfigNetIO list"
  cf_kcp_list :: "CConfigNetIO list"
  cf_tty_list :: "CTTyIO list"

definition CConfigNetIO_default :: CConfigNetIO where
  "CConfigNetIO_default = \<lparr> io_ip = [], io_port = 0, io_protocol_type = CONNECT_IO_TCP, io_packet_parse_id = 0,
     io_recv_buff_size = 1024, io_send_buff_size = 1024, io_ssl_server_password = [], io_ssl_server_pem_file = [],
     io_ssl_dh_pem_file = [], io_em_net_type = NET_TYPE_POINT_TO_POINT \<rparr>"

definition get_server_listen_info :: "server_config \<Rightarrow> EM_CONNECT_IO_TYPE \<Rightarrow> CConfigNetIO list" where
  "get_server_listen_info cf io_type =
    (if io_type = CONNECT_IO_TCP then cf_tcp_list cf
     else if io_type = CONNECT_IO_UDP then cf_udp_list cf
     else if io_type = CONNECT_IO_KCP then cf_kcp_list cf
     else if io_type = CONNECT_IO_TTY then
       map (\<lambda>t. CConfigNetIO_default \<lparr> io_packet_parse_id := tty_packet_parse_id t, io_port := ucast (tty_port t),
         io_ip := tty_name t \<rparr>) (cf_tty_list cf)
     else [])"

definition svc_connect_io_server ::
  "'s session_starter \<Rightarrow> bool \<Rightarrow> CConnect_IO_Info \<Rightarrow> EM_CONNECT_IO_TYPE \<Rightarrow> 's CWorkThreadLogic \<Rightarrow> bool \<times> 's CWorkThreadLogic" where
  "svc_connect_io_server st ssl io_info io_type w =
    (if ci_server_id io_info = 0 then (False, w) else connect_io_server st ssl io_info io_type w)"

definition get_io_server_id :: "u32 \<Rightarrow> 's CWorkThreadLogic \<Rightarrow> u32" where
  "get_io_server_id connect_id w = get_server_id connect_id (wt_comm w)"

definition close_io_session :: "u32 \<Rightarrow> 's CWorkThreadLogic \<Rightarrow> 's CWorkThreadLogic option" where
  "close_io_session connect_id w = do {
     let server_id = get_io_server_id connect_id w;
     let w = (if server_id > 0 then close_io_server server_id w else w);
     session \<leftarrow> wt_get_session_interface connect_id w;
     case session of
       None \<Rightarrow> Some w
     | Some s \<Rightarrow> close_session_event connect_id (Some s) w }"

definition svc_get_connect_id :: "u32 \<Rightarrow> 's CWorkThreadLogic \<Rightarrow> u32" where
  "svc_get_connect_id server_id w = (if server_id = 0 then 0 else wt_get_connect_id server_id w)"

text \<open>
  A call of a plugin.  The results that are only returned to the plugin are left out;
  \<open>now\<close> is the time and \<open>tid\<close> the id the system gives a new thread.
\<close>

datatype plugin_call =
    P_Send_Io_Message u32 CMessage_Packet
  | P_Connect_Io_Server CConnect_IO_Info EM_CONNECT_IO_TYPE
  | P_Close_Io_Session u32
  | P_Send_Frame_Message u16 string CMessage_Packet CFrame_Message_Delay
  | P_Run_Work_Thread_Logic u16 CFrame_Message_Delay nat
  | P_Create_Frame_Work_Thread string u32
  | P_Close_Frame_Work_Thread u32
  | P_Delete_Frame_Message_Timer u64
  | P_Add_Plugin_Api string "string \<Rightarrow> string"
  | P_Add_Io_Mapping ClientIPInfo EM_CONNECT_IO_TYPE ClientIPInfo EM_CONNECT_IO_TYPE ENUM_IO_BRIDGE_TYPE
  | P_Delete_Io_Mapping ClientIPInfo EM_CONNECT_IO_TYPE
  | P_Create_Queue int nat int
  | P_Close_Queue int
  | P_Send_Queue_Message int bytes
  | P_Set_Queue_Close int nat
  | P_Set_Queue_Error int nat
  | P_Set_Queue_Recv int nat
  | P_Start_Single_Service CConfigNetIO
  | P_Close_Single_Service CConfigNetIO

definition on_logic :: "('s CWorkThreadLogic \<Rightarrow> 's CWorkThreadLogic option) \<Rightarrow> ('s, 'q, 'h, 'fn) pss_server \<Rightarrow> ('s, 'q, 'h, 'fn) pss_server option" where
  "on_logic f srv = (case f (pss_logic srv) of None \<Rightarrow> None | Some w \<Rightarrow> Some (set_logic w srv))"

fun plugin_apply ::
  "'q shm_api \<Rightarrow> 's session_starter \<Rightarrow> bool \<Rightarrow> int \<Rightarrow> plugin_call \<Rightarrow> ('s, 'q, 'h, 'fn) pss_server \<Rightarrow> ('s, 'q, 'h, 'fn) pss_server option" where
  "plugin_apply Q st ssl now (P_Send_Io_Message c p) srv = on_logic (send_io_message c p) srv"
| "plugin_apply Q st ssl now (P_Connect_Io_Server info ty) srv =
     on_logic (\<lambda>w. Some (snd (svc_connect_io_server st ssl info ty w))) srv"
| "plugin_apply Q st ssl now (P_Close_Io_Session c) srv = on_logic (close_io_session c) srv"
| "plugin_apply Q st ssl now (P_Send_Frame_Message t tag p d) srv =
     on_logic (\<lambda>w. map_option snd (send_frame_message t tag p d w)) srv"
| "plugin_apply Q st ssl now (P_Run_Work_Thread_Logic t d f) srv =
     on_logic (\<lambda>w. Some (snd (run_work_thread_logic t d f w))) srv"
| "plugin_apply Q st ssl now (P_Create_Frame_Work_Thread tid j) srv =
     on_logic (\<lambda>w. Some (snd (create_frame_work_thread now tid j w))) srv"
| "plugin_apply Q st ssl now (P_Close_Frame_Work_Thread j) srv =
     on_logic (\<lambda>w. Some (snd (close_frame_work_thread j w))) srv"
| "plugin_apply Q st ssl now (P_Delete_Frame_Message_Timer j) srv =
     on_logic (\<lambda>w. Some (snd (delete_frame_message_timer j w))) srv"
| "plugin_apply Q st ssl now (P_Add_Plugin_Api n f) srv =
     Some (srv \<lparr> pss_service := snd (add_plugin_api n f (pss_service srv)) \<rparr>)"
| "plugin_apply Q st ssl now (P_Add_Io_Mapping f fty t tty bt) srv =
     on_logic (\<lambda>w. Some (w \<lparr> wt_bridge := snd (bridge_add_mapping f fty t tty bt (wt_bridge w)) \<rparr>)) srv"
| "plugin_apply Q st ssl now (P_Delete_Io_Mapping f fty) srv =
     on_logic (\<lambda>w. Some (w \<lparr> wt_bridge := snd (bridge_delete_mapping f fty (wt_bridge w)) \<rparr>)) srv"
| "plugin_apply Q st ssl now (P_Create_Queue k n c) srv =
     Some (srv \<lparr> pss_queues := snd (create_queue Q k n c (pss_queues srv)) \<rparr>)"
| "plugin_apply Q st ssl now (P_Close_Queue k) srv =
     Some (srv \<lparr> pss_queues := snd (snd (close_queue Q k (pss_queues srv))) \<rparr>)"
| "plugin_apply Q st ssl now (P_Send_Queue_Message k bs) srv =
     Some (srv \<lparr> pss_queues := snd (send_queue_message Q k bs (pss_queues srv)) \<rparr>)"
| "plugin_apply Q st ssl now (P_Set_Queue_Close k f) srv =
     Some (srv \<lparr> pss_queues := snd (set_close_function Q k f (pss_queues srv)) \<rparr>)"
| "plugin_apply Q st ssl now (P_Set_Queue_Error k f) srv =
     Some (srv \<lparr> pss_queues := snd (set_error_function Q k f (pss_queues srv)) \<rparr>)"
| "plugin_apply Q st ssl now (P_Set_Queue_Recv k f) srv =
     Some (srv \<lparr> pss_queues := snd (set_recv_function Q k f (pss_queues srv)) \<rparr>)"
| "plugin_apply Q st ssl now (P_Start_Single_Service c) srv =
     Some (srv \<lparr> pss_net := start_single_service c (pss_net srv) \<rparr>)"
| "plugin_apply Q st ssl now (P_Close_Single_Service c) srv =
     Some (srv \<lparr> pss_net := close_single_service c (pss_net srv) \<rparr>)"

fun plugin_run ::
  "'q shm_api \<Rightarrow> 's session_starter \<Rightarrow> bool \<Rightarrow> (int \<times> plugin_call) list \<Rightarrow> ('s, 'q, 'h, 'fn) pss_server \<Rightarrow> ('s, 'q, 'h, 'fn) pss_server option" where
  "plugin_run Q st ssl [] srv = Some srv"
| "plugin_run Q st ssl ((now, p) # ps) srv =
     (case plugin_apply Q st ssl now p srv of None \<Rightarrow> None | Some srv \<Rightarrow> plugin_run Q st ssl ps srv)"

text \<open>A running server, and a result that is one.\<close>

definition server_ok :: "('s, 'q, 'h, 'fn) pss_server \<Rightarrow> bool" where
  "server_ok srv \<longleftrightarrow> wt_safe (pss_logic srv) \<and> net_inv (pss_net srv)"

definition ends_ok :: "('s, 'q, 'h, 'fn) pss_server option \<Rightarrow> bool" where
  "ends_ok r = (case r of Some srv \<Rightarrow> server_ok srv | None \<Rightarrow> False)"

text \<open>Queues as lists of messages, for the examples.\<close>

definition list_queues :: "bytes list shm_api" where
  "list_queues = \<lparr> shm_create_instance = (\<lambda>_ _ _. Some []), shm_close = (\<lambda>_. []), shm_set_proc_message = (\<lambda>m q. q @ [m]),
     shm_set_close_function = (\<lambda>_ q. q), shm_set_error_function = (\<lambda>_ q. q), shm_recv_message = (\<lambda>_ q. q) \<rparr>"

definition example_server :: "(nat, bytes list, nat, nat) pss_server" where
  "example_server = \<lparr> pss_net = net_start_world 2 echo_server, pss_queues = \<lparr> queue_list = Map.empty \<rparr>,
     pss_service = \<lparr> func_list = Map.empty \<rparr>, pss_parsers = \<lparr> m_objPacketParseList = Map.empty, lp_dlclosed = [] \<rparr>,
     pss_check_period = None \<rparr>"

text \<open>A server with session 7 on connection 3, which is the link to server 5.\<close>

definition link_example :: "nat CWorkThreadLogic" where
  "link_example = (case add_thread_session echo_ops 3 7 ClientIPInfo_default ClientIPInfo_default echo_server of
     Some w \<Rightarrow> w \<lparr> wt_comm := CCommunicationService_init \<lparr> server_connect_id_list := [3 \<mapsto> 5] \<rparr> \<rparr>
   | None \<Rightarrow> echo_server)"


subsection \<open>Calls of plugins keep the server running\<close>

lemma ends_ok_Some [simp]: "ends_ok (Some srv) = server_ok srv"
  by (simp add: ends_ok_def)

lemma net_inv_logic [simp]: "net_inv (W \<lparr> nw_logic := w \<rparr>) = net_inv W"
  using the_tcp_server_cong [of "W \<lparr> nw_logic := w \<rparr>" W] by (simp add: net_inv_def tables_ok_def)

lemma net_inv_tasks [simp]: "net_inv (W \<lparr> nw_tasks := ts \<rparr>) = net_inv W"
  using the_tcp_server_cong [of "W \<lparr> nw_tasks := ts \<rparr>" W] by (simp add: net_inv_def tables_ok_def)

lemma on_logic_ok:
  "server_ok srv \<Longrightarrow> (wt_safe (pss_logic srv) \<Longrightarrow> ends_safe (f (pss_logic srv))) \<Longrightarrow> ends_ok (on_logic f srv)"
  by (auto simp: server_ok_def on_logic_def ends_safe_def set_logic_def split: option.splits)

lemma safe_connect_server: "wt_safe w \<Longrightarrow> wt_safe (snd (svc_connect_io_server st ssl info ty w))"
  by (simp add: svc_connect_io_server_def connect_io_server_def split: prod.split)

lemma session_lookup: "wt_safe w \<Longrightarrow> \<exists>s. wt_get_session_interface c w = Some s"
  by (rule wt_safe_index [of w c]) (auto simp: wt_get_session_interface_def thread_logic_def)

lemma safe_close_io_session:
  assumes "wt_safe w" shows "ends_safe (close_io_session c w)"
proof -
  let ?w = "if get_io_server_id c w > 0 then close_io_server (get_io_server_id c w) w else w"
  have w: "wt_safe ?w" using assms by (simp add: close_io_server_def)
  obtain s where "wt_get_session_interface c ?w = Some s" using session_lookup [OF w] by blast
  hence "close_io_session c w = (case s of None \<Rightarrow> Some ?w | Some s \<Rightarrow> close_session_event c (Some s) ?w)"
    by (simp only: close_io_session_def Let_def bind.bind_lunit)
  thus ?thesis using safe_close_session [OF w] w by (cases s) (simp_all only: option.case ends_safe_Some)
qed

lemma single_service_ok:
  "server_ok srv \<Longrightarrow> server_ok (srv \<lparr> pss_net := start_single_service c (pss_net srv) \<rparr>)"
  "server_ok srv \<Longrightarrow> server_ok (srv \<lparr> pss_net := close_single_service c (pss_net srv) \<rparr>)"
  by (auto simp: server_ok_def start_single_service_def close_single_service_def Let_def)

lemma plugin_apply_ok: "server_ok srv \<Longrightarrow> ends_ok (plugin_apply Q st ssl now p srv)"
  by (cases p) (simp_all add: on_logic_ok safe_send safe_connect_server safe_close_io_session safe_frame_message safe_run_logic
      safe_create safe_close_plugin safe_delete_timer single_service_ok, simp_all add: server_ok_def)

lemma plugin_run_ok: "server_ok srv \<Longrightarrow> ends_ok (plugin_run Q st ssl ps srv)"
proof (induction ps arbitrary: srv)
  case (Cons x ps)
  obtain now p where x: "x = (now, p)" by (cases x)
  from plugin_apply_ok [OF Cons.prems, of Q st ssl now p] obtain srv' where
    "plugin_apply Q st ssl now p srv = Some srv'" "server_ok srv'" by (auto simp: ends_ok_def split: option.splits)
  with Cons.IH [of srv'] show ?case by (simp add: x)
qed simp

lemma example_server_ok: "server_ok example_server"
  by (simp add: server_ok_def example_server_def start_world_inv) (simp add: net_start_world_def echo_server_safe)




subsection \<open>Closing a link\<close>

lemma delete_gone: "map_of (AList.delete k al) k = None"
  by (simp add: delete_conv)

lemma close_connect_fields:
  "communication_list (close_connect sid c) = AList.delete sid (communication_list c)"
  by (simp add: close_connect_def Let_def)

lemma close_io_server_frame [simp]:
  "thread_count (close_io_server sid w) = thread_count w" "thread_module_list (close_io_server sid w) = thread_module_list w"
  "mailbox_of j (close_io_server sid w) = mailbox_of j w" "wt_safe (close_io_server sid w) = wt_safe w"
  by (simp_all add: close_io_server_def mailbox_of_def)

lemma get_session_frame [simp]: "wt_get_session_interface c (close_io_server sid w) = wt_get_session_interface c w"
  by (simp add: wt_get_session_interface_def thread_index_def thread_logic_def)

text \<open>
  C34.  \<open>close_io_session\<close> on a link to another server takes the server off the list, so that
  neither the periodic check nor a plugin can reach it, and posts the close of the
  session to the thread of the connection, behind what waits there already.
\<close>

theorem close_io_session_ends_link:
  assumes "wt_safe w" "get_server_id c (wt_comm w) = sid" "sid \<noteq> 0" "wt_get_session_interface c w = Some (Some s)"
  shows "\<exists>w'. close_io_session c w = Some w' \<and> \<not> is_exist sid (wt_comm w') \<and> svc_get_connect_id sid w' = 0 \<and>
     (\<forall>j < unat (thread_count w). mailbox_of j w' = mailbox_of j w @
        (if j = unat c mod unat (thread_count w) then [T_Close_Session c (Some s)] else []))"
proof -
  let ?w = "close_io_server sid w" and ?i = "unat c mod unat (thread_count w)"
  have n: "unat (thread_count w) = length (thread_module_list w)" "0 < unat (thread_count w)"
    using assms(1) wt_safe_nonempty [OF assms(1)] by (simp_all add: wt_safe_def wt_inv_def)
  have gone: "\<not> is_exist sid (wt_comm ?w)" by (simp add: close_io_server_def is_exist_def close_connect_fields delete_gone)
  have i: "thread_index c ?w = Some ?i" using n(2) by (auto simp: thread_index_def unat_mod)
  have m: "thread_logic ?i ?w = Some (thread_module_list w ! ?i)" using n by (simp add: thread_logic_def)
  have run: "close_io_session c w = Some (post ?i (T_Close_Session c (Some s)) ?w)"
    using assms by (simp add: close_io_session_def get_io_server_id_def word_neq_0_conv [symmetric] close_session_event_def i m)
  have "wt_safe ?w" using assms(1) by simp
  hence "mailbox_of j (post ?i x ?w) = mailbox_of j w @ (if j = ?i then [x] else [])" if "j < unat (thread_count w)" for j x
    using mailbox_post [of ?w ?i j x] that n by auto
  moreover have "wt_comm (post ?i x ?w) = wt_comm ?w" for x by (simp add: post_def)
  ultimately show ?thesis unfolding run using gone assms(3) by (simp add: svc_get_connect_id_def wt_get_connect_id_def)
qed

lemma link_example_safe: "wt_safe link_example"
  by (rule ends_safeE [OF safe_connect [OF echo_server_safe, of echo_ops 3 7 ClientIPInfo_default ClientIPInfo_default]])
    (simp add: link_example_def)

theorem close_io_session_ends_link_witness:
  "\<exists>w'. close_io_session 3 link_example = Some w' \<and> \<not> is_exist 5 (wt_comm w') \<and> svc_get_connect_id 5 w' = 0 \<and>
     (\<forall>j < unat (thread_count link_example). mailbox_of j w' = mailbox_of j link_example @
        (if j = unat (3 :: u32) mod unat (thread_count link_example) then [T_Close_Session 3 (Some 7)] else []))"
proof (rule close_io_session_ends_link [OF link_example_safe])
  show "get_server_id 3 (wt_comm link_example) = 5" by code_simp
  show "wt_get_session_interface 3 link_example = Some (Some 7)" by code_simp
qed simp


subsection \<open>Queues and plugin functions\<close>

text \<open>The first function registered under a name is the one that is called.\<close>

lemma plugin_api_lookup:
  "func_list s n = None \<Longrightarrow> do_plugin_api n x (snd (add_plugin_api n g (snd (add_plugin_api n f s)))) = f x"
  by (simp add: add_plugin_api_def do_plugin_api_def)

text \<open>
  After \<open>close\<close> the closed queues are still in the table: \<open>create_queue\<close> reports
  success without making a new one, and messages go to the closed queue.
\<close>

lemma closed_queue_stays:
  assumes "queue_list m key = Some q"
  shows "create_queue Q key n k (close_queues Q m) = (True, close_queues Q m)"
    and "queue_list (snd (send_queue_message Q key bs (close_queues Q m))) key = Some (shm_set_proc_message Q bs (shm_close Q q))"
  using assms by (simp_all add: create_queue_def close_queues_def send_queue_message_def with_queue_def)

end
