(* ===== verification/Server_Service.thy ===== *)
theory Server_Service
  imports Plugin_Service
begin

text \<open>
  Starting and stopping the server: \<open>main\<close>, \<open>init_service\<close> up to the point where the io
  threads run, and \<open>stop_service\<close>, which the handler of the signals calls.  What the
  machine gives is the record \<open>server_env\<close>; reading the configuration file is an
  argument, with \<open>None\<close> for a file that cannot be read.

  The plugins are loaded inside \<open>init_work_thread_logic\<close>; the threads, messages and
  links they ask for at that time are in the state that start-up begins with.  Turning
  the process into a daemon and opening the log have no part in the state.  Built
  without \<open>SSL_SUPPORT\<close>.  \<open>None\<close> is an exception nobody catches or undefined behaviour.
\<close>


section \<open>The server (Common/ServerService, PSS\_ASIO.cpp)\<close>


subsection \<open>Definitions\<close>

record ('s, 'h, 'fn) server_env =
  env_hardware_concurrency :: nat
  env_now :: int
  env_thread_ids :: "u32 \<Rightarrow> string"
  env_dlopen :: "string \<Rightarrow> 'h option"
  env_dlsym :: "'h \<Rightarrow> string \<Rightarrow> 'fn option"
  env_module_functions :: handlers
  env_sync_functions :: handlers
  env_bound :: "CConfigNetIO \<Rightarrow> bool"
  env_opened :: "CTTyIO \<Rightarrow> bool"
  env_start_session :: "'s session_starter"

definition load_parser ::
  "('s, 'h, 'fn) server_env \<Rightarrow> u32 \<times> string \<times> string \<Rightarrow> ('h, 'fn) CLoadPacketParse \<Rightarrow> ('h, 'fn) CLoadPacketParse" where
  "load_parser E = (\<lambda>(packet_parse_id, path, file_name) lp.
     snd (LoadPacketInfo (env_dlopen E) (env_dlsym E) packet_parse_id path file_name lp))"

text \<open>The part of \<open>init_service\<close> behind the context pool.\<close>

definition start_server ::
  "('s, 'h, 'fn) server_env \<Rightarrow> server_config \<Rightarrow> ('s, 'q, 'h, 'fn) pss_server \<Rightarrow> ('s, 'q, 'h, 'fn) pss_server option" where
  "start_server E cf srv = do {
     let w = (pss_logic srv) \<lparr> wt_timers := schedule_begin (wt_timers (pss_logic srv)) \<rparr>;
     let parsers = fold (load_parser E) (cf_packet_list cf) (pss_parsers srv);
     let w = init_work_thread_logic (env_now E) (env_thread_ids E) (env_module_functions E) (env_sync_functions E)
       (cf_work_thread_count cf) (cf_work_timeout_seconds cf) (cf_client_connect_timeout cf) w;
     W \<leftarrow> start_default_service (map (\<lambda>c. (c, env_bound E c)) (cf_tcp_list cf)) (cf_udp_list cf)
       (map (\<lambda>c. (c, env_bound E c)) (cf_kcp_list cf)) (map (\<lambda>c. (c, env_opened E c)) (cf_tty_list cf))
       ((pss_net srv) \<lparr> nw_logic := w \<rparr>);
     let w = (nw_logic W) \<lparr> wt_comm := run_server_to_server (env_start_session E) False (wt_comm (nw_logic W)) \<rparr>;
     Some (srv \<lparr> pss_net := W \<lparr> nw_logic := w \<rparr>, pss_parsers := parsers,
       pss_check_period := Some (cf_s2s_timeout_seconds cf) \<rparr>) }"

definition init_service ::
  "('s, 'h, 'fn) server_env \<Rightarrow> server_config option \<Rightarrow> ('s, 'q, 'h, 'fn) pss_server \<Rightarrow> (bool \<times> ('s, 'q, 'h, 'fn) pss_server) option" where
  "init_service E config srv =
    (case config of
       None \<Rightarrow> Some (False, srv)
     | Some cf \<Rightarrow>
         (case pool_init (env_hardware_concurrency E) (nw_pool (pss_net srv)) of
            Inl e \<Rightarrow> None
          | Inr pool \<Rightarrow> do {
              (io_context, pool) \<leftarrow> getIOContext pool;
              srv \<leftarrow> start_server E cf (srv \<lparr> pss_net := (pss_net srv) \<lparr> nw_pool := pool \<rparr> \<rparr>);
              Some (True, srv) }))"

text \<open>The arguments include the name of the program.\<close>

definition main_program ::
  "('s, 'h, 'fn) server_env \<Rightarrow> (string \<Rightarrow> server_config option) \<Rightarrow> string list \<Rightarrow> ('s, 'q, 'h, 'fn) pss_server
     \<Rightarrow> ('s, 'q, 'h, 'fn) pss_server option" where
  "main_program E read_server_config_file argv srv =
    (if length argv > 2 then Some srv
     else map_option snd (init_service E
       (read_server_config_file (if length argv = 2 then argv ! 1 else ''server_config.json'')) srv))"

text \<open>\<open>handlers\<close> are the accept handlers that run meanwhile, \<open>order\<close> is the order of the parsers in their table.\<close>

definition server_close_service ::
  "'q shm_api \<Rightarrow> nat list \<Rightarrow> u32 list \<Rightarrow> ('s, 'q, 'h, 'fn) pss_server \<Rightarrow> ('s, 'q, 'h, 'fn) pss_server option" where
  "server_close_service Q handlers order srv = do {
     W \<leftarrow> close_all_service handlers (pss_net srv);
     let w = (nw_logic W) \<lparr> wt_timers := Close_timers (wt_timers (nw_logic W)) \<rparr>;
     let queues = close_queues Q (pss_queues srv);
     let service = session_service_close (pss_service srv);
     let w = wt_close w;
     let parsers = Close_parsers order (pss_parsers srv);
     Some (srv \<lparr> pss_net := W \<lparr> nw_logic := w \<rparr>, pss_queues := queues, pss_service := service, pss_parsers := parsers \<rparr>) }"

definition stop_service ::
  "'q shm_api \<Rightarrow> nat list \<Rightarrow> u32 list \<Rightarrow> ('s, 'q, 'h, 'fn) pss_server \<Rightarrow> ('s, 'q, 'h, 'fn) pss_server option" where
  "stop_service Q handlers order srv = do {
     srv \<leftarrow> server_close_service Q handlers order srv;
     Some (srv \<lparr> pss_net := (pss_net srv) \<lparr> nw_pool := pool_stop (nw_pool (pss_net srv)) \<rparr> \<rparr>) }"

text \<open>A process that was just started: nothing runs, but plugins may have left work in the buffers.\<close>

definition server_fresh :: "('s, 'q, 'h, 'fn) pss_server \<Rightarrow> bool" where
  "server_fresh srv \<longleftrightarrow> (\<exists>w. pss_net srv = (net_start_world 0 w) \<lparr> nw_pool := \<lparr> io_contexts_list = [], next_io_context = 0 \<rparr> \<rparr>) \<and>
     thread_module_list (pss_logic srv) = [] \<and> wt_tms (pss_logic srv) = TMS_init \<and>
     plugin_work_thread_list (pss_logic srv) = Map.empty \<and> tm_store (wt_timers (pss_logic srv)) = []"

text \<open>A listener that is in the table under its address and waits for connections.\<close>

definition listening :: "'s net_world \<Rightarrow> string \<Rightarrow> bool" where
  "listening W key \<longleftrightarrow> (\<exists>k sv. (key, k) \<in> set (tcp_service_list (nw_manager W)) \<and> the_tcp_server k W = Some sv \<and>
     sv_acceptor sv = Acceptor_Open \<and> sv_accepting sv)"

text \<open>The listeners of the addresses \<open>K\<close> run, and the work threads are \<open>w\<close>.\<close>

definition serving :: "string set \<Rightarrow> 's CWorkThreadLogic \<Rightarrow> 's net_world option \<Rightarrow> bool" where
  "serving K w r = (case r of
     Some W \<Rightarrow> net_inv W \<and> used_keys W = K \<and> (\<forall>key \<in> K. listening W key) \<and> nw_logic W = w
   | None \<Rightarrow> False)"

definition plain_tcp :: "server_config \<Rightarrow> CConfigNetIO list" where
  "plain_tcp cf = filter (\<lambda>c. \<not> ssl_configured c) (cf_tcp_list cf)"

definition parser_loads :: "('s, 'h, 'fn) server_env \<Rightarrow> string \<Rightarrow> string \<Rightarrow> bool" where
  "parser_loads E path file_name \<longleftrightarrow> (\<exists>h. env_dlopen E (path @ file_name) = Some h \<and> (\<forall>x \<in> set parser_symbols. env_dlsym E h x \<noteq> None))"

definition example_env :: "nat \<Rightarrow> (nat, nat, nat) server_env" where
  "example_env n = \<lparr> env_hardware_concurrency = n, env_now = 0, env_thread_ids = (\<lambda>_. []), env_dlopen = (\<lambda>_. Some 1),
     env_dlsym = (\<lambda>_ _. Some 1), env_module_functions = echo_handlers, env_sync_functions = Map.empty,
     env_bound = (\<lambda>_. True), env_opened = (\<lambda>_. True), env_start_session = (\<lambda>_ _. (0, True)) \<rparr>"

definition example_config :: server_config where
  "example_config = \<lparr> cf_work_thread_count = 2, cf_work_timeout_seconds = 60, cf_s2s_timeout_seconds = 60,
     cf_client_connect_timeout = 0, cf_packet_list = [(1, ''./'', ''parse.so'')],
     cf_tcp_list = [netio CONNECT_IO_TCP 80, netio CONNECT_IO_TCP 81], cf_udp_list = [netio CONNECT_IO_UDP 82],
     cf_kcp_list = [], cf_tty_list = [] \<rparr>"

definition fresh_server :: "(nat, bytes list, nat, nat) pss_server" where
  "fresh_server = example_server \<lparr> pss_net := (net_start_world 0 CWorkThreadLogic_init) \<lparr>
     nw_pool := \<lparr> io_contexts_list = [], next_io_context = 0 \<rparr> \<rparr> \<rparr>"


subsection \<open>Starting the services\<close>

lemma serving_Some:
  "serving K w (Some W) \<longleftrightarrow> net_inv W \<and> used_keys W = K \<and> (\<forall>key \<in> K. listening W key) \<and> nw_logic W = w"
  by (simp add: serving_def)

lemma servingE: "serving K w r \<Longrightarrow> (\<And>W. r = Some W \<Longrightarrow> serving K w (Some W) \<Longrightarrow> P) \<Longrightarrow> P"
  by (cases r) (auto simp: serving_def)

lemma update_keeps: "(key, k) \<in> set al \<Longrightarrow> key \<noteq> key' \<Longrightarrow> (key, k) \<in> set (AList.update key' v al)"
  by (induction al) auto

lemma listening_more:
  assumes "listening W key" "\<And>k. (key, k) \<in> set (tcp_service_list (nw_manager W)) \<Longrightarrow> (key, k) \<in> set (tcp_service_list (nw_manager W'))"
    "nw_servers W' = nw_servers W @ s"
  shows "listening W' key"
proof -
  obtain k sv where k: "(key, k) \<in> set (tcp_service_list (nw_manager W))" "the_tcp_server k W = Some sv"
    "sv_acceptor sv = Acceptor_Open" "sv_accepting sv" using assms(1) by (auto simp: listening_def)
  have "the_tcp_server k W' = Some sv" using k(2) by (simp add: the_tcp_server_def assms(3) nth_append split: if_splits)
  thus ?thesis using assms(2) [OF k(1)] k(3,4) by (auto simp: listening_def)
qed

lemma serving_tcp:
  assumes "serving K w (Some W)" "config_key c \<notin> K"
  shows "serving (insert (config_key c) K) w (start_tcp_service True c W)"
proof -
  let ?n = "length (nw_servers W)"
  let ?sv = "\<lparr> sv_packet_parse_id = io_packet_parse_id c, sv_max_recv_size = io_recv_buff_size c,
       sv_server_ip = io_ip c, sv_server_port = io_port c, sv_acceptor = Acceptor_Open, sv_accepting = True \<rparr>"
  have inv: "net_inv W" and keys: "used_keys W = K" and old: "\<And>key. key \<in> K \<Longrightarrow> listening W key" and w: "nw_logic W = w"
    using assms(1) by (auto simp: serving_Some)
  obtain x p where p: "getIOContext (nw_pool W) = Some (x, p)" "pool_ok p" using inv_context [OF inv] by blast
  let ?W = "W \<lparr> nw_servers := nw_servers W @ [Tcp_Server ?sv], nw_pool := p, nw_manager := (nw_manager W)
      \<lparr> tcp_service_list := AList.update (config_key c) ?n (tcp_service_list (nw_manager W)) \<rparr> \<rparr>"
  have run: "start_tcp_service True c W = Some ?W"
    by (simp add: start_tcp_service_def CTcpServer_ctor_def p tcp_server_start_def the_tcp_server_def do_accept_def set_server_def
        add_accept_net_io_event_def config_key_def Let_def)
  have inv': "net_inv ?W" "used_keys ?W = insert (config_key c) K"
    using start_tcp_goes_on [OF inv, of c] assms(2) keys unfolding run by auto
  have "listening ?W key" if "key \<in> K" for key
  proof (rule listening_more [OF old [OF that]])
    show "(key, k) \<in> set (tcp_service_list (nw_manager ?W))" if "(key, k) \<in> set (tcp_service_list (nw_manager W))" for k
      using update_keeps [OF that, of "config_key c"] \<open>key \<in> K\<close> assms(2) by auto
  qed simp
  moreover have "listening ?W (config_key c)" unfolding listening_def
    by (rule exI [of _ ?n], rule exI [of _ ?sv]) (simp add: update_entry the_tcp_server_def)
  ultimately show ?thesis unfolding run using inv' w by (simp add: serving_Some)
qed

lemma serving_other:
  assumes "serving K w (Some W)" "ty \<in> {CONNECT_IO_UDP, CONNECT_IO_KCP, CONNECT_IO_TTY}"
  shows "serving K w (start_other_service ty ip port W)"
proof -
  have inv: "net_inv W" and keys: "used_keys W = K" and old: "\<And>key. key \<in> K \<Longrightarrow> listening W key" and w: "nw_logic W = w"
    using assms(1) by (auto simp: serving_Some)
  obtain x p where p: "getIOContext (nw_pool W) = Some (x, p)" using inv_context [OF inv] by blast
  let ?W = "W \<lparr> nw_pool := p, nw_servers := nw_servers W @ [Other_Server ty ip port True],
      nw_manager := add_accept_net_io_event ip port ty (length (nw_servers W)) (nw_manager W) \<rparr>"
  have run: "start_other_service ty ip port W = Some ?W" by (simp add: start_other_service_def p)
  have "net_inv ?W" "used_keys ?W = K" using start_other_goes_on [OF inv assms(2), of ip port] keys unfolding run by auto
  moreover have "listening ?W key" if "key \<in> K" for key
    by (rule listening_more [OF old [OF that]]) (simp_all add: other_servers_entered(2) [OF assms(2)])
  ultimately show ?thesis unfolding run using w by (simp add: serving_Some)
qed

lemma serving_pool:
  assumes "serving K w (Some W)" "getIOContext (nw_pool W) = Some (x, p)"
  shows "serving K w (Some (W \<lparr> nw_pool := p \<rparr>))"
proof -
  have same: "(\<lambda>j. the_tcp_server j (W \<lparr> nw_pool := p \<rparr>)) = (\<lambda>j. the_tcp_server j W)" by (rule the_tcp_server_cong) simp
  have "pool_ok p" using getIOContext_ok [of "nw_pool W"] assms by (auto simp: net_inv_def serving_Some)
  moreover have "listening (W \<lparr> nw_pool := p \<rparr>) key = listening W key" for key using fun_cong [OF same] by (simp add: listening_def)
  ultimately show ?thesis using assms(1) unfolding serving_Some net_inv_def tables_ok_def used_keys_def same by simp
qed

lemma serving_tcp_list:
  assumes "serving K w (Some W)" "distinct (map config_key (filter (\<lambda>c. \<not> ssl_configured c) cs))"
    "config_key ` set (filter (\<lambda>c. \<not> ssl_configured c) cs) \<inter> K = {}" "\<forall>c \<in> set cs. bound c"
  shows "serving (K \<union> config_key ` set (filter (\<lambda>c. \<not> ssl_configured c) cs)) w (start_tcp_list (map (\<lambda>c. (c, bound c)) cs) W)"
  using assms
proof (induction cs arbitrary: K W)
  case (Cons c cs)
  show ?case
  proof (cases "ssl_configured c")
    case False
    hence "config_key c \<notin> K" using Cons.prems(3) by auto
    from serving_tcp [OF Cons.prems(1) this] obtain W' where
      W': "start_tcp_service True c W = Some W'" "serving (insert (config_key c) K) w (Some W')" by (rule servingE)
    show ?thesis using Cons.IH [OF W'(2)] Cons.prems False by (auto simp: W'(1))
  qed (use Cons in \<open>simp\<close>)
qed simp

lemma serving_udp_list: "serving K w (Some W) \<Longrightarrow> serving K w (start_udp_list cs W)"
proof (induction cs arbitrary: W)
  case (Cons c cs)
  show ?case by (rule servingE [OF serving_other [OF Cons.prems, of CONNECT_IO_UDP "io_ip c" "io_port c"]])
      (use Cons.IH in simp_all)
qed simp

lemma serving_kcp_list:
  "serving K w (Some W) \<Longrightarrow> \<forall>c \<in> set cs. bound c \<Longrightarrow> serving K w (start_kcp_list (map (\<lambda>c. (c, bound c)) cs) W)"
proof (induction cs arbitrary: W)
  case (Cons c cs)
  show ?case by (rule servingE [OF serving_other [OF Cons.prems(1), of CONNECT_IO_KCP "io_ip c" "io_port c"]])
      (use Cons in simp_all)
qed simp

lemma serving_tty_list: "serving K w (Some W) \<Longrightarrow> serving K w (start_tty_list (map (\<lambda>c. (c, opened c)) cs) W)"
proof (induction cs arbitrary: W)
  case (Cons c cs)
  show ?case
  proof (cases "opened c")
    case True
    show ?thesis by (rule servingE [OF serving_other [OF Cons.prems(1), of CONNECT_IO_TTY "tty_name c" "ucast (tty_port c)"]])
        (use True Cons in simp_all)
  next
    case False
    obtain x p where p: "getIOContext (nw_pool W) = Some (x, p)" using getIOContext_ok [of "nw_pool W"] Cons.prems by (auto simp: serving_Some net_inv_def)
    thus ?thesis using False Cons.IH [OF serving_pool [OF Cons.prems p]] by simp
  qed
qed simp

lemma default_services_serve:
  assumes "serving {} w (Some W)" "distinct (map config_key (filter (\<lambda>c. \<not> ssl_configured c) tcp))" "\<forall>c \<in> set (tcp @ kcp). bound c"
  shows "serving (config_key ` set (filter (\<lambda>c. \<not> ssl_configured c) tcp)) w
     (start_default_service (map (\<lambda>c. (c, bound c)) tcp) udp (map (\<lambda>c. (c, bound c)) kcp) (map (\<lambda>c. (c, opened c)) tty) W)"
proof -
  let ?K = "config_key ` set (filter (\<lambda>c. \<not> ssl_configured c) tcp)"
  have "serving ?K w (start_tcp_list (map (\<lambda>c. (c, bound c)) tcp) W)" using serving_tcp_list [OF assms(1,2)] assms(3) by simp
  then obtain W1 where W1: "start_tcp_list (map (\<lambda>c. (c, bound c)) tcp) W = Some W1" "serving ?K w (Some W1)" by (rule servingE)
  from serving_udp_list [OF W1(2), of udp] obtain W2 where W2: "start_udp_list udp W1 = Some W2" "serving ?K w (Some W2)" by (rule servingE)
  from serving_kcp_list [OF W2(2), of kcp bound] assms(3) obtain W3 where
    W3: "start_kcp_list (map (\<lambda>c. (c, bound c)) kcp) W2 = Some W3" "serving ?K w (Some W3)" by (auto elim: servingE)
  show ?thesis using serving_tty_list [OF W3(2), of opened tty] by (simp add: start_default_service_def W1(1) W2(1) W3(1))
qed


subsection \<open>Loading the parsers\<close>

lemma load_parser_loads:
  assumes "parser_loads E path file"
  shows "m_objPacketParseList (load_parser E (i, path, file) lp) i \<noteq> None"
  using assms by (auto simp: parser_loads_def load_parser_def LoadPacketInfo_def parser_symbols_def Let_def)

lemma load_parser_keeps:
  "m_objPacketParseList lp i \<noteq> None \<Longrightarrow> m_objPacketParseList (load_parser E x lp) i \<noteq> None"
  by (auto simp: load_parser_def LoadPacketInfo_def dispaly_error_message_def Let_def split: prod.split option.split)

lemma load_parsers_keep:
  "m_objPacketParseList lp i \<noteq> None \<Longrightarrow> m_objPacketParseList (fold (load_parser E) xs lp) i \<noteq> None"
proof (induction xs arbitrary: lp)
  case (Cons x xs)
  from Cons.IH [OF load_parser_keeps [OF Cons.prems]] show ?case by simp
qed simp

lemma load_parsers_load:
  "(i, path, file) \<in> set xs \<Longrightarrow> parser_loads E path file \<Longrightarrow> m_objPacketParseList (fold (load_parser E) xs lp) i \<noteq> None"
proof (induction xs arbitrary: lp)
  case (Cons x xs)
  show ?case
  proof (cases "x = (i, path, file)")
    case True
    thus ?thesis using load_parsers_keep [OF load_parser_loads [OF Cons.prems(2)]] by simp
  next
    case False
    thus ?thesis using Cons.IH Cons.prems by simp
  qed
qed simp


subsection \<open>Start-up\<close>

lemma fresh_serving:
  "2 \<le> n \<Longrightarrow> serving {} w (Some ((net_start_world 0 v) \<lparr> nw_pool := \<lparr> io_contexts_list = [0..<n], next_io_context = 1 \<rparr>, nw_logic := w \<rparr>))"
  using start_world_inv [of n w] by (simp add: serving_Some net_start_world_def used_keys_def the_tcp_server_def ran_def)

lemma init_pool: "2 \<le> n \<Longrightarrow> pool_init n \<lparr> io_contexts_list = [], next_io_context = k \<rparr> = Inr \<lparr> io_contexts_list = [0..<n], next_io_context = 0 \<rparr>"
  "2 \<le> n \<Longrightarrow> getIOContext \<lparr> io_contexts_list = [0..<n], next_io_context = 0 \<rparr> = Some (0, \<lparr> io_contexts_list = [0..<n], next_io_context = 1 \<rparr>)"
  by (auto simp: pool_init_def getIOContext_def)

lemma post_comm [simp]: "wt_comm (post i x w) = wt_comm w"
  by (simp add: post_def)

lemma fold_comm: "(\<And>x w. wt_comm (f x w) = wt_comm w) \<Longrightarrow> wt_comm (fold f xs w) = wt_comm w"
  by (induction xs arbitrary: w) simp_all

lemma delayed_comm [simp]: "wt_comm (add_delayed d delay w) = wt_comm w"
  by (simp add: add_delayed_def Let_def)

lemma submit_comm: "wt_comm (submit_message e w) = wt_comm w" "wt_comm (submit_function f w) = wt_comm w"
  by (auto simp: submit_message_def submit_function_def do_frame_message_def do_work_thread_logic_def
      do_plugin_thread_module_logic_def bind_eq_Some_conv split: option.splits)

lemma init_keeps_links: "wt_comm (init_work_thread_logic now tids async sync n ts ct w) = wt_comm w"
proof -
  have "wt_comm (create_work_thread now tids i w) = wt_comm w" "wt_comm (create_buffered_thread now tids j w) = wt_comm w"
    for i j and w :: "'a CWorkThreadLogic"
    by (simp_all add: create_work_thread_def create_buffered_thread_def new_plugin_thread_def split: option.split)
  thus ?thesis by (simp add: init_work_thread_logic_def start_check_timer_def submit_buffered_def start_buffered_threads_def
        configure_threads_def Let_def fold_comm submit_comm)
qed

text \<open>
  C3.  Start-up brings the server into the state the other components rely on.  On a machine
  with at least two processors, with 1 to 65535 work threads, distinct addresses that
  can all be bound, and whatever the plugins submitted while they were loaded:
  \<open>init_service\<close> succeeds, the dispatcher is in its safe state and the tables of the
  listeners are consistent, every configured TCP service without SSL listens at its
  address, every parser whose library has the eight symbols can be found, and the links
  to other servers have been started.
\<close>

theorem server_starts:
  assumes "server_fresh srv" "2 \<le> env_hardware_concurrency E" "0 < cf_work_thread_count cf" "cf_work_thread_count cf < 2 ^ 16"
    "distinct (map config_key (plain_tcp cf))" "\<forall>c \<in> set (cf_tcp_list cf @ cf_kcp_list cf). env_bound E c"
  shows "\<exists>srv'. init_service E (Some cf) srv = Some (True, srv') \<and> wt_safe (pss_logic srv') \<and> net_inv (pss_net srv') \<and>
    (\<forall>c \<in> set (plain_tcp cf). listening (pss_net srv') (config_key c)) \<and>
    (\<forall>i path file. (i, path, file) \<in> set (cf_packet_list cf) \<longrightarrow> parser_loads E path file \<longrightarrow> GetPacketParseInfo i (pss_parsers srv') \<noteq> None) \<and>
    wt_comm (pss_logic srv') = run_server_to_server (env_start_session E) False (wt_comm (pss_logic srv))"
proof -
  let ?n = "env_hardware_concurrency E"
  let ?pool = "\<lparr> io_contexts_list = [0..<?n], next_io_context = 1 \<rparr>"
  obtain v where v: "pss_net srv = (net_start_world 0 v) \<lparr> nw_pool := \<lparr> io_contexts_list = [], next_io_context = 0 \<rparr> \<rparr>"
    using assms(1) by (auto simp: server_fresh_def)
  let ?v = "(pss_logic srv) \<lparr> wt_timers := schedule_begin (wt_timers (pss_logic srv)) \<rparr>"
  define w where "w = init_work_thread_logic (env_now E) (env_thread_ids E) (env_module_functions E) (env_sync_functions E)
       (cf_work_thread_count cf) (cf_work_timeout_seconds cf) (cf_client_connect_timeout cf) ?v"
  have safe: "wt_safe w" unfolding w_def
    by (rule init_safe [OF assms(3,4)]) (use assms(1) in \<open>simp_all add: server_fresh_def schedule_begin_def\<close>)
  have comm: "wt_comm w = wt_comm (pss_logic srv)" by (simp add: w_def init_keeps_links)
  let ?W = "(pss_net srv) \<lparr> nw_pool := ?pool, nw_logic := w \<rparr>"
  have W: "serving {} w (Some ?W)" using fresh_serving [OF assms(2), of w v] by (simp add: v net_start_world_def)
  let ?run = "start_default_service (map (\<lambda>c. (c, env_bound E c)) (cf_tcp_list cf)) (cf_udp_list cf)
      (map (\<lambda>c. (c, env_bound E c)) (cf_kcp_list cf)) (map (\<lambda>c. (c, env_opened E c)) (cf_tty_list cf)) ?W"
  have "serving (config_key ` set (plain_tcp cf)) w ?run"
    unfolding plain_tcp_def by (rule default_services_serve [OF W]) (use assms(5,6) in \<open>simp_all add: plain_tcp_def\<close>)
  then obtain W' where W': "?run = Some W'" "serving (config_key ` set (plain_tcp cf)) w (Some W')" by (rule servingE)
  let ?w = "w \<lparr> wt_comm := run_server_to_server (env_start_session E) False (wt_comm w) \<rparr>"
  let ?srv = "srv \<lparr> pss_net := W' \<lparr> nw_logic := ?w \<rparr>, pss_parsers := fold (load_parser E) (cf_packet_list cf) (pss_parsers srv),
      pss_check_period := Some (cf_s2s_timeout_seconds cf) \<rparr>"
  have w': "nw_logic W' = w" using W'(2) by (simp add: serving_Some)
  have "start_server E cf (srv \<lparr> pss_net := (pss_net srv) \<lparr> nw_pool := ?pool \<rparr> \<rparr>) = Some ?srv"
    using W'(1) w' by (simp add: start_server_def w_def [symmetric])
  hence run: "init_service E (Some cf) srv = Some (True, ?srv)"
    using init_pool [OF assms(2)] by (simp add: init_service_def v)
  have "listening (W' \<lparr> nw_logic := ?w \<rparr>) key = listening W' key" for key
    using fun_cong [OF the_tcp_server_cong [of "W' \<lparr> nw_logic := ?w \<rparr>" W']] by (simp add: listening_def)
  thus ?thesis unfolding run using W'(2) safe comm load_parsers_load [of _ _ _ "cf_packet_list cf" E]
    by (simp add: serving_Some GetPacketParseInfo_def)
qed

theorem server_starts_witness:
  "\<exists>srv'. init_service (example_env 4) (Some example_config) fresh_server = Some (True, srv') \<and>
    wt_safe (pss_logic srv') \<and> net_inv (pss_net srv') \<and>
    (\<forall>c \<in> set (plain_tcp example_config). listening (pss_net srv') (config_key c)) \<and>
    (\<forall>i path file. (i, path, file) \<in> set (cf_packet_list example_config) \<longrightarrow> parser_loads (example_env 4) path file \<longrightarrow>
       GetPacketParseInfo i (pss_parsers srv') \<noteq> None) \<and>
    wt_comm (pss_logic srv') = run_server_to_server (env_start_session (example_env 4)) False (wt_comm (pss_logic fresh_server))"
proof (rule server_starts)
  show "server_fresh fresh_server"
    by (auto simp: server_fresh_def fresh_server_def CWorkThreadLogic_init_def net_start_world_def schedule_begin_def TimerMgr_init_def)
  have "map config_key (plain_tcp example_config) = [''0_80'', ''0_81'']" by code_simp
  thus "distinct (map config_key (plain_tcp example_config))" by simp
qed (simp_all add: example_env_def example_config_def)


subsection \<open>Shutting down\<close>

lemma wt_close_effect:
  "thread_module_list (wt_close w) = []" "wt_timers (wt_close w) = wt_timers w" "wt_comm (wt_close w) = close_service (wt_comm w)"
proof -
  have "wt_timers (fold (\<lambda>i w. case thread_logic i w of Some m \<Rightarrow> post (unat (work_thread_id m)) (T_Close_All i) w | None \<Rightarrow> w) is w) = wt_timers w \<and>
    wt_comm (fold (\<lambda>i w. case thread_logic i w of Some m \<Rightarrow> post (unat (work_thread_id m)) (T_Close_All i) w | None \<Rightarrow> w) is w) = wt_comm w"
    for "is" and w :: "'a CWorkThreadLogic"
    by (induction "is" arbitrary: w) (simp_all split: option.split)
  thus "thread_module_list (wt_close w) = []" "wt_timers (wt_close w) = wt_timers w" "wt_comm (wt_close w) = close_service (wt_comm w)"
    by (simp_all add: wt_close_def Let_def)
qed




subsection \<open>A machine with one processor\<close>

lemma start_tcp_no_context: "getIOContext (nw_pool W) = None \<Longrightarrow> \<exists>c \<in> set cs. \<not> ssl_configured c \<Longrightarrow>
    start_tcp_list (map (\<lambda>c. (c, bound c)) cs) W = None"
  by (induction cs) (auto simp: start_tcp_service_def CTcpServer_ctor_def)

text \<open>
  On a machine with one processor the pool has one context, which the signal handler
  takes; the first TCP service then indexes the vector of the contexts behind its end,
  so that start-up is undefined for every configuration with such a service.
\<close>

theorem single_processor_start_undefined:
  assumes "env_hardware_concurrency E = 1" "io_contexts_list (nw_pool (pss_net srv)) = []" "plain_tcp cf \<noteq> []"
  shows "init_service E (Some cf) srv = None"
proof -
  have "\<exists>c \<in> set (cf_tcp_list cf). \<not> ssl_configured c" using assms(3) by (auto simp: plain_tcp_def filter_empty_conv)
  hence none: "getIOContext (nw_pool W) = None \<Longrightarrow> start_tcp_list (map (\<lambda>c. (c, env_bound E c)) (cf_tcp_list cf)) W = None"
    for W :: "'a net_world" using start_tcp_no_context by blast
  show ?thesis using assms(1,2) by (simp add: init_service_def pool_init_def getIOContext_def start_server_def start_default_service_def none)
qed

theorem single_processor_start_undefined_witness: "init_service (example_env 1) (Some example_config) fresh_server = None"
proof (rule single_processor_start_undefined)
  show "plain_tcp example_config \<noteq> []" by code_simp
qed (simp_all add: example_env_def fresh_server_def)

end
