(* ===== verification/Spec2Isabelle.thy ===== *)
theory Spec2Isabelle
  imports Session_Buffer Data_Stream Frame_Types Message_Queue Timer_Manager Tms
    Io_Bridge Session_Interface Communication Load_Module Work_Thread Work_Thread_Safety
    Packet_Parse Base64 Sha1 Websocket Http_Format Http_Parse Session_Common Tcp_Session Net_Services Udp_Server
    Client_Common Tcp_Client Udp_Client Ssl_Session Kcp_Server Tty_Server Plugin_Service Server_Service
begin

text \<open>
  PSS\_ASIO is a C++ framework for network services.  Sessions of several protocols
  read bytes from sockets, a packet parser (a plugin) cuts them into messages, the
  dispatcher puts the messages into the mailboxes of task threads, and handlers of
  logic plugins run there and answer through the sessions.  Around this path there
  are timers, bridges between sessions, links to other servers, and the management
  of listeners and plugins.  This development models the program as functions on
  explicit states and proves what each part promises.

  \<^bold>\<open>Conventions.\<close>  A class is a record, an enumeration a datatype, a method a
  function that takes the object and returns it changed.  Machine integers are words of
  their width where the code can overflow them.  \<open>None\<close> as the result of an operation is
  undefined behaviour of the C++ program (an access outside an allocation, a null or
  dangling pointer) or an exception that nobody catches; errors the code handles are
  values.  Code of libraries (asio, KCP, the HTTP/1 state machine of \<open>http_parser.c\<close>,
  shared memory queues, dynamic loading) is an argument of the definitions that
  call it.  An asynchronous operation is a field of the state that says what is
  outstanding, and its completion is an event; a run is a list of events, so a theorem
  about all runs is about all interleavings.  Time is an argument.

  \<^bold>\<open>Foundations\<close> (\<open>src/Common\<close>).  \<open>Prelude\<close>: words, little-endian bytes, memory.
  \<open>Session_Buffer\<close> (\<open>SessionBuffer.hpp\<close>): the receive buffer, which refines a bounded
  queue of bytes.  \<open>Data_Stream\<close> (\<open>ReadBuffer.hpp\<close>, \<open>WriteBuffer.hpp\<close>): typed reading and
  writing, round trip and memory safety.  \<open>Frame_Types\<close> (\<open>define.h\<close>): common types.
  \<open>Message_Queue\<close> (\<open>ThreadQueue.h\<close>): the blocking queue with its condition variable,
  order and absence of lost wake-ups.  \<open>Timer_Manager\<close> (\<open>TimerManager.hpp\<close>) and \<open>Tms\<close>
  (\<open>tms.hpp\<close>): timers and task threads with their mailboxes; timers that fire once and
  cancelling, order of messages, buffering before start, termination of closing.

  \<^bold>\<open>Messages\<close> (\<open>src/PSS_ASIO/Message\<close>).  \<open>Io_Bridge\<close> (\<open>IotoIo\<close>, \<open>SessionAddrList\<close>,
  \<open>Iobridge\<close>): pairs of bridged addresses and their invariant.  \<open>Session_Interface\<close>: the
  table of sessions, a refinement of a map, and the check for idle ones.  \<open>Load_Module\<close>
  (\<open>LoadModule\<close>, \<open>LoadPacketParse\<close>): plugins and their commands.  \<open>Work_Thread\<close> and
  \<open>Work_Thread_Safety\<close> (\<open>ModuleLogic\<close>, \<open>SyncLogic\<close>, \<open>ModuleInterfalce\<close>): the dispatcher; it
  is defined on every sequence of calls, messages reach the thread of their connection
  in order, answers are written once.  \<open>Communication\<close> (\<open>CommunicationService\<close>): links to
  other servers.

  \<^bold>\<open>Packet parsers\<close> (\<open>src/PacketParse_Interface\<close>, \<open>src/PacketParse_Http\<close>).
  \<open>Packet_Parse\<close>: the binary protocol.  \<open>Base64\<close>, \<open>Sha1\<close> (against the definition of
  FIPS 180), \<open>Websocket\<close>, \<open>Http_Format\<close> and \<open>Http_Parse\<close>: HTTP and websockets.

  \<^bold>\<open>Sessions and listeners\<close> (\<open>src/PSS_ASIO/TcpSession\<close>, \<open>UdpSession\<close>, \<open>TTySession\<close>,
  \<open>Common\<close>).  \<open>Session_Common\<close>: connection numbers and the interface of a parser.
  \<open>Tcp_Session\<close>: accepted connections; no undefined behaviour under any interleaving, and a
  close that waits for outstanding writes happens.  \<open>Net_Services\<close> (\<open>IoContextPool\<close>,
  \<open>TcpServer\<close>, \<open>NetSvrManager\<close>): the contexts are dealt out in turn, the tables of services
  keep their types, shutting down closes everything.  \<open>Udp_Server\<close>: its tables stay
  inverse to each other and a datagram goes to the client with its address.
  \<open>Client_Common\<close>: what the remaining sessions share, the way of received data to the
  bridge or the parser.  \<open>Tcp_Client\<close> and \<open>Udp_Client\<close>: links to other servers, with the
  events that are undefined.  \<open>Ssl_Session\<close> (\<open>TcpSSLSession\<close>, \<open>TcpSSLServer\<close>): bytes are sent
  in order and once.  \<open>Kcp_Server\<close>: the clients with their control blocks; exactly two
  kinds of events crash it.  \<open>Tty_Server\<close>: the serial port.

  \<^bold>\<open>The server\<close> (\<open>QueueSession\<close>, \<open>Message/SessionService\<close>, \<open>Common/ServerService\<close>,
  \<open>PSS_ASIO.cpp\<close>).  \<open>Plugin_Service\<close>: the interface for plugins on the state of the whole
  server; no sequence of calls of plugins makes it undefined.  \<open>Server_Service\<close>: start-up
  leads to the state the theorems about the dispatcher and the listeners begin with, and
  \<open>stop_service\<close> releases everything.  This theory puts a TCP session, the binary parser and
  the dispatcher together.

  \<^bold>\<open>Interfaces.\<close>  The locales \<open>byte_fifo\<close> and the others of the components state what a
  provider promises; each is interpreted on the definitions of the model.

  \<^bold>\<open>Bounds.\<close>  Loops of the code are recursive functions with termination proofs; there is
  no fuel.  The one exception is the loop of the KCP server that takes messages from the
  library until there are none (\<open>kcp_recv_loop\<close>), a partial function that is shown to
  return for a library whose queue is finite.  Hypotheses on sizes (buffers below
  \<open>2 ^ 32\<close> or \<open>2 ^ 64\<close> bytes, fewer than \<open>2 ^ 32\<close> connections) are the ranges of the types of the code.

  \<^bold>\<open>Defects.\<close>  Theorems about wrong behaviour are kept as theorems too; they say
  exactly when it happens, for instance \<open>truncated_packet_runs_off_buffer\<close>,
  \<open>empty_datagram_stops_server\<close>, \<open>closed_listener_used_after_free\<close>,
  \<open>single_processor_start_undefined\<close> and \<open>kcp_messages_overwrite\<close>.

  \<^bold>\<open>Not modelled.\<close>  The SSL client session: its constructor builds the socket from a
  context that is constructed after it, so that no method has a defined meaning.  Reading
  the configuration (JSON and files), the threads that run the contexts, logging, timing,
  daemon mode and the dynamic loader (system calls), \<open>http_parser.c\<close> (a library), and the
  programs beside the server: the test plugin, the load generator, the generator of
  plugin sources and the unit tests.
\<close>


section \<open>PSS\_ASIO: a verification development\<close>



subsection \<open>Definitions: a TCP session with the binary packet parser\<close>

text \<open>
  The functions that \<open>PacketParse_Interface\<close> exports, for the table of a session.  The
  plugin has no state, and its connect and disconnect hooks only log.
\<close>

definition binary_packet_parse :: "unit packet_parse" where
  "binary_packet_parse = \<lparr> pk_connect = (\<lambda>c r l ty p. p), pk_disconnect = (\<lambda>c ty p. p),
     pk_from_recv_buffer = (\<lambda>c sb ty p. case parse_packet_from_recv_buffer ty sb [] of
       None \<Rightarrow> None | Some (ret, sb', ms) \<Rightarrow> Some (ret, sb', ms, p)),
     pk_format_send_buffer = (\<lambda>c m ty p. parse_packet_format_send_buffer m),
     pk_is_need_send_format = is_need_send_format \<rparr>"

text \<open>
  Reads of a stream of packets into a buffer of \<open>n\<close> bytes that still holds \<open>rest\<close>:
  each one with its time, its bytes and the packets it completes.  After a read the
  parser waits for more, and the buffer has room.
\<close>

fun packet_reads :: "nat \<Rightarrow> bytes \<Rightarrow> (int \<times> bytes \<times> packet list) list \<Rightarrow> bool" where
  "packet_reads n rest [] = True"
| "packet_reads n rest ((now, data, ps) # rs) =
    (let taken = concat (map packet_bytes ps); rest' = drop (length taken) (rest @ data) in
     length rest + length data \<le> n \<and> list_all valid_packet ps \<and> rest @ data = taken @ rest' \<and>
     waiting rest' \<and> length rest' < n \<and> packet_reads n rest' rs)"

definition read_events :: "(int \<times> bytes \<times> packet list) list \<Rightarrow> tcp_event list" where
  "read_events rs = map (\<lambda>(now, data, ps). E_Read now data) rs"

definition read_packets :: "(int \<times> bytes \<times> packet list) list \<Rightarrow> packet list" where
  "read_packets rs = concat (map (\<lambda>(now, data, ps). ps) rs)"

text \<open>A session that talks to the plugins, waits for data and holds \<open>rest\<close> of a packet.\<close>

definition session_ready :: "nat \<Rightarrow> bytes \<Rightarrow> ('s, unit) tcp_world \<Rightarrow> bool" where
  "session_ready n rest W \<longleftrightarrow> (let t = tw_session W; sb = ts_recv_buffer t in
     wt_safe (tw_logic W) \<and> sb_inv sb \<and> contents sb = rest \<and> sb_max_buff_size sb = n \<and>
     ts_reading t = Some (get_buffer_size sb) \<and> ts_io_state t = SESSION_IO_LOGIC \<and> ts_io_type t = CONNECT_IO_TCP)"

text \<open>An example: connection 3 of the server \<open>echo_server\<close>, and a packet.\<close>

definition reading_world :: "(nat, unit) tcp_world" where
  "reading_world = \<lparr> tw_session = CTcpSession_ctor \<lparr> ts_connect_id := 3, ts_recv_buffer := Init (replicate 100 0), ts_reading := Some 100 \<rparr>,
     tw_parser = (), tw_logic = echo_server \<rparr>"

definition small_packet :: packet where
  "small_packet = \<lparr> pk_version = 1, pk_command = 9, pk_session = replicate 32 0, pk_body = [5] \<rparr>"


subsection \<open>From the socket to the work thread\<close>

lemma session_reads:
  assumes "session_ready n rest W" "n < 2 ^ 32" "packet_reads n rest ((now, data, ps) # rs)"
  obtains rest' W' where "tcp_step S binary_packet_parse self (E_Read now data) W = Some W'" "session_ready n rest' W'"
    "packet_reads n rest' rs" "ts_connect_id (tw_session W') = ts_connect_id (tw_session W)"
    "assignation_thread_module_logic S (ts_connect_id (tw_session W)) (map packet_message ps) self (tw_logic W) = Some (tw_logic W')"
proof -
  let ?t = "tw_session W" and ?taken = "concat (map packet_bytes ps)"
  let ?sb = "ts_recv_buffer ?t" and ?rest = "drop (length ?taken) (rest @ data)"
  have W: "wt_safe (tw_logic W)" "sb_inv ?sb" "contents ?sb = rest" "sb_max_buff_size ?sb = n" "ts_reading ?t = Some (get_buffer_size ?sb)"
    "ts_io_state ?t = SESSION_IO_LOGIC" "ts_io_type ?t = CONNECT_IO_TCP" using assms(1) by (simp_all add: session_ready_def Let_def)
  have r: "length rest + length data \<le> n" "list_all valid_packet ps" "rest @ data = ?taken @ ?rest" "waiting ?rest" "length ?rest < n"
    "packet_reads n ?rest rs" using assms(3) by (simp_all add: Let_def)
  have fits: "length data \<le> get_buffer_size ?sb" using r(1) W(2-4) by (simp add: get_buffer_size_contents del: length_contents)
  obtain sb where sb: "write_memory (get_curr_write_ptr ?sb) data ?sb = Some sb" "sb_inv (snd (set_write_data (length data) sb))"
    "contents (snd (set_write_data (length data) sb)) = rest @ data" "sb_max_buff_size (snd (set_write_data (length data) sb)) = n"
    using recv_commit [OF W(2) fits] W(3,4) by metis
  let ?sb1 = "snd (set_write_data (length data) sb)" and ?sb2 = "move_buffer (length ?taken) (snd (set_write_data (length data) sb))"
  have "parse_packet_from_recv_buffer CONNECT_IO_TCP ?sb1 [] = Some (True, ?sb2, map packet_message ps)"
    by (rule stream_parse_packets [OF sb(2) _ r(2)]) (use sb r assms(2) in \<open>simp_all add: sb_inv_def\<close>)
  hence pk: "pk_from_recv_buffer binary_packet_parse c ?sb1 CONNECT_IO_TCP p = Some (True, ?sb2, map packet_message ps, p)" for c p
    by (simp add: binary_packet_parse_def)
  obtain w where w: "assignation_thread_module_logic S (ts_connect_id ?t) (map packet_message ps) self (tw_logic W) = Some w" "wt_safe w"
    by (rule ends_safeE [OF safe_assignation(1) [OF W(1)]])
  have sb2: "sb_inv ?sb2" "contents ?sb2 = ?rest" "sb_max_buff_size ?sb2 = n" using sb(2-4) by (simp_all add: contents_move_buffer)
  hence room: "get_buffer_size ?sb2 \<noteq> 0" using r(5) by (simp add: get_buffer_size_contents del: length_contents)
  let ?W = "W \<lparr> tw_logic := w, tw_session := ?t \<lparr> ts_reading := Some (get_buffer_size ?sb2), ts_recv_buffer := ?sb2, ts_recv_time := now,
    ts_recv_data_size := ts_recv_data_size ?t + of_nat (length data) \<rparr> \<rparr>"
  have "tcp_step S binary_packet_parse self (E_Read now data) W = Some ?W"
    using W(5-7) fits sb(1) pk w(1) room by (simp add: tcp_do_read_some_def tcp_do_read_def Let_def)
  moreover have "session_ready n ?rest ?W" using W(6,7) w(2) sb2 by (simp add: session_ready_def Let_def)
  ultimately show thesis using r(6) w(1) by (intro that [of ?W ?rest]) simp_all
qed

lemma session_run:
  "session_ready n rest W \<Longrightarrow> n < 2 ^ 32 \<Longrightarrow> packet_reads n rest rs \<Longrightarrow>
   \<exists>W'. tcp_run S binary_packet_parse self (read_events rs) W = Some W' \<and> (\<forall>j < unat (thread_count (tw_logic W)). \<forall>c.
     messages_for c (mailbox_of j (tw_logic W')) = messages_for c (mailbox_of j (tw_logic W)) @
       (if c = ts_connect_id (tw_session W) \<and> j = unat c mod unat (thread_count (tw_logic W))
        then filter (\<lambda>m. wt_sync_functions (tw_logic W) (msg_command_id m) = None) (map packet_message (read_packets rs)) else []))"
proof (induction rs arbitrary: rest W)
  case (Cons r rs)
  obtain now data ps where r: "r = (now, data, ps)" by (cases r)
  from Cons.prems(3) have reads: "packet_reads n rest ((now, data, ps) # rs)" by (simp only: r)
  obtain rest' W1 where W1: "tcp_step S binary_packet_parse self (E_Read now data) W = Some W1" "session_ready n rest' W1"
    "packet_reads n rest' rs" "ts_connect_id (tw_session W1) = ts_connect_id (tw_session W)"
    "assignation_thread_module_logic S (ts_connect_id (tw_session W)) (map packet_message ps) self (tw_logic W) = Some (tw_logic W1)"
    by (rule session_reads [OF Cons.prems(1,2) reads])
  have safe: "wt_safe (tw_logic W)" using Cons.prems(1) by (simp add: session_ready_def Let_def)
  let ?c = "ts_connect_id (tw_session W)"
  obtain w1 where w1: "assignation_thread_module_logic S ?c (map packet_message ps) self (tw_logic W) = Some w1"
    "wt_sync_functions w1 = wt_sync_functions (tw_logic W)" "thread_count w1 = thread_count (tw_logic W)"
    "\<forall>j < length (thread_module_list (tw_logic W)). \<forall>d. messages_for d (mailbox_of j w1) = messages_for d (mailbox_of j (tw_logic W)) @
      (if d = ?c \<and> j = unat ?c mod unat (thread_count (tw_logic W))
       then filter (\<lambda>m. wt_sync_functions (tw_logic W) (msg_command_id m) = None) (map packet_message ps) else [])"
    by (rule assignation_effect [OF safe, of S ?c "map packet_message ps" self])
  hence step: "w1 = tw_logic W1" using W1(5) by simp
  have "length (thread_module_list (tw_logic W)) = unat (thread_count (tw_logic W))" using safe by (simp add: wt_safe_def wt_inv_def)
  thus ?case using Cons.IH [OF W1(2) Cons.prems(2) W1(3)] W1(1,4) w1(2-4) r unfolding step
    by (auto simp: read_events_def read_packets_def simp del: tcp_step.simps)
qed (auto simp: read_events_def read_packets_def)


text \<open>
  C2.  The way of the data through three components.  A TCP session with the binary parser
  reads a stream of packets, cut into reads that end inside a packet only where the
  parser waits.  Then the mailbox of task thread \<open>connect_id % thread_count\<close> gets
  exactly these packets as messages for this connection, complete and in the order
  they were sent, without those that have a synchronous handler; no other connection
  and no other thread gets any of them.
\<close>

theorem packets_reach_work_thread:
  assumes "session_ready n rest W" "n < 2 ^ 32" "packet_reads n rest rs"
  shows "\<exists>W'. tcp_run S binary_packet_parse self (read_events rs) W = Some W' \<and> (\<forall>j < unat (thread_count (tw_logic W)). \<forall>c.
     messages_for c (mailbox_of j (tw_logic W')) = messages_for c (mailbox_of j (tw_logic W)) @
       (if c = ts_connect_id (tw_session W) \<and> j = unat c mod unat (thread_count (tw_logic W))
        then filter (\<lambda>m. wt_sync_functions (tw_logic W) (msg_command_id m) = None) (map packet_message (read_packets rs)) else []))"
  by (rule session_run [OF assms])

theorem packets_reach_work_thread_witness:
  "let p = small_packet; rs = [(5, packet_bytes p @ take 3 (packet_bytes p), [p]), (6, drop 3 (packet_bytes p), [p])] in
   \<exists>W'. tcp_run echo_ops binary_packet_parse 7 (read_events rs) reading_world = Some W' \<and> (\<forall>j < unat (thread_count (tw_logic reading_world)). \<forall>c.
     messages_for c (mailbox_of j (tw_logic W')) = messages_for c (mailbox_of j (tw_logic reading_world)) @
       (if c = ts_connect_id (tw_session reading_world) \<and> j = unat c mod unat (thread_count (tw_logic reading_world))
        then filter (\<lambda>m. wt_sync_functions (tw_logic reading_world) (msg_command_id m) = None)
          (map packet_message (read_packets rs)) else []))"
proof -
  have p: "length (packet_bytes small_packet) = 41" "valid_packet small_packet"
    by (simp_all add: length_packet_bytes small_packet_def valid_packet_def)
  show ?thesis unfolding Let_def
    by (rule packets_reach_work_thread [where n = 100 and rest = "[]"])
      (simp_all add: p session_ready_def reading_world_def CTcpSession_ctor_def echo_server_safe Let_def Init_def get_buffer_size_def
        sb_inv_def contents_def waiting_def)
qed

end
